theory Spec2Isabelle
  imports Main "HOL-Library.Sublist"
begin

section \<open>JavaScript values and strings\<close>

text \<open>
  The service in \<^verbatim>\<open>src/services/geminiService.ts\<close> is glue around a remote
  model. Its strings are modelled as \<^typ>\<open>string\<close>: a sequence of code units below
  256. Values that come out of \<^verbatim>\<open>JSON.parse\<close> are loosely typed in the source
  (\<^verbatim>\<open>any\<close>), so they are kept as a datatype of JavaScript values. A number is
  kept as the two observations this program makes of one: whether it is truthy
  (neither zero nor NaN) and its rendering by ToString.
\<close>

datatype jsval =
    JUndefined
  | JNull
  | JBool bool
  | JNum bool string
  | JStr string
  | JArr "jsval list"
  | JObj "(string \<times> jsval) list"

text \<open>
  A thrown value: an \<^verbatim>\<open>Error\<close> instance (of any subclass) with its message, or
  something that is not an \<^verbatim>\<open>Error\<close>.
\<close>

datatype thrown = JsError string | NonError jsval

text \<open>Truthiness, as the \<^verbatim>\<open>!x\<close>, \<^verbatim>\<open>x || y\<close> and \<^verbatim>\<open>c ? a : b\<close> of the source test it.\<close>

fun truthy :: "jsval \<Rightarrow> bool" where
  "truthy JUndefined = False"
| "truthy JNull = False"
| "truthy (JBool b) = b"
| "truthy (JNum nz _) = nz"
| "truthy (JStr s) = (s \<noteq> [])"
| "truthy (JArr _) = True"
| "truthy (JObj _) = True"

text \<open>
  White space as \<^verbatim>\<open>\s\<close> in a regular expression and \<^verbatim>\<open>String.prototype.trim\<close>
  know it, for code units below 256: tab, line feed, vertical tab, form feed,
  carriage return, space and the no-break space.
\<close>

definition is_space :: "char \<Rightarrow> bool" where
  "is_space c \<longleftrightarrow> c \<in> set [CHR 0x09, CHR 0x0A, CHR 0x0B, CHR 0x0C, CHR 0x0D, CHR 0x20, CHR 0xA0]"

definition trim :: "string \<Rightarrow> string" where
  "trim s = rev (dropWhile is_space (rev (dropWhile is_space s)))"

text \<open>\<^verbatim>\<open>indexOf\<close> and \<^verbatim>\<open>lastIndexOf\<close> for a single character; \<open>-1\<close> when absent.\<close>

fun indexOf :: "string \<Rightarrow> char \<Rightarrow> int" where
  "indexOf [] c = -1"
| "indexOf (x # xs) c =
     (if x = c then 0 else (let i = indexOf xs c in if i = -1 then -1 else i + 1))"

definition lastIndexOf :: "string \<Rightarrow> char \<Rightarrow> int" where
  "lastIndexOf s c =
     (let i = indexOf (rev s) c in if i = -1 then -1 else int (length s) - 1 - i)"

text \<open>
  \<^verbatim>\<open>substring(a, b)\<close>: both indices are clamped to the string and swapped when
  the first is the larger.
\<close>

definition substring :: "string \<Rightarrow> int \<Rightarrow> int \<Rightarrow> string" where
  "substring s a b =
     (let n = int (length s);
          a' = max 0 (min a n);
          b' = max 0 (min b n);
          lo = min a' b';
          hi = max a' b'
      in take (nat (hi - lo)) (drop (nat lo) s))"

section \<open>extractJson\<close>

text \<open>
  \<^verbatim>\<open>text.match(/```json\s*([\s\S]*?)\s*```/)\<close>. The match starts at the leftmost
  \<^verbatim>\<open>```json\<close>: a closing fence that a later start could use lies after the
  leftmost start as well. The first \<^verbatim>\<open>\s*\<close> is greedy and never gives back,
  since the closing fence begins with a character that is not white space. The
  group is lazy: it is the shortest text after which white space and the closing
  fence follow. \<open>after_first\<close> is the rest of the text behind the leftmost
  occurrence of a pattern; \<open>lazy_group\<close> is the group.
\<close>

fun after_first :: "string \<Rightarrow> string \<Rightarrow> string option" where
  "after_first pat [] = (if pat = [] then Some [] else None)"
| "after_first pat (c # cs) =
     (if prefix pat (c # cs) then Some (drop (length pat) (c # cs))
      else after_first pat cs)"

fun lazy_group :: "string \<Rightarrow> string option" where
  "lazy_group [] = None"
| "lazy_group (c # cs) =
     (if prefix ''```'' (dropWhile is_space (c # cs)) then Some []
      else map_option ((#) c) (lazy_group cs))"

definition markdownMatch :: "string \<Rightarrow> string option" where
  "markdownMatch text =
     (case after_first ''```json'' text of
        None \<Rightarrow> None
      | Some rest \<Rightarrow> lazy_group (dropWhile is_space rest))"

definition not_found_message :: "string \<Rightarrow> string" where
  "not_found_message text =
     ''Could not find a valid JSON object or array in the response. Model returned: ''
       @ [CHR 0x22] @ text @ [CHR 0x22]"

definition bracket_start :: "string \<Rightarrow> int" where
  "bracket_start text =
     (let firstBracket = indexOf text (CHR ''['');
          firstBrace = indexOf text (CHR ''{'')
      in if firstBracket = -1 then firstBrace
         else if firstBrace = -1 then firstBracket
         else min firstBracket firstBrace)"

definition bracket_end :: "string \<Rightarrow> int" where
  "bracket_end text =
     (let lastBracket = lastIndexOf text (CHR '']'');
          lastBrace = lastIndexOf text (CHR ''}'')
      in max lastBracket lastBrace)"

definition bracket_search :: "string \<Rightarrow> thrown + string" where
  "bracket_search text =
     (let start = bracket_start text in
      if start = -1 then Inl (JsError (not_found_message text))
      else
        let end = bracket_end text in
        if end = -1 \<or> end < start then Inl (JsError (not_found_message text))
        else Inr (substring text start (end + 1)))"

definition extractJson :: "string \<Rightarrow> thrown + string" where
  "extractJson text =
     (case markdownMatch text of
        Some g \<Rightarrow> if g \<noteq> [] then Inr (trim g) else bracket_search text
      | None \<Rightarrow> bracket_search text)"

section \<open>Reading loosely typed values\<close>

text \<open>
  A property read fails with a TypeError on \<^verbatim>\<open>null\<close> and \<^verbatim>\<open>undefined\<close>; on an
  object it finds the property or gives \<^verbatim>\<open>undefined\<close>. The names this program
  reads (\<^verbatim>\<open>textResponse\<close>, \<^verbatim>\<open>variations\<close>, \<^verbatim>\<open>modifiedPrompt\<close>, \<^verbatim>\<open>title\<close>,
  \<^verbatim>\<open>description\<close>, \<^verbatim>\<open>objects\<close>) are defined on no string, number, boolean
  or array, so there the read gives \<^verbatim>\<open>undefined\<close> as well. The text of a
  TypeError is the engine's; the model writes it the way V8 does.
\<close>

definition cannot_read :: "string \<Rightarrow> string \<Rightarrow> thrown" where
  "cannot_read what name =
     JsError (''Cannot read properties of '' @ what @ '' (reading '' @ [CHR 0x27] @ name
              @ [CHR 0x27] @ '')'')"

fun js_get :: "jsval \<Rightarrow> string \<Rightarrow> thrown + jsval" where
  "js_get JUndefined name = Inl (cannot_read ''undefined'' name)"
| "js_get JNull name = Inl (cannot_read ''null'' name)"
| "js_get (JObj kvs) name = Inr (case map_of kvs name of Some v \<Rightarrow> v | None \<Rightarrow> JUndefined)"
| "js_get _ name = Inr JUndefined"

text \<open>
  ToString, as a template literal applies it to an interpolated value. The
  values here come out of \<^verbatim>\<open>JSON.parse\<close>, so no property of theirs is callable.
  An object without an own property \<^verbatim>\<open>toString\<close> is rendered by
  \<^verbatim>\<open>Object.prototype.toString\<close>. An object with one hides that method behind a
  value that cannot be called; \<^verbatim>\<open>valueOf\<close>, own or inherited, gives no primitive
  either, and ToString throws a TypeError. An array is joined with commas:
  \<^verbatim>\<open>null\<close> and \<^verbatim>\<open>undefined\<close> elements give the empty string, every other element
  goes through ToString in turn, and the first element that throws ends the
  conversion.
\<close>

fun intercalate :: "string \<Rightarrow> string list \<Rightarrow> string" where
  "intercalate sep [] = []"
| "intercalate sep [x] = x"
| "intercalate sep (x # y # ys) = x @ sep @ intercalate sep (y # ys)"

definition cannot_convert :: thrown where
  "cannot_convert = JsError ''Cannot convert object to primitive value''"

fun first_error :: "(thrown + string) list \<Rightarrow> thrown + string list" where
  "first_error [] = Inr []"
| "first_error (Inl err # rest) = Inl err"
| "first_error (Inr x # rest) =
     (case first_error rest of Inl err \<Rightarrow> Inl err | Inr xs \<Rightarrow> Inr (x # xs))"

fun to_string :: "jsval \<Rightarrow> thrown + string" where
  "to_string JUndefined = Inr ''undefined''"
| "to_string JNull = Inr ''null''"
| "to_string (JBool b) = Inr (if b then ''true'' else ''false'')"
| "to_string (JNum _ shown) = Inr shown"
| "to_string (JStr s) = Inr s"
| "to_string (JArr xs) =
     (case first_error
             (map (\<lambda>x. if x = JUndefined \<or> x = JNull then Inr [] else to_string x) xs) of
        Inl err \<Rightarrow> Inl err
      | Inr shown \<Rightarrow> Inr (intercalate '','' shown))"
| "to_string (JObj kvs) =
     (case map_of kvs ''toString'' of
        None \<Rightarrow> Inr ''[object Object]''
      | Some _ \<Rightarrow> Inl cannot_convert)"

text \<open>A value of type \<^verbatim>\<open>string | undefined\<close>: its truthiness and its ToString.\<close>

definition present :: "string option \<Rightarrow> bool" where
  "present x = (case x of None \<Rightarrow> False | Some s \<Rightarrow> s \<noteq> [])"

definition opt_to_string :: "string option \<Rightarrow> string" where
  "opt_to_string x = (case x of None \<Rightarrow> ''undefined'' | Some s \<Rightarrow> s)"

text \<open>The decimal rendering of a non-negative integer.\<close>

fun digits :: "nat \<Rightarrow> string" where
  "digits n =
     (if n < 10 then [''0123456789'' ! n]
      else digits (n div 10) @ [''0123456789'' ! (n mod 10)])"

declare digits.simps [simp del]

section \<open>The remote client and the environment\<close>

text \<open>
  The shapes of the SDK's requests and responses, as far as this program builds
  and reads them. An optional field is an \<^typ>\<open>'a option\<close>.
\<close>

record image_input =
  base64Data :: string
  mimeType :: string

datatype part_in = InlineData string string | TextPart string

datatype schema = GenerationPlanSchema | ObjectDetectionSchema

datatype tool = GoogleSearch

datatype modality = IMAGE

record content_config =
  responseMimeType :: "string option"
  responseSchema :: "schema option"
  tools :: "tool list option"
  responseModalities :: "modality list option"

record content_request =
  model :: string
  parts :: "part_in list"
  config :: "content_config option"

record images_request =
  images_model :: string
  images_prompt :: jsval
  numberOfImages :: nat
  images_aspectRatio :: string

text \<open>
  A response part: \<open>inlineData_data\<close> is \<^verbatim>\<open>part.inlineData.data\<close>, absent when
  either level is; a candidate's \<open>content_parts\<close> is \<^verbatim>\<open>candidate.content?.parts\<close>.
  \<open>response_text\<close> is the SDK's \<^verbatim>\<open>text\<close> accessor and \<open>blockReason\<close> is
  \<^verbatim>\<open>promptFeedback?.blockReason\<close>.
\<close>

record part_out =
  inlineData_data :: "string option"
  part_text :: "string option"

record candidate =
  content_parts :: "part_out list option"
  groundingMetadata :: jsval

record content_response =
  response_text :: "string option"
  candidates :: "candidate list option"
  blockReason :: "string option"

record image_obj =
  imageBytes :: "string option"

record generated_image =
  image' :: "image_obj option"

record images_response =
  generatedImages :: "generated_image list option"
  images_blockReason :: "string option"

datatype call = GenerateContent content_request | GenerateImages images_request

text \<open>
  What the program takes from outside: the credential in the process
  environment, the display language (\<^verbatim>\<open>getCurrentLanguage\<close> of the i18n module),
  \<^verbatim>\<open>JSON.parse\<close>, the two remote endpoints, the clock and the random source.
  An endpoint answers a request given the calls made before it, with a response
  or a thrown value. The clock and the random source are read by position:
  \<open>Date_now env k\<close> is the \<open>k\<close>-th reading of the clock in milliseconds,
  \<open>Math_random env k\<close> the ToString of the \<open>k\<close>-th random number.
\<close>

record env =
  API_KEY :: "string option"
  getCurrentLanguage :: string
  JSON_parse :: "string \<Rightarrow> thrown + jsval"
  models_generateContent :: "call list \<Rightarrow> content_request \<Rightarrow> thrown + content_response"
  models_generateImages :: "call list \<Rightarrow> images_request \<Rightarrow> thrown + images_response"
  Date_now :: "nat \<Rightarrow> nat"
  Math_random :: "nat \<Rightarrow> string"

text \<open>
  The state the program changes: the module variable \<^verbatim>\<open>ai\<close> (the key the client
  was constructed with, once it is), the calls sent to the remote endpoints, and
  how often the clock and the random source have been read. Diagnostics written
  with \<^verbatim>\<open>console.error\<close> are not kept.
\<close>

record state =
  ai :: "string option"
  calls :: "call list"
  clock_reads :: nat
  random_reads :: nat

type_synonym 'a io = "state \<Rightarrow> (thrown + 'a) \<times> state"

definition getAiClient :: "env \<Rightarrow> unit io" where
  "getAiClient e s =
     (if ai s = None then
        if \<not> present (API_KEY e) then
          (Inl (JsError ''API_KEY environment variable not set. Please configure it to use the AI features.''), s)
        else (Inr (), s\<lparr>ai := API_KEY e\<rparr>)
      else (Inr (), s))"

definition generateContent :: "env \<Rightarrow> content_request \<Rightarrow> content_response io" where
  "generateContent e req s =
     (models_generateContent e (calls s) req, s\<lparr>calls := calls s @ [GenerateContent req]\<rparr>)"

definition generateImages :: "env \<Rightarrow> images_request \<Rightarrow> images_response io" where
  "generateImages e req s =
     (models_generateImages e (calls s) req, s\<lparr>calls := calls s @ [GenerateImages req]\<rparr>)"

section \<open>The edit render path\<close>

text \<open>
  The loop of \<^verbatim>\<open>editImageInternal\<close> over the returned parts: the last part with
  image data and the last part with text (among those without image data) win.
\<close>

fun scan_parts :: "part_out list \<Rightarrow> string option \<times> string option \<Rightarrow> string option \<times> string option" where
  "scan_parts [] acc = acc"
| "scan_parts (p # ps) (returnedImage, returnedText) =
     (if present (inlineData_data p) then scan_parts ps (inlineData_data p, returnedText)
      else if present (part_text p) then scan_parts ps (returnedImage, part_text p)
      else scan_parts ps (returnedImage, returnedText))"

definition invalid_prompt :: "jsval \<Rightarrow> bool" where
  "invalid_prompt prompt \<longleftrightarrow>
     \<not> truthy prompt \<or> (case prompt of JStr p \<Rightarrow> trim p = [] | _ \<Rightarrow> True)"

text \<open>
  What \<^verbatim>\<open>editImageInternal\<close> makes of a response: the image data, or the error
  it throws.
\<close>

definition no_candidates_error :: "content_response \<Rightarrow> thrown" where
  "no_candidates_error response =
     (if present (blockReason response) then
        JsError (''Image generation was blocked. Reason: '' @ opt_to_string (blockReason response))
      else JsError ''The API did not return any candidates. The request may have been blocked or failed.'')"

definition returned_image :: "part_out list \<Rightarrow> thrown + string" where
  "returned_image ps =
     (case scan_parts ps (None, None) of
        (returnedImage, returnedText) \<Rightarrow>
          if present returnedImage then Inr (opt_to_string returnedImage)
          else if present returnedText then
            Inl (JsError (''The AI failed to generate an image and returned this message: ''
                          @ [CHR 0x22] @ opt_to_string returnedText @ [CHR 0x22]))
          else Inl (JsError ''The API did not return an image. The response may have been blocked.''))"

definition edited_image :: "content_response \<Rightarrow> thrown + string" where
  "edited_image response =
     (case candidates response of
        None \<Rightarrow> Inl (no_candidates_error response)
      | Some [] \<Rightarrow> Inl (no_candidates_error response)
      | Some (candidate # _) \<Rightarrow>
          (case content_parts candidate of
             None \<Rightarrow> Inl (JsError ''The API returned a candidate with no content parts.'')
           | Some ps \<Rightarrow> returned_image ps))"

text \<open>
  The request of \<^verbatim>\<open>editImageInternal\<close>: the images, then \<^verbatim>\<open>{ text: prompt }\<close>. The
  request is built past the validation only, where the prompt is a string;
  \<open>prompt_text\<close> is that string.
\<close>

definition prompt_text :: "jsval \<Rightarrow> string" where
  "prompt_text prompt = (case prompt of JStr p \<Rightarrow> p | _ \<Rightarrow> [])"

definition edit_request :: "image_input list \<Rightarrow> jsval \<Rightarrow> content_request" where
  "edit_request images prompt =
     (let imageParts = map (\<lambda>img. InlineData (base64Data img) (mimeType img)) images in
      \<lparr>model = ''gemini-2.5-flash-image'',
       parts = imageParts @ [TextPart (prompt_text prompt)],
       config = Some \<lparr>responseMimeType = None, responseSchema = None,
                      tools = None, responseModalities = Some [IMAGE]\<rparr>\<rparr>)"

text \<open>The \<^verbatim>\<open>try\<close> block of \<^verbatim>\<open>editImageInternal\<close>.\<close>

definition editImage_try :: "env \<Rightarrow> image_input list \<Rightarrow> jsval \<Rightarrow> string io" where
  "editImage_try e images prompt s =
     (if invalid_prompt prompt then
        (Inl (JsError ''A valid, non-empty prompt is required for image editing.''), s)
      else if images = [] then
        (Inl (JsError ''At least one image is required for editing.''), s)
      else
        case getAiClient e s of
          (Inl err, s1) \<Rightarrow> (Inl err, s1)
        | (Inr _, s1) \<Rightarrow>
            (case generateContent e (edit_request images prompt) s1 of
               (Inl err, s2) \<Rightarrow> (Inl err, s2)
             | (Inr response, s2) \<Rightarrow> (edited_image response, s2)))"

text \<open>
  The \<^verbatim>\<open>catch\<close> of \<^verbatim>\<open>editImageInternal\<close>: an \<^verbatim>\<open>Error\<close> is thrown on as it is,
  anything else is replaced.
\<close>

definition editImageInternal :: "env \<Rightarrow> image_input list \<Rightarrow> jsval \<Rightarrow> string io" where
  "editImageInternal e images prompt s =
     (case editImage_try e images prompt s of
        (Inl (JsError m), s') \<Rightarrow> (Inl (JsError m), s')
      | (Inl (NonError _), s') \<Rightarrow> (Inl (JsError ''Could not edit the image.''), s')
      | (Inr img, s') \<Rightarrow> (Inr img, s'))"

definition retryImageGeneration :: "env \<Rightarrow> image_input list \<Rightarrow> jsval \<Rightarrow> string io" where
  "retryImageGeneration e images prompt = editImageInternal e images prompt"

section \<open>The generate render path\<close>

definition no_images_error :: "images_response \<Rightarrow> thrown" where
  "no_images_error response =
     (if present (images_blockReason response) then
        JsError (''Image generation was blocked. Reason: ''
                 @ opt_to_string (images_blockReason response))
      else JsError ''The API did not return any images. The request may have been blocked or failed.'')"

text \<open>
  \<^verbatim>\<open>response.generatedImages[0].image.imageBytes\<close>: a TypeError when the first
  generated image has no \<^verbatim>\<open>image\<close> (the field \<open>image'\<close>), and \<^verbatim>\<open>undefined\<close> when
  that has no bytes.
\<close>

definition generated_bytes :: "images_response \<Rightarrow> thrown + string option" where
  "generated_bytes response =
     (case generatedImages response of
        None \<Rightarrow> Inl (no_images_error response)
      | Some [] \<Rightarrow> Inl (no_images_error response)
      | Some (g # _) \<Rightarrow>
          (case image' g of
             None \<Rightarrow> Inl (cannot_read ''undefined'' ''imageBytes'')
           | Some img \<Rightarrow> Inr (imageBytes img)))"

definition images_request_for :: "jsval \<Rightarrow> string \<Rightarrow> images_request" where
  "images_request_for prompt aspectRatio =
     \<lparr>images_model = ''imagen-4.0-generate-001'', images_prompt = prompt,
      numberOfImages = 1, images_aspectRatio = aspectRatio\<rparr>"

definition retryNewImageGeneration :: "env \<Rightarrow> jsval \<Rightarrow> string \<Rightarrow> string option io" where
  "retryNewImageGeneration e prompt aspectRatio s =
     (case getAiClient e s of
        (Inl err, s1) \<Rightarrow> (Inl err, s1)
      | (Inr _, s1) \<Rightarrow>
          (case generateImages e (images_request_for prompt aspectRatio) s1 of
             (Inl err, s2) \<Rightarrow> (Inl err, s2)
           | (Inr response, s2) \<Rightarrow> (generated_bytes response, s2)))"

section \<open>Planning\<close>

text \<open>
  The planner instructions are template literals of the source; they are
  written out line by line, with the interpolated values in their places.
\<close>

definition newImagePlanPrompt :: \<open>string \<Rightarrow> string \<Rightarrow> string \<Rightarrow> string\<close> where
  \<open>newImagePlanPrompt userPrompt lang aspectRatio =
     concat
      [''You are a world-class creative director and prompt engineer acting as a '',
       ''planner. A user wants to generate a new image with the prompt: "'',
       userPrompt,
       ''". The user'',
       [CHR 0x27],
       ''s language is "'',
       lang,
       ''".'',
       [CHR 0x0A],
       ''      '',
       [CHR 0x0A],
       ''      Your task is to conceptualize 3 distinct, high-quality artistic variations '',
       ''based on their prompt.'',
       [CHR 0x0A],
       ''      1.  Write a brief, encouraging, conversational response in the USER'',
       [CHR 0x27],
       ''S LANGUAGE ('',
       lang,
       '').'',
       [CHR 0x0A],
       ''      2.  For each variation, create a short title and a one-sentence description, '',
       ''also in the USER'',
       [CHR 0x27],
       ''S LANGUAGE.'',
       [CHR 0x0A],
       ''      3.  For each variation'',
       [CHR 0x27],
       ''s '',
       [CHR 0x27],
       ''modifiedPrompt'',
       [CHR 0x27],
       '' (which must be in ENGLISH), write a descriptive, multi-sentence paragraph '',
       ''for an image generation AI. Do NOT use simple keywords. Instead, describe '',
       ''a complete photorealistic scene. Incorporate professional photographic terms '',
       ''like camera angles (e.g., "low-angle shot", "close-up"), lens types (e.g., '',
       ''"85mm portrait lens", "wide-angle"), and lighting conditions (e.g., "golden '',
       ''hour light", "softbox setup", "cinematic lighting").'',
       [CHR 0x0A],
       ''      4.  Generate 4 short, actionable follow-up prompts in the USER'',
       [CHR 0x27],
       ''S LANGUAGE.'',
       [CHR 0x0A],
       ''      5.  The prompt MUST be designed to generate an image with a '',
       [CHR 0x27],
       aspectRatio,
       [CHR 0x27],
       '' aspect ratio.'',
       [CHR 0x0A],
       ''      '',
       [CHR 0x0A],
       ''      Return this plan in the specified JSON format.'']\<close>

definition webSearchPlanPrompt :: \<open>nat \<Rightarrow> string \<Rightarrow> string \<Rightarrow> string \<Rightarrow> string\<close> where
  \<open>webSearchPlanPrompt n userPrompt lang aspectRatio =
     concat
      [''You are a creative AI assistant. A user has provided '',
       digits n,
       '' image(s) and a prompt in "'',
       lang,
       ''": "'',
       userPrompt,
       ''".'',
       [CHR 0x0A, CHR 0x0A],
       ''        Your task is to create a superior generation plan using multilingual '',
       ''web search.'',
       [CHR 0x0A],
       ''        1.  Analyze ALL provided images'',
       [CHR 0x27],
       '' content, style, and composition. If there are people in the images, pay '',
       ''close attention to their faces.'',
       [CHR 0x0A],
       ''        2.  Take the user'',
       [CHR 0x27],
       ''s prompt and perform Google searches for advanced "nano banana" (a generative '',
       ''AI model) techniques. Search in MULTIPLE LANGUAGES, including English, Japanese, '',
       ''and Korean, to find diverse ideas.'',
       [CHR 0x0A],
       ''        3.  Synthesize your findings from the multilingual search and the '',
       ''original request to create a generation plan.'',
       [CHR 0x0A],
       ''        4.  Write a brief, encouraging, conversational response to the user. '',
       ''YOU MUST RESPOND IN THE USER'',
       [CHR 0x27],
       ''S LANGUAGE ('',
       lang,
       '').'',
       [CHR 0x0A],
       ''        5.  Come up with 3 distinct, creative variations based on your findings. '',
       ''For each, create a title and description in the user'',
       [CHR 0x27],
       ''s language.'',
       [CHR 0x0A],
       ''        6.  The '',
       [CHR 0x27],
       ''modifiedPrompt'',
       [CHR 0x27],
       '' field MUST be a non-empty, highly detailed string written in ENGLISH for '',
       ''the image model. CRITICAL: If the original image contains people, add this '',
       ''instruction at the end of the prompt: "--no-face-swap, preserve facial identity '',
       ''from original image".'',
       [CHR 0x0A],
       ''        7.  Generate 4 actionable follow-up prompts in the user'',
       [CHR 0x27],
       ''s language.'',
       [CHR 0x0A],
       ''        8. The final generated image MUST have a '',
       [CHR 0x27],
       aspectRatio,
       [CHR 0x27],
       '' aspect ratio. This is a critical instruction that must be reflected in '',
       ''the '',
       [CHR 0x27],
       ''modifiedPrompt'',
       [CHR 0x27],
       ''.'',
       [CHR 0x0A],
       ''        '',
       [CHR 0x0A],
       ''        EXTREMELY IMPORTANT: Your entire response must be a single, valid '',
       ''JSON object. It MUST start with '',
       [CHR 0x27],
       ''{'',
       [CHR 0x27],
       '' and end with '',
       [CHR 0x27],
       ''}'',
       [CHR 0x27],
       ''. Do NOT include any text, greetings, or markdown formatting like ```json '',
       ''before or after the JSON object.'']\<close>

definition editPlanPrompt :: \<open>nat \<Rightarrow> string \<Rightarrow> string \<Rightarrow> string \<Rightarrow> string\<close> where
  \<open>editPlanPrompt n userPrompt lang aspectRatio =
     concat
      [''You are a world-class creative director and prompt engineer acting as a '',
       ''planner. A user wants to edit/combine '',
       digits n,
       '' image(s) with the prompt: "'',
       userPrompt,
       ''". The user'',
       [CHR 0x27],
       ''s language is "'',
       lang,
       ''".'',
       [CHR 0x0A],
       ''        '',
       [CHR 0x0A],
       ''        Your task is to analyze ALL provided images and conceptualize 3 '',
       ''distinct, high-quality artistic variations.'',
       [CHR 0x0A],
       ''        1.  Write a brief, encouraging, conversational response in the USER'',
       [CHR 0x27],
       ''S LANGUAGE ('',
       lang,
       '').'',
       [CHR 0x0A],
       ''        2.  For each variation, create a short title and a one-sentence '',
       ''description, also in the USER'',
       [CHR 0x27],
       ''S LANGUAGE.'',
       [CHR 0x0A],
       ''        3.  For each variation'',
       [CHR 0x27],
       ''s '',
       [CHR 0x27],
       ''modifiedPrompt'',
       [CHR 0x27],
       '' (which must be in ENGLISH), write a descriptive, multi-sentence paragraph. '',
       ''Do NOT use simple keywords. Instead, describe a complete photorealistic '',
       ''scene. Incorporate professional photographic terms like camera angles (e.g., '',
       ''"low-angle shot", "close-up"), lens types (e.g., "85mm portrait lens", "wide-angle"), '',
       ''and lighting conditions (e.g., "golden hour light", "softbox setup", "cinematic '',
       ''lighting"). CRITICAL: If the original image contains people, you must add '',
       ''this instruction at the end of the prompt: "--no-face-swap, preserve facial '',
       ''identity from original image".'',
       [CHR 0x0A],
       ''        4.  Generate 4 short, actionable follow-up prompts in the USER'',
       [CHR 0x27],
       ''S LANGUAGE.'',
       [CHR 0x0A],
       ''        5.  Ensure the final image is rendered with a '',
       [CHR 0x27],
       aspectRatio,
       [CHR 0x27],
       '' aspect ratio. This is a strict constraint that must be reflected in the '',
       [CHR 0x27],
       ''modifiedPrompt'',
       [CHR 0x27],
       ''.'',
       [CHR 0x0A],
       ''        '',
       [CHR 0x0A],
       ''        Return this plan in the specified JSON format.'']\<close>

text \<open>
  \<^verbatim>\<open>JSON.parse(extractJson(response.text))\<close>. A response without text makes
  \<^verbatim>\<open>text.match\<close> a TypeError.
\<close>

definition parsed_json :: "env \<Rightarrow> content_response \<Rightarrow> thrown + jsval" where
  "parsed_json e response =
     (case response_text response of
        None \<Rightarrow> Inl (cannot_read ''undefined'' ''match'')
      | Some t \<Rightarrow>
          (case extractJson t of
             Inl err \<Rightarrow> Inl err
           | Inr planJsonText \<Rightarrow> JSON_parse e planJsonText))"

text \<open>
  The validation of both generators,
  \<^verbatim>\<open>!plan.textResponse || !Array.isArray(plan.variations) || plan.variations.length === 0\<close>,
  giving the variations to render when it passes.
\<close>

definition invalid_plan :: thrown where
  "invalid_plan = JsError ''Failed to create a valid generation plan.''"

definition planned_variations :: "jsval \<Rightarrow> thrown + jsval list" where
  "planned_variations plan =
     (case js_get plan ''textResponse'' of
        Inl err \<Rightarrow> Inl err
      | Inr textResponse \<Rightarrow>
          if \<not> truthy textResponse then Inl invalid_plan
          else
            (case js_get plan ''variations'' of
               Inl err \<Rightarrow> Inl err
             | Inr (JArr vs) \<Rightarrow> if vs = [] then Inl invalid_plan else Inr vs
             | Inr _ \<Rightarrow> Inl invalid_plan))"

definition grounding :: "content_response \<Rightarrow> jsval" where
  "grounding response =
     (case candidates response of
        None \<Rightarrow> JUndefined
      | Some [] \<Rightarrow> JUndefined
      | Some (c # _) \<Rightarrow> groundingMetadata c)"

section \<open>Variations and events\<close>

record retry_payload =
  payload_images :: "image_input list option"
  payload_prompt :: jsval
  payload_aspectRatio :: "string option"

record image_variation =
  variation_id :: string
  title :: jsval
  description :: jsval
  imageUrl :: string
  createdAt :: nat
  isError :: "bool option"
  errorMessage :: "string option"
  retryPayload :: "retry_payload option"

text \<open>
  What a generator yields: a progress notice, the plan with its grounding
  metadata (\<^verbatim>\<open>undefined\<close> when there is none), or a variation.
\<close>

datatype event = Progress string | Plan jsval jsval | Variation image_variation

text \<open>
  A run of a generator consumed to its end: the events in the order they were
  yielded, the value thrown if the generator ended by throwing, and the state.
\<close>

type_synonym run = "event list \<times> thrown option \<times> state"

text \<open>\<^verbatim>\<open>Date.now().toString() + Math.random()\<close> and \<^verbatim>\<open>new Date()\<close>.\<close>

definition fresh_id :: "env \<Rightarrow> state \<Rightarrow> string \<times> state" where
  "fresh_id e s =
     (digits (Date_now e (clock_reads s)) @ Math_random e (random_reads s),
      s\<lparr>clock_reads := Suc (clock_reads s), random_reads := Suc (random_reads s)\<rparr>)"

definition new_Date :: "env \<Rightarrow> state \<Rightarrow> nat \<times> state" where
  "new_Date e s = (Date_now e (clock_reads s), s\<lparr>clock_reads := Suc (clock_reads s)\<rparr>)"

text \<open>\<^verbatim>\<open>error instanceof Error ? error.message : 'Unknown generation error.'\<close>\<close>

definition message_of :: "thrown \<Rightarrow> string" where
  "message_of error = (case error of JsError m \<Rightarrow> m | NonError _ \<Rightarrow> ''Unknown generation error.'')"

section \<open>generateNewImages\<close>

text \<open>\<^verbatim>\<open>variation.modifiedPrompt || userPrompt\<close>\<close>

definition new_prompt :: "string \<Rightarrow> jsval \<Rightarrow> thrown + jsval" where
  "new_prompt userPrompt variation =
     (case js_get variation ''modifiedPrompt'' of
        Inl err \<Rightarrow> Inl err
      | Inr modifiedPrompt \<Rightarrow> Inr (if truthy modifiedPrompt then modifiedPrompt else JStr userPrompt))"

text \<open>The \<^verbatim>\<open>try\<close> block of the loop body, up to the variation it yields.\<close>

definition new_try :: "env \<Rightarrow> string \<Rightarrow> string \<Rightarrow> jsval \<Rightarrow> image_variation io" where
  "new_try e userPrompt aspectRatio variation s =
     (case new_prompt userPrompt variation of
        Inl err \<Rightarrow> (Inl err, s)
      | Inr promptForGeneration \<Rightarrow>
          (case retryNewImageGeneration e promptForGeneration aspectRatio s of
             (Inl err, s1) \<Rightarrow> (Inl err, s1)
           | (Inr editedImageBase64, s1) \<Rightarrow>
               (case fresh_id e s1 of
                  (i, s2) \<Rightarrow>
                    (case js_get variation ''title'' of
                       Inl err \<Rightarrow> (Inl err, s2)
                     | Inr t \<Rightarrow>
                         (case js_get variation ''description'' of
                            Inl err \<Rightarrow> (Inl err, s2)
                          | Inr d \<Rightarrow>
                              (case new_Date e s2 of
                                 (now, s3) \<Rightarrow>
                                   (Inr \<lparr>variation_id = i, title = t, description = d,
                                         imageUrl = ''data:image/png;base64,''
                                                    @ opt_to_string editedImageBase64,
                                         createdAt = now, isError = None,
                                         errorMessage = None, retryPayload = None\<rparr>,
                                    s3)))))))"

text \<open>
  The text of a diagnostic,
  \<^verbatim>\<open>`Failed to generate new image variation "${variation.title}":`\<close> and
  \<^verbatim>\<open>`Failed to generate variation "${variation.title}":`\<close>: the template literal
  reads \<^verbatim>\<open>variation.title\<close> and applies ToString to it, and either step may
  throw. What \<^verbatim>\<open>console.error\<close> writes is not kept.
\<close>

definition diagnostic :: "string \<Rightarrow> jsval \<Rightarrow> thrown + string" where
  "diagnostic what variation =
     (case js_get variation ''title'' of
        Inl err \<Rightarrow> Inl err
      | Inr t \<Rightarrow>
          (case to_string t of
             Inl err \<Rightarrow> Inl err
           | Inr shown \<Rightarrow> Inr (what @ [CHR 0x22] @ shown @ [CHR 0x22] @ '':'')))"

text \<open>
  The \<^verbatim>\<open>catch\<close> block: the diagnostic is written first, then the error
  variation is built, field by field.
\<close>

definition new_catch :: "env \<Rightarrow> string \<Rightarrow> string \<Rightarrow> jsval \<Rightarrow> thrown \<Rightarrow> image_variation io" where
  "new_catch e userPrompt aspectRatio variation error s =
     (case diagnostic ''Failed to generate new image variation '' variation of
        Inl err \<Rightarrow> (Inl err, s)
      | Inr _ \<Rightarrow>
          (case fresh_id e s of
             (i, s1) \<Rightarrow>
               (case js_get variation ''title'' of
                  Inl err \<Rightarrow> (Inl err, s1)
                | Inr t \<Rightarrow>
                    (case js_get variation ''description'' of
                       Inl err \<Rightarrow> (Inl err, s1)
                     | Inr d \<Rightarrow>
                         (case new_Date e s1 of
                            (now, s2) \<Rightarrow>
                              (case new_prompt userPrompt variation of
                                 Inl err \<Rightarrow> (Inl err, s2)
                               | Inr p \<Rightarrow>
                                   (Inr \<lparr>variation_id = i, title = t, description = d,
                                         imageUrl = [], createdAt = now, isError = Some True,
                                         errorMessage = Some (message_of error),
                                         retryPayload =
                                           Some \<lparr>payload_images = None, payload_prompt = p,
                                                 payload_aspectRatio = Some aspectRatio\<rparr>\<rparr>,
                                    s2)))))))"

definition new_variation :: "env \<Rightarrow> string \<Rightarrow> string \<Rightarrow> jsval \<Rightarrow> image_variation io" where
  "new_variation e userPrompt aspectRatio variation s =
     (case new_try e userPrompt aspectRatio variation s of
        (Inr v, s1) \<Rightarrow> (Inr v, s1)
      | (Inl error, s1) \<Rightarrow> new_catch e userPrompt aspectRatio variation error s1)"

fun new_images_loop :: "env \<Rightarrow> string \<Rightarrow> string \<Rightarrow> jsval list \<Rightarrow> state \<Rightarrow> run" where
  "new_images_loop e userPrompt aspectRatio [] s = ([], None, s)"
| "new_images_loop e userPrompt aspectRatio (variation # rest) s =
     (case new_variation e userPrompt aspectRatio variation s of
        (Inl err, s1) \<Rightarrow> ([], Some err, s1)
      | (Inr v, s1) \<Rightarrow>
          (case new_images_loop e userPrompt aspectRatio rest s1 of
             (evs, r, s2) \<Rightarrow> (Variation v # evs, r, s2)))"

definition new_plan_request :: "string \<Rightarrow> string \<Rightarrow> string \<Rightarrow> content_request" where
  "new_plan_request userPrompt lang aspectRatio =
     \<lparr>model = ''gemini-2.5-flash'',
      parts = [TextPart (newImagePlanPrompt userPrompt lang aspectRatio)],
      config = Some \<lparr>responseMimeType = Some ''application/json'',
                     responseSchema = Some GenerationPlanSchema,
                     tools = None, responseModalities = None\<rparr>\<rparr>"

definition generateNewImages :: "env \<Rightarrow> string \<Rightarrow> bool \<Rightarrow> string \<Rightarrow> state \<Rightarrow> run" where
  "generateNewImages e userPrompt useWebSearch aspectRatio s =
     (case getAiClient e s of
        (Inl err, s1) \<Rightarrow> ([], Some err, s1)
      | (Inr _, s1) \<Rightarrow>
          (case generateContent e
                  (new_plan_request userPrompt (getCurrentLanguage e) aspectRatio) s1 of
             (Inl err, s2) \<Rightarrow> ([], Some err, s2)
           | (Inr planResponse, s2) \<Rightarrow>
               (case parsed_json e planResponse of
                  Inl err \<Rightarrow> ([], Some err, s2)
                | Inr plan \<Rightarrow>
                    (case planned_variations plan of
                       Inl err \<Rightarrow> ([], Some err, s2)
                     | Inr vs \<Rightarrow>
                         (case new_images_loop e userPrompt aspectRatio vs s2 of
                            (evs, r, s3) \<Rightarrow>
                              ([Plan plan JUndefined,
                                Progress ''Generating your new images...''] @ evs,
                               r, s3))))))"

section \<open>generateImageEdits\<close>

text \<open>
  \<^verbatim>\<open>x.trim()\<close> on a loosely typed value: only a string has the method. The
  receiver here is \<^verbatim>\<open>(variation.modifiedPrompt || "")\<close>.
\<close>

fun js_trim :: "jsval \<Rightarrow> thrown + string" where
  "js_trim (JStr s) = Inr (trim s)"
| "js_trim JUndefined = Inl (cannot_read ''undefined'' ''trim'')"
| "js_trim JNull = Inl (cannot_read ''null'' ''trim'')"
| "js_trim _ = Inl (JsError ''(variation.modifiedPrompt || \"\").trim is not a function'')"

text \<open>
  The prompt of a variation, computed alike for the render call and for the
  retry payload:
  \<^verbatim>\<open>(variation.modifiedPrompt || "").trim() ? variation.modifiedPrompt : `${userPrompt}, in the style of: ${variation.title}`\<close>
\<close>

definition edit_prompt :: "string \<Rightarrow> jsval \<Rightarrow> thrown + jsval" where
  "edit_prompt userPrompt variation =
     (case js_get variation ''modifiedPrompt'' of
        Inl err \<Rightarrow> Inl err
      | Inr modifiedPrompt \<Rightarrow>
          (case js_trim (if truthy modifiedPrompt then modifiedPrompt else JStr []) of
             Inl err \<Rightarrow> Inl err
           | Inr trimmed \<Rightarrow>
               if trimmed \<noteq> [] then Inr modifiedPrompt
               else
                 (case js_get variation ''title'' of
                    Inl err \<Rightarrow> Inl err
                  | Inr t \<Rightarrow>
                      (case to_string t of
                         Inl err \<Rightarrow> Inl err
                       | Inr shown \<Rightarrow>
                           Inr (JStr (userPrompt @ '', in the style of: '' @ shown))))))"

definition edit_try :: "env \<Rightarrow> image_input list \<Rightarrow> string \<Rightarrow> jsval \<Rightarrow> image_variation io" where
  "edit_try e images userPrompt variation s =
     (case edit_prompt userPrompt variation of
        Inl err \<Rightarrow> (Inl err, s)
      | Inr promptForGeneration \<Rightarrow>
          (case editImageInternal e images promptForGeneration s of
             (Inl err, s1) \<Rightarrow> (Inl err, s1)
           | (Inr editedImageBase64, s1) \<Rightarrow>
               (case fresh_id e s1 of
                  (i, s2) \<Rightarrow>
                    (case js_get variation ''title'' of
                       Inl err \<Rightarrow> (Inl err, s2)
                     | Inr t \<Rightarrow>
                         (case js_get variation ''description'' of
                            Inl err \<Rightarrow> (Inl err, s2)
                          | Inr d \<Rightarrow>
                              (case images of
                                 [] \<Rightarrow> (Inl (cannot_read ''undefined'' ''mimeType''), s2)
                               | img # _ \<Rightarrow>
                                   (case new_Date e s2 of
                                      (now, s3) \<Rightarrow>
                                        (Inr \<lparr>variation_id = i, title = t, description = d,
                                              imageUrl = ''data:'' @ mimeType img @ '';base64,''
                                                         @ editedImageBase64,
                                              createdAt = now, isError = None,
                                              errorMessage = None, retryPayload = None\<rparr>,
                                         s3))))))))"

definition edit_catch ::
  "env \<Rightarrow> image_input list \<Rightarrow> string \<Rightarrow> jsval \<Rightarrow> thrown \<Rightarrow> image_variation io" where
  "edit_catch e images userPrompt variation error s =
     (case diagnostic ''Failed to generate variation '' variation of
        Inl err \<Rightarrow> (Inl err, s)
      | Inr _ \<Rightarrow>
          (case edit_prompt userPrompt variation of
             Inl err \<Rightarrow> (Inl err, s)
           | Inr promptForRetry \<Rightarrow>
               (case fresh_id e s of
                  (i, s1) \<Rightarrow>
                    (case js_get variation ''title'' of
                       Inl err \<Rightarrow> (Inl err, s1)
                     | Inr t \<Rightarrow>
                         (case js_get variation ''description'' of
                            Inl err \<Rightarrow> (Inl err, s1)
                          | Inr d \<Rightarrow>
                              (case new_Date e s1 of
                                 (now, s2) \<Rightarrow>
                                   (Inr \<lparr>variation_id = i, title = t, description = d,
                                         imageUrl = [], createdAt = now, isError = Some True,
                                         errorMessage = Some (message_of error),
                                         retryPayload =
                                           Some \<lparr>payload_images = Some images,
                                                 payload_prompt = promptForRetry,
                                                 payload_aspectRatio = None\<rparr>\<rparr>,
                                    s2)))))))"

definition edit_variation :: "env \<Rightarrow> image_input list \<Rightarrow> string \<Rightarrow> jsval \<Rightarrow> image_variation io" where
  "edit_variation e images userPrompt variation s =
     (case edit_try e images userPrompt variation s of
        (Inr v, s1) \<Rightarrow> (Inr v, s1)
      | (Inl error, s1) \<Rightarrow> edit_catch e images userPrompt variation error s1)"

fun image_edits_loop :: "env \<Rightarrow> image_input list \<Rightarrow> string \<Rightarrow> jsval list \<Rightarrow> state \<Rightarrow> run" where
  "image_edits_loop e images userPrompt [] s = ([], None, s)"
| "image_edits_loop e images userPrompt (variation # rest) s =
     (case edit_variation e images userPrompt variation s of
        (Inl err, s1) \<Rightarrow> ([], Some err, s1)
      | (Inr v, s1) \<Rightarrow>
          (case image_edits_loop e images userPrompt rest s1 of
             (evs, r, s2) \<Rightarrow> (Variation v # evs, r, s2)))"

text \<open>
  The request for the plan and the progress notices yielded before it. With web
  search the request carries the search tool and no schema. The two pacing
  delays of the web search branch are not modelled.
\<close>

definition edit_plan_request ::
  "image_input list \<Rightarrow> string \<Rightarrow> bool \<Rightarrow> string \<Rightarrow> string \<Rightarrow> content_request" where
  "edit_plan_request images userPrompt useWebSearch lang aspectRatio =
     (let imageParts = map (\<lambda>img. InlineData (base64Data img) (mimeType img)) images in
      if useWebSearch then
        \<lparr>model = ''gemini-2.5-flash'',
         parts = imageParts
                 @ [TextPart (webSearchPlanPrompt (length images) userPrompt lang aspectRatio)],
         config = Some \<lparr>responseMimeType = None, responseSchema = None,
                        tools = Some [GoogleSearch], responseModalities = None\<rparr>\<rparr>
      else
        \<lparr>model = ''gemini-2.5-flash'',
         parts = imageParts
                 @ [TextPart (editPlanPrompt (length images) userPrompt lang aspectRatio)],
         config = Some \<lparr>responseMimeType = Some ''application/json'',
                        responseSchema = Some GenerationPlanSchema,
                        tools = None, responseModalities = None\<rparr>\<rparr>)"

definition search_notices :: "bool \<Rightarrow> event list" where
  "search_notices useWebSearch =
     (if useWebSearch then
        [Progress ''Searching the web for inspiration...'',
         Progress ''Analyzing results to craft prompts...'']
      else [])"

definition generateImageEdits ::
  "env \<Rightarrow> image_input list \<Rightarrow> string \<Rightarrow> bool \<Rightarrow> string \<Rightarrow> state \<Rightarrow> run" where
  "generateImageEdits e images userPrompt useWebSearch aspectRatio s =
     (case getAiClient e s of
        (Inl err, s1) \<Rightarrow> ([], Some err, s1)
      | (Inr _, s1) \<Rightarrow>
          (case generateContent e
                  (edit_plan_request images userPrompt useWebSearch (getCurrentLanguage e)
                     aspectRatio) s1 of
             (Inl err, s2) \<Rightarrow> (search_notices useWebSearch, Some err, s2)
           | (Inr planResponse, s2) \<Rightarrow>
               (case parsed_json e planResponse of
                  Inl err \<Rightarrow> (search_notices useWebSearch, Some err, s2)
                | Inr plan \<Rightarrow>
                    (case planned_variations plan of
                       Inl err \<Rightarrow> (search_notices useWebSearch, Some err, s2)
                     | Inr vs \<Rightarrow>
                         (case image_edits_loop e images userPrompt vs s2 of
                            (evs, r, s3) \<Rightarrow>
                              (search_notices useWebSearch
                               @ [Plan plan (grounding planResponse),
                                  Progress ''Remixing your image with new ideas...'']
                               @ evs,
                               r, s3))))))"

section \<open>Auxiliary capabilities\<close>











section \<open>Vocabulary of the properties\<close>

text \<open>
  The validation of a plan looks at no entry of \<^verbatim>\<open>variations\<close>. What the loop
  bodies need of an entry so that their \<^verbatim>\<open>catch\<close> blocks cannot throw in turn:
  \<open>title_shown\<close>, the title can be read (the entry is not \<^verbatim>\<open>null\<close>) and ToString
  accepts it (it is \<open>convertible\<close>: neither the title nor an array element inside
  it is an object with an own property \<^verbatim>\<open>toString\<close>); and for the
  loop of \<^verbatim>\<open>generateImageEdits\<close>, which calls \<^verbatim>\<open>trim\<close> on a truthy
  \<^verbatim>\<open>modifiedPrompt\<close>, \<open>variation_spec\<close>: moreover the \<^verbatim>\<open>modifiedPrompt\<close> is a
  string or a falsy value.
\<close>

fun convertible :: "jsval \<Rightarrow> bool" where
  "convertible (JArr xs) = list_all (\<lambda>x. convertible x) xs"
| "convertible (JObj kvs) = (map_of kvs ''toString'' = None)"
| "convertible _ = True"

definition title_shown :: "jsval \<Rightarrow> bool" where
  "title_shown v =
     (case js_get v ''title'' of
        Inl _ \<Rightarrow> False
      | Inr t \<Rightarrow> (case to_string t of Inl _ \<Rightarrow> False | Inr _ \<Rightarrow> True))"

definition text_or_falsy :: "jsval \<Rightarrow> bool" where
  "text_or_falsy v = (case v of JStr _ \<Rightarrow> True | _ \<Rightarrow> \<not> truthy v)"

definition variation_spec :: "jsval \<Rightarrow> bool" where
  "variation_spec v =
     (title_shown v
      \<and> (case js_get v ''modifiedPrompt'' of Inl _ \<Rightarrow> False | Inr m \<Rightarrow> text_or_falsy m))"

definition is_variation :: "event \<Rightarrow> bool" where
  "is_variation ev = (case ev of Variation _ \<Rightarrow> True | _ \<Rightarrow> False)"

text \<open>The variations among the events of a run, in the order they were yielded.\<close>

fun variations_of :: "event list \<Rightarrow> image_variation list" where
  "variations_of [] = []"
| "variations_of (Variation iv # evs) = iv # variations_of evs"
| "variations_of (Progress _ # evs) = variations_of evs"
| "variations_of (Plan _ _ # evs) = variations_of evs"

text \<open>
  Building one variation, in success and in error alike, reads the clock twice
  and the random source once.
\<close>

definition tick :: "state \<Rightarrow> state" where
  "tick s = s\<lparr>clock_reads := Suc (Suc (clock_reads s)), random_reads := Suc (random_reads s)\<rparr>"

section \<open>A sample environment\<close>

text \<open>
  A concrete environment for the closed theorems below: a plan of three
  variations, the third with an empty \<^verbatim>\<open>modifiedPrompt\<close>; both render endpoints
  fail on the prompt of the second variation and return an image otherwise; a
  request with the object detection schema is answered with an empty list of
  objects, in a text part.
\<close>

definition sample_plan_json :: \<open>string\<close> where
  \<open>sample_plan_json =
     concat
      [''{"textResponse":"Three ideas.","variations":['',
       ''{"title":"Dawn","description":"Soft light","modifiedPrompt":"bike at dawn"},'',
       ''{"title":"Noon","description":"Hard light","modifiedPrompt":"bike at noon"},'',
       ''{"title":"Dusk","description":"Low light","modifiedPrompt":""}'',
       ''],"followUpSuggestions":[]}'']\<close>

definition sample_variations :: "jsval list" where
  "sample_variations =
     [JObj [(''title'', JStr ''Dawn''), (''description'', JStr ''Soft light''),
            (''modifiedPrompt'', JStr ''bike at dawn'')],
      JObj [(''title'', JStr ''Noon''), (''description'', JStr ''Hard light''),
            (''modifiedPrompt'', JStr ''bike at noon'')],
      JObj [(''title'', JStr ''Dusk''), (''description'', JStr ''Low light''),
            (''modifiedPrompt'', JStr [])]]"

definition sample_plan :: jsval where
  "sample_plan =
     JObj [(''textResponse'', JStr ''Three ideas.''),
           (''variations'', JArr sample_variations),
           (''followUpSuggestions'', JArr [])]"

definition sample_objects_json :: \<open>string\<close> where
  \<open>sample_objects_json = ''{"objects":[]}''\<close>

definition sample_empty_json :: \<open>string\<close> where
  \<open>sample_empty_json = ''{"textResponse":"","variations":[]}''\<close>

definition sample_empty_plan :: jsval where
  "sample_empty_plan = JObj [(''textResponse'', JStr []), (''variations'', JArr [])]"

definition sample_parse :: "string \<Rightarrow> thrown + jsval" where
  "sample_parse t =
     (if t = sample_plan_json then Inr sample_plan
      else if t = sample_objects_json then Inr (JObj [(''objects'', JArr [])])
      else if t = sample_empty_json then Inr sample_empty_plan
      else Inl (JsError ''Unexpected token''))"

definition text_response :: "string \<Rightarrow> content_response" where
  "text_response t =
     \<lparr>response_text = Some t,
      candidates = Some [\<lparr>content_parts = Some [\<lparr>inlineData_data = None, part_text = Some t\<rparr>],
                          groundingMetadata = JUndefined\<rparr>],
      blockReason = None\<rparr>"

definition image_response :: "string \<Rightarrow> content_response" where
  "image_response d =
     \<lparr>response_text = None,
      candidates = Some [\<lparr>content_parts = Some [\<lparr>inlineData_data = Some d, part_text = None\<rparr>],
                          groundingMetadata = JUndefined\<rparr>],
      blockReason = None\<rparr>"

definition sample_content :: "call list \<Rightarrow> content_request \<Rightarrow> thrown + content_response" where
  "sample_content history req =
     (if config req = Some \<lparr>responseMimeType = Some ''application/json'',
                            responseSchema = Some ObjectDetectionSchema,
                            tools = None, responseModalities = None\<rparr>
      then Inr (text_response sample_objects_json)
      else if model req = ''gemini-2.5-flash'' then Inr (text_response sample_plan_json)
      else if TextPart ''bike at noon'' \<in> set (parts req) then Inl (JsError ''quota exceeded'')
      else Inr (image_response ''QUJD''))"

definition sample_images_endpoint :: "call list \<Rightarrow> images_request \<Rightarrow> thrown + images_response" where
  "sample_images_endpoint history req =
     (if images_prompt req = JStr ''bike at noon'' then Inl (JsError ''quota exceeded'')
      else Inr \<lparr>generatedImages = Some [\<lparr>image' = Some \<lparr>imageBytes = Some ''QUJD''\<rparr>\<rparr>],
                images_blockReason = None\<rparr>)"

definition sample_env :: env where
  "sample_env =
     \<lparr>API_KEY = Some ''key'',
      getCurrentLanguage = ''en'',
      JSON_parse = sample_parse,
      models_generateContent = sample_content,
      models_generateImages = sample_images_endpoint,
      Date_now = (\<lambda>k. 1700000000000 + k),
      Math_random = (\<lambda>k. ''0.5'')\<rparr>"

definition sample_state :: state where
  "sample_state = \<lparr>ai = None, calls = [], clock_reads = 0, random_reads = 0\<rparr>"

definition sample_images :: "image_input list" where
  "sample_images = [\<lparr>base64Data = ''AAAA'', mimeType = ''image/jpeg''\<rparr>]"



text \<open>
  Two planners whose plans pass the validation with three entries, the second of
  which is not a variation of the data model. In the first plan it has the
  prompt on which the render endpoints fail and, as its title, an object with an
  own property \<^verbatim>\<open>toString\<close>. In the second plan it is \<^verbatim>\<open>null\<close>.
\<close>

definition title_object_json :: \<open>string\<close> where
  \<open>title_object_json =
     concat
      [''{"textResponse":"Three ideas.","variations":['',
       ''{"title":"Dawn","description":"Soft light","modifiedPrompt":"bike at dawn"},'',
       ''{"title":{"toString":"Noon"},"description":"Hard light","modifiedPrompt":"bike at noon"},'',
       ''{"title":"Dusk","description":"Low light","modifiedPrompt":""}'',
       ''],"followUpSuggestions":[]}'']\<close>

definition title_object_variations :: "jsval list" where
  "title_object_variations =
     [JObj [(''title'', JStr ''Dawn''), (''description'', JStr ''Soft light''),
            (''modifiedPrompt'', JStr ''bike at dawn'')],
      JObj [(''title'', JObj [(''toString'', JStr ''Noon'')]),
            (''description'', JStr ''Hard light''),
            (''modifiedPrompt'', JStr ''bike at noon'')],
      JObj [(''title'', JStr ''Dusk''), (''description'', JStr ''Low light''),
            (''modifiedPrompt'', JStr [])]]"

definition title_object_plan :: jsval where
  "title_object_plan =
     JObj [(''textResponse'', JStr ''Three ideas.''),
           (''variations'', JArr title_object_variations),
           (''followUpSuggestions'', JArr [])]"

definition null_entry_json :: \<open>string\<close> where
  \<open>null_entry_json =
     concat
      [''{"textResponse":"Three ideas.","variations":['',
       ''{"title":"Dawn","description":"Soft light","modifiedPrompt":"bike at dawn"},'',
       ''null,'',
       ''{"title":"Dusk","description":"Low light","modifiedPrompt":""}'',
       ''],"followUpSuggestions":[]}'']\<close>

definition null_entry_variations :: "jsval list" where
  "null_entry_variations =
     [JObj [(''title'', JStr ''Dawn''), (''description'', JStr ''Soft light''),
            (''modifiedPrompt'', JStr ''bike at dawn'')],
      JNull,
      JObj [(''title'', JStr ''Dusk''), (''description'', JStr ''Low light''),
            (''modifiedPrompt'', JStr [])]]"

definition null_entry_plan :: jsval where
  "null_entry_plan =
     JObj [(''textResponse'', JStr ''Three ideas.''),
           (''variations'', JArr null_entry_variations),
           (''followUpSuggestions'', JArr [])]"

definition odd_parse :: "string \<Rightarrow> thrown + jsval" where
  "odd_parse t =
     (if t = title_object_json then Inr title_object_plan
      else if t = null_entry_json then Inr null_entry_plan
      else sample_parse t)"

definition title_object_env :: env where
  "title_object_env =
     sample_env\<lparr>JSON_parse := odd_parse,
                 models_generateContent :=
                   (\<lambda>history req. Inr (text_response title_object_json))\<rparr>"

definition null_entry_env :: env where
  "null_entry_env =
     sample_env\<lparr>JSON_parse := odd_parse,
                 models_generateContent :=
                   (\<lambda>history req. Inr (text_response null_entry_json))\<rparr>"

section \<open>Properties of extractJson\<close>

lemma indexOf_ge: "- 1 \<le> indexOf s c"
  by (induction s) (auto simp: Let_def)

lemma indexOf_absent: "indexOf s c = - 1 \<longleftrightarrow> c \<notin> set s"
proof (induction s)
  case Nil
  show ?case by simp
next
  case (Cons x xs)
  have "- 1 \<le> indexOf xs c" by (rule indexOf_ge)
  with Cons show ?case by (auto simp: Let_def)
qed

lemma indexOf_first:
  "c \<in> set s \<Longrightarrow>
     0 \<le> indexOf s c \<and> nat (indexOf s c) < length s \<and> s ! nat (indexOf s c) = c
     \<and> c \<notin> set (take (nat (indexOf s c)) s)"
proof (induction s)
  case Nil
  then show ?case by simp
next
  case (Cons x xs)
  show ?case
  proof (cases "x = c")
    case True
    then show ?thesis by simp
  next
    case False
    with Cons.prems have mem: "c \<in> set xs" by simp
    then have ne: "indexOf xs c \<noteq> - 1" by (simp add: indexOf_absent)
    from Cons.IH [OF mem] have ih: "0 \<le> indexOf xs c" "nat (indexOf xs c) < length xs"
      "xs ! nat (indexOf xs c) = c" "c \<notin> set (take (nat (indexOf xs c)) xs)" by auto
    have eq: "indexOf (x # xs) c = indexOf xs c + 1" using False ne by (simp add: Let_def)
    have n: "nat (indexOf xs c + 1) = Suc (nat (indexOf xs c))" using ih(1) by simp
    show ?thesis unfolding eq n using ih False by simp
  qed
qed

lemma lastIndexOf_absent: "lastIndexOf s c = - 1 \<longleftrightarrow> c \<notin> set s"
proof -
  have "indexOf (rev s) c \<noteq> - 1 \<Longrightarrow> int (length s) - 1 - indexOf (rev s) c \<noteq> - 1"
    using indexOf_first [of c "rev s"] by (auto simp: indexOf_absent)
  then show ?thesis
    using indexOf_absent [of "rev s" c] by (auto simp: lastIndexOf_def Let_def)
qed

lemma lastIndexOf_last:
  assumes "c \<in> set s"
  shows "0 \<le> lastIndexOf s c \<and> nat (lastIndexOf s c) < length s \<and> s ! nat (lastIndexOf s c) = c
     \<and> c \<notin> set (drop (Suc (nat (lastIndexOf s c))) s)"
proof -
  let ?i = "indexOf (rev s) c"
  from assms have mem: "c \<in> set (rev s)" by simp
  from indexOf_first [OF mem] have f: "0 \<le> ?i" "nat ?i < length s" "rev s ! nat ?i = c"
    "c \<notin> set (take (nat ?i) (rev s))" by auto
  have ne: "?i \<noteq> - 1" using f(1) by simp
  have eq: "lastIndexOf s c = int (length s) - 1 - ?i" using ne by (simp add: lastIndexOf_def Let_def)
  have n: "nat (lastIndexOf s c) = length s - 1 - nat ?i" unfolding eq using f(1,2) by linarith
  have a: "s ! (length s - 1 - nat ?i) = c"
    using f(2,3) by (simp add: rev_nth)
  have "take (nat ?i) (rev s) = rev (drop (length s - nat ?i) s)"
    by (simp add: take_rev)
  with f(4) have b: "c \<notin> set (drop (length s - nat ?i) s)" by simp
  have c: "Suc (length s - 1 - nat ?i) = length s - nat ?i" using f(2) by linarith
  show ?thesis unfolding n c [symmetric] using a b f(1,2) eq c by auto
qed

lemma bracket_start_absent:
  "bracket_start text = - 1 \<longleftrightarrow> CHR ''['' \<notin> set text \<and> CHR ''{'' \<notin> set text"
  using indexOf_ge [of "text" "CHR ''[''"] indexOf_ge [of "text" "CHR ''{''"]
    indexOf_absent [of "text" "CHR ''[''"] indexOf_absent [of "text" "CHR ''{''"]
  by (auto simp: bracket_start_def Let_def min_def)

lemma sublist_not_found: "sublist text (not_found_message text)"
  unfolding not_found_message_def sublist_def by (metis append.assoc)

lemma bracket_search_eq:
  "bracket_search text =
     (if (CHR ''['' \<notin> set text \<and> CHR ''{'' \<notin> set text) \<or> bracket_end text < bracket_start text
      then Inl (JsError (not_found_message text))
      else Inr (substring text (bracket_start text) (bracket_end text + 1)))"
proof -
  have "- 1 \<le> bracket_start text"
    using indexOf_ge [of "text" "CHR ''[''"] indexOf_ge [of "text" "CHR ''{''"]
    by (auto simp: bracket_start_def Let_def min_def)
  then show ?thesis
    using bracket_start_absent [of "text"]
    by (auto simp: bracket_search_def Let_def)
qed

lemma prefix_take_append:
  assumes "prefix p (a @ b)" "length p \<le> length a"
  shows "prefix p a"
  using assms by (metis prefix_length_prefix prefixI)

lemma after_first_leftmost:
  assumes "pat \<noteq> []" "\<not> sublist pat (pre @ butlast pat)"
  shows "after_first pat (pre @ pat @ rest) = Some rest"
  using assms(2)
proof (induction pre)
  case Nil
  from assms(1) obtain c cs where "pat @ rest = c # cs" by (cases pat) auto
  then show ?case by (metis after_first.simps(2) append_Nil append_eq_conv_conj prefixI)
next
  case (Cons x pre)
  have "\<not> prefix pat (x # pre @ pat @ rest)"
  proof
    assume p: "prefix pat (x # pre @ pat @ rest)"
    have eq: "x # pre @ pat @ rest = ((x # pre) @ butlast pat) @ (last pat # rest)"
      using assms(1) by simp
    have "length pat \<le> length ((x # pre) @ butlast pat)" by simp
    with p have "prefix pat ((x # pre) @ butlast pat)"
      unfolding eq by (rule prefix_take_append)
    then have "sublist pat ((x # pre) @ butlast pat)" by (rule prefix_imp_sublist)
    with Cons.prems show False by simp
  qed
  moreover have "\<not> sublist pat (pre @ butlast pat)"
    using Cons.prems by (auto simp: sublist_Cons_right)
  ultimately show ?case using Cons.IH by simp
qed

lemma backtick_not_space: "\<not> is_space CHR ''`''"
  by (simp add: is_space_def)

lemma dropWhile_spaces_append:
  "\<forall>c\<in>set ws. is_space c \<Longrightarrow> dropWhile is_space (ws @ ''```'' @ post) = ''```'' @ post"
  by (induction ws) (auto simp: backtick_not_space)

lemma lazy_group_shortest:
  assumes "\<forall>c\<in>set ws. is_space c"
  shows "\<not> sublist ''```'' (g @ ws @ ''``'') \<Longrightarrow> g = [] \<or> \<not> is_space (last g) \<Longrightarrow>
     lazy_group (g @ ws @ ''```'' @ post) = Some g"
proof (induction g)
  case Nil
  obtain c cs where cc: "ws @ ''```'' @ post = c # cs" by (cases ws) auto
  have "prefix ''```'' (dropWhile is_space (ws @ ''```'' @ post))"
    using dropWhile_spaces_append [OF assms, of post] by simp
  then show ?case using cc by (metis append_Nil lazy_group.simps(2))
next
  case (Cons x g)
  let ?R = "ws @ ''```'' @ post"
  have lastns: "\<not> is_space (last (x # g))" using Cons.prems(2) by simp
  then have ex: "\<exists>y\<in>set (x # g). \<not> is_space y" by (metis last_in_set list.distinct(1))
  then have dw: "dropWhile is_space ((x # g) @ ?R) = dropWhile is_space (x # g) @ ?R"
    by (metis dropWhile_append1)
  let ?d = "dropWhile is_space (x # g)"
  have dne: "?d \<noteq> []" using ex by (metis dropWhile_eq_Nil_conv)
  have np: "\<not> prefix ''```'' (?d @ ?R)"
  proof
    assume p: "prefix ''```'' (?d @ ?R)"
    have eq: "?d @ ?R = (?d @ ws @ ''``'') @ (CHR ''`'' # post)" by simp
    have "length ''```'' \<le> length (?d @ ws @ ''``'')" using dne by (cases ?d) auto
    with p have "prefix ''```'' (?d @ ws @ ''``'')" unfolding eq by (rule prefix_take_append)
    then have "sublist ''```'' (?d @ ws @ ''``'')" by (rule prefix_imp_sublist)
    then have "sublist ''```'' (takeWhile is_space (x # g) @ (?d @ ws @ ''``''))"
      by (rule sublist_order.order_trans [OF _ sublist_append_leftI])
    then have "sublist ''```'' ((takeWhile is_space (x # g) @ ?d) @ ws @ ''``'')"
      by (simp only: append_assoc)
    then have "sublist ''```'' ((x # g) @ ws @ ''``'')"
      by (simp only: takeWhile_dropWhile_id)
    with Cons.prems(1) show False by blast
  qed
  have g1: "\<not> sublist ''```'' (g @ ws @ ''``'')"
    using Cons.prems(1) by (auto simp: sublist_Cons_right)
  have g2: "g = [] \<or> \<not> is_space (last g)" using Cons.prems(2) by (cases g) auto
  have "lazy_group (g @ ?R) = Some g" using Cons.IH [OF g1 g2] .
  moreover have "lazy_group ((x # g) @ ?R) =
      (if prefix ''```'' (dropWhile is_space ((x # g) @ ?R)) then Some []
       else map_option ((#) x) (lazy_group (g @ ?R)))" by simp
  ultimately show ?case using np dw by simp
qed

lemma dropWhile_trim:
  "dropWhile is_space s = trim s @ rev (takeWhile is_space (rev (dropWhile is_space s)))"
proof -
  let ?d = "dropWhile is_space s"
  have "rev ?d = takeWhile is_space (rev ?d) @ dropWhile is_space (rev ?d)" by simp
  then have "rev (rev ?d) = rev (takeWhile is_space (rev ?d) @ dropWhile is_space (rev ?d))"
    by simp
  then have "?d = rev (dropWhile is_space (rev ?d)) @ rev (takeWhile is_space (rev ?d))"
    by (simp only: rev_append rev_rev_ident)
  then show ?thesis by (simp add: trim_def)
qed

lemma trim_split:
  "s = takeWhile is_space s @ trim s @ rev (takeWhile is_space (rev (dropWhile is_space s)))"
proof -
  have "takeWhile is_space s @ dropWhile is_space s =
        takeWhile is_space s @ trim s @ rev (takeWhile is_space (rev (dropWhile is_space s)))"
    by (rule arg_cong [OF dropWhile_trim])
  then show ?thesis by (simp only: takeWhile_dropWhile_id)
qed

lemma trim_Nil: "trim [] = []"
  by (simp add: trim_def)

lemma all_dropWhile: "(\<forall>x\<in>set (dropWhile P s). P x) \<longleftrightarrow> (\<forall>x\<in>set s. P x)"
  by (induction s) auto

lemma trim_blank: "trim s = [] \<longleftrightarrow> (\<forall>c\<in>set s. is_space c)"
  by (simp add: trim_def all_dropWhile)

lemma trim_last: "trim s \<noteq> [] \<Longrightarrow> \<not> is_space (last (trim s))"
proof -
  assume ne: "trim s \<noteq> []"
  let ?r = "dropWhile is_space (rev (dropWhile is_space s))"
  have "?r = [] \<Longrightarrow> trim s = []" by (simp add: trim_def)
  with ne have rne: "?r \<noteq> []" by blast
  then have "\<not> is_space (hd ?r)" by (rule hd_dropWhile)
  moreover have "last (trim s) = hd ?r" using rne by (simp add: trim_def last_rev)
  ultimately show ?thesis by simp
qed

lemma trim_hd: "trim s \<noteq> [] \<Longrightarrow> \<not> is_space (hd (trim s))"
proof -
  assume ne: "trim s \<noteq> []"
  let ?d = "dropWhile is_space s"
  have "?d = [] \<Longrightarrow> trim s = []" by (simp only: trim_def rev.simps dropWhile.simps)
  with ne have dne: "?d \<noteq> []" by blast
  have "hd ?d = hd (trim s @ rev (takeWhile is_space (rev ?d)))"
    by (rule arg_cong [OF dropWhile_trim])
  then have "hd ?d = hd (trim s)" using ne by simp
  moreover have "\<not> is_space (hd ?d)" using dne by (rule hd_dropWhile)
  ultimately show ?thesis by simp
qed

lemma dropWhile_id: "xs \<noteq> [] \<Longrightarrow> \<not> P (hd xs) \<Longrightarrow> dropWhile P xs = xs"
  by (cases xs) auto

lemma trim_trim: "trim (trim s) = trim s"
proof (cases "trim s = []")
  case True
  then show ?thesis by (simp add: trim_Nil)
next
  case False
  have h: "\<not> is_space (hd (trim s))" using False by (rule trim_hd)
  have l: "\<not> is_space (last (trim s))" using False by (rule trim_last)
  have a: "dropWhile is_space (trim s) = trim s" using False h by (rule dropWhile_id)
  have "rev (trim s) \<noteq> []" using False by simp
  moreover have "\<not> is_space (hd (rev (trim s)))" using False l by (simp add: hd_rev)
  ultimately have "dropWhile is_space (rev (trim s)) = rev (trim s)" by (rule dropWhile_id)
  then show ?thesis using a by (simp add: trim_def [of "trim s"])
qed

lemma fenced_contents:
  assumes shape: "text = pre @ ''```json'' @ body @ ''```'' @ post"
      and first: "\<not> sublist ''```json'' (pre @ ''```jso'')"
      and closing: "\<not> sublist ''```'' (body @ ''``'')"
      and nonblank: "trim body \<noteq> []"
  shows "extractJson text = Inr (trim body)"
proof -
  let ?ws1 = "takeWhile is_space body"
  let ?ws2 = "rev (takeWhile is_space (rev (dropWhile is_space body)))"
  have sp2: "\<forall>c\<in>set ?ws2. is_space c" by (auto dest: set_takeWhileD)
  have af: "after_first ''```json'' text = Some (body @ ''```'' @ post)"
    unfolding shape using first by (intro after_first_leftmost) simp_all
  have "\<exists>y\<in>set body. \<not> is_space y" using nonblank by (simp add: trim_blank)
  then have "dropWhile is_space (body @ ''```'' @ post) = dropWhile is_space body @ ''```'' @ post"
    by (metis dropWhile_append1)
  moreover have "dropWhile is_space body @ ''```'' @ post = (trim body @ ?ws2) @ ''```'' @ post"
    by (rule arg_cong [OF dropWhile_trim])
  ultimately have dw: "dropWhile is_space (body @ ''```'' @ post) = trim body @ ?ws2 @ ''```'' @ post"
    by (simp only: append_assoc)
  have "body @ ''``'' = (?ws1 @ trim body @ ?ws2) @ ''``''"
    by (rule arg_cong [where f = "\<lambda>x. x @ ''``''", OF trim_split])
  then have "body @ ''``'' = ?ws1 @ (trim body @ ?ws2 @ ''``'')"
    by (simp only: append_assoc)
  then have "sublist (trim body @ ?ws2 @ ''``'') (body @ ''``'')"
    by (simp only: sublist_append_leftI sublist_order.order_refl)
  then have ns: "\<not> sublist ''```'' (trim body @ ?ws2 @ ''``'')"
    using closing sublist_order.order_trans by blast
  have lg: "lazy_group (trim body @ ?ws2 @ ''```'' @ post) = Some (trim body)"
  proof (rule lazy_group_shortest)
    show "\<forall>c\<in>set ?ws2. is_space c" by (rule sp2)
    show "\<not> sublist ''```'' (trim body @ ?ws2 @ ''``'')" by (rule ns)
    show "trim body = [] \<or> \<not> is_space (last (trim body))"
      using trim_last [OF nonblank] by simp
  qed
  have "markdownMatch text = lazy_group (dropWhile is_space (body @ ''```'' @ post))"
    by (simp only: markdownMatch_def af option.case)
  then have "markdownMatch text = Some (trim body)"
    by (simp only: dw lg)
  then show ?thesis using nonblank by (simp add: extractJson_def trim_trim)
qed

lemma indexOf_eq:
  assumes "i < length s" "s ! i = c" "\<forall>j<i. s ! j \<noteq> c"
  shows "indexOf s c = int i"
proof -
  from assms(1,2) have mem: "c \<in> set s" by (metis nth_mem)
  let ?n = "nat (indexOf s c)"
  from indexOf_first [OF mem] have f: "0 \<le> indexOf s c" "?n < length s" "s ! ?n = c"
    "c \<notin> set (take ?n s)" by auto
  have "\<not> ?n < i" using assms(3) f(3) by blast
  moreover have "\<not> i < ?n"
  proof
    assume "i < ?n"
    then have "take ?n s ! i = s ! i" by simp
    moreover have "i < length (take ?n s)" using \<open>i < ?n\<close> f(2) by simp
    ultimately have "c \<in> set (take ?n s)" using assms(2) by (metis nth_mem)
    with f(4) show False by blast
  qed
  ultimately have "?n = i" by linarith
  then show ?thesis using f(1) by linarith
qed

lemma indexOf_lower:
  assumes "\<forall>j<i. s ! j \<noteq> c" "i \<le> length s"
  shows "indexOf s c = - 1 \<or> int i \<le> indexOf s c"
proof (cases "c \<in> set s")
  case False
  then show ?thesis by (simp add: indexOf_absent)
next
  case True
  let ?n = "nat (indexOf s c)"
  from indexOf_first [OF True] have f: "0 \<le> indexOf s c" "?n < length s" "s ! ?n = c" by auto
  have "\<not> ?n < i" using assms(1) f(3) by blast
  then show ?thesis using f(1) by linarith
qed

lemma lastIndexOf_ge: "- 1 \<le> lastIndexOf s c"
  using lastIndexOf_last [of c s] lastIndexOf_absent [of s c] by (cases "c \<in> set s") auto

lemma lastIndexOf_eq:
  assumes "k < length s" "s ! k = c" "\<forall>j. k < j \<and> j < length s \<longrightarrow> s ! j \<noteq> c"
  shows "lastIndexOf s c = int k"
proof -
  from assms(1,2) have mem: "c \<in> set s" by (metis nth_mem)
  let ?n = "nat (lastIndexOf s c)"
  from lastIndexOf_last [OF mem] have f: "0 \<le> lastIndexOf s c" "?n < length s" "s ! ?n = c"
    "c \<notin> set (drop (Suc ?n) s)" by auto
  have "\<not> k < ?n" using assms(3) f(2,3) by blast
  moreover have "\<not> ?n < k"
  proof
    assume lt: "?n < k"
    have "drop (Suc ?n) s ! (k - Suc ?n) = s ! k" using lt assms(1) by simp
    moreover have "k - Suc ?n < length (drop (Suc ?n) s)" using lt assms(1) by simp
    ultimately have "c \<in> set (drop (Suc ?n) s)" using assms(2) by (metis nth_mem)
    with f(4) show False by blast
  qed
  ultimately have "?n = k" by linarith
  then show ?thesis using f(1) by linarith
qed

lemma lastIndexOf_upper:
  assumes "\<forall>j. k < j \<and> j < length s \<longrightarrow> s ! j \<noteq> c"
  shows "lastIndexOf s c \<le> int k"
proof (cases "c \<in> set s")
  case False
  then have "lastIndexOf s c = - 1" by (simp add: lastIndexOf_absent)
  then show ?thesis by simp
next
  case True
  let ?n = "nat (lastIndexOf s c)"
  from lastIndexOf_last [OF True] have f: "0 \<le> lastIndexOf s c" "?n < length s" "s ! ?n = c" by auto
  have "\<not> k < ?n" using assms f(2,3) by blast
  then show ?thesis using f(1) by linarith
qed

lemma bracket_start_eq:
  assumes "i < length s" "s ! i = CHR ''['' \<or> s ! i = CHR ''{''"
    "\<forall>j<i. s ! j \<noteq> CHR ''['' \<and> s ! j \<noteq> CHR ''{''"
  shows "bracket_start s = int i"
proof -
  have a: "indexOf s (CHR ''['') = - 1 \<or> int i \<le> indexOf s (CHR ''['')"
    using assms(1,3) by (intro indexOf_lower) auto
  have b: "indexOf s (CHR ''{'') = - 1 \<or> int i \<le> indexOf s (CHR ''{'')"
    using assms(1,3) by (intro indexOf_lower) auto
  from assms(2) show ?thesis
  proof
    assume "s ! i = CHR ''[''"
    then have "indexOf s (CHR ''['') = int i" using assms(1,3) by (intro indexOf_eq) auto
    then show ?thesis using b by (auto simp: bracket_start_def Let_def)
  next
    assume "s ! i = CHR ''{''"
    then have "indexOf s (CHR ''{'') = int i" using assms(1,3) by (intro indexOf_eq) auto
    then show ?thesis using a by (auto simp: bracket_start_def Let_def)
  qed
qed

lemma bracket_end_eq:
  assumes "k < length s" "s ! k = CHR '']'' \<or> s ! k = CHR ''}''"
    "\<forall>j. k < j \<and> j < length s \<longrightarrow> s ! j \<noteq> CHR '']'' \<and> s ! j \<noteq> CHR ''}''"
  shows "bracket_end s = int k"
proof -
  have a: "lastIndexOf s (CHR '']'') \<le> int k" using assms(3) by (intro lastIndexOf_upper) auto
  have b: "lastIndexOf s (CHR ''}'') \<le> int k" using assms(3) by (intro lastIndexOf_upper) auto
  from assms(2) show ?thesis
  proof
    assume "s ! k = CHR '']''"
    then have "lastIndexOf s (CHR '']'') = int k" using assms(1,3) by (intro lastIndexOf_eq) auto
    then show ?thesis using b by (auto simp: bracket_end_def Let_def)
  next
    assume "s ! k = CHR ''}''"
    then have "lastIndexOf s (CHR ''}'') = int k" using assms(1,3) by (intro lastIndexOf_eq) auto
    then show ?thesis using a by (auto simp: bracket_end_def Let_def)
  qed
qed

lemma substring_inside:
  "i \<le> k \<Longrightarrow> k < length s \<Longrightarrow> substring s (int i) (int k + 1) = take (Suc k - i) (drop i s)"
  by (simp add: substring_def Let_def min_def max_def nat_diff_distrib Suc_diff_le nat_add_distrib)

lemma extractJson_unfenced:
  "markdownMatch t = None \<or> markdownMatch t = Some [] \<Longrightarrow> extractJson t = bracket_search t"
  by (auto simp: extractJson_def)

lemma after_first_None: "after_first pat s = None \<longleftrightarrow> \<not> sublist pat s"
  by (induction s) (auto simp: sublist_Cons_right)

lemma after_first_Some: "after_first pat s = Some rest \<Longrightarrow> \<exists>pre. s = pre @ pat @ rest"
proof (induction s)
  case Nil
  then show ?case by (auto split: if_splits)
next
  case (Cons c cs)
  show ?case
  proof (cases "prefix pat (c # cs)")
    case True
    then obtain r where r: "c # cs = pat @ r" by (auto simp: prefix_def)
    have "after_first pat (c # cs) = Some (drop (length pat) (c # cs))" using True by simp
    moreover have "drop (length pat) (c # cs) = r" unfolding r by simp
    ultimately have "after_first pat (c # cs) = Some r" by (simp only:)
    with Cons.prems have "rest = r" by simp
    with r have "c # cs = [] @ pat @ rest" by simp
    then show ?thesis by blast
  next
    case False
    with Cons.prems have "after_first pat cs = Some rest" by simp
    from Cons.IH [OF this] obtain pre where "cs = pre @ pat @ rest" by blast
    then have "c # cs = (c # pre) @ pat @ rest" by simp
    then show ?thesis by blast
  qed
qed

lemma drop_append_le: "n \<le> length a \<Longrightarrow> drop n (a @ r) = drop n a @ r"
  by simp

lemma after_first_suffix: "\<exists>rest. after_first pat (pre @ pat @ r) = Some rest \<and> suffix r rest"
proof (induction pre)
  case Nil
  show ?case
  proof (cases "pat @ r")
    case Nil
    then show ?thesis by simp
  next
    case (Cons c cs)
    have "prefix pat (pat @ r)" by simp
    then have "after_first pat (pat @ r) = Some (drop (length pat) (pat @ r))"
      unfolding Cons by simp
    then show ?thesis by (simp add: suffix_def)
  qed
next
  case (Cons x pre)
  show ?case
  proof (cases "prefix pat (x # pre @ pat @ r)")
    case True
    then have "after_first pat ((x # pre) @ pat @ r) = Some (drop (length pat) ((x # pre @ pat) @ r))"
      by simp
    moreover have "drop (length pat) ((x # pre @ pat) @ r) = drop (length pat) (x # pre @ pat) @ r"
      by (rule drop_append_le) simp
    ultimately show ?thesis by (metis suffix_def)
  next
    case False
    then show ?thesis using Cons.IH by simp
  qed
qed

lemma prefix_fence_dropWhile:
  "prefix ''```'' (c # cs) \<Longrightarrow> dropWhile is_space (c # cs) = c # cs"
  by (auto simp: backtick_not_space)

lemma sublist_fence_dropWhile: "sublist ''```'' (dropWhile is_space r) \<longleftrightarrow> sublist ''```'' r"
proof (induction r)
  case Nil
  show ?case by simp
next
  case (Cons c cs)
  show ?case
  proof (cases "is_space c")
    case True
    have "\<not> prefix ''```'' (c # cs)"
    proof
      assume "prefix ''```'' (c # cs)"
      then have "c = CHR ''`''" by simp
      with True backtick_not_space show False by simp
    qed
    then have "sublist ''```'' (c # cs) \<longleftrightarrow> sublist ''```'' cs"
      by (simp only: sublist_Cons_right simp_thms)
    moreover have "dropWhile is_space (c # cs) = dropWhile is_space cs" using True by simp
    ultimately show ?thesis using Cons.IH by (simp only:)
  next
    case False
    then show ?thesis by simp
  qed
qed

lemma lazy_group_None: "lazy_group r = None \<longleftrightarrow> \<not> sublist ''```'' r"
proof (induction r)
  case Nil
  show ?case by simp
next
  case (Cons c cs)
  have a: "prefix ''```'' (c # cs) \<Longrightarrow> prefix ''```'' (dropWhile is_space (c # cs))"
    using prefix_fence_dropWhile by metis
  have b: "prefix ''```'' (dropWhile is_space (c # cs)) \<Longrightarrow> sublist ''```'' (c # cs)"
    using sublist_fence_dropWhile [of "c # cs"] prefix_imp_sublist by blast
  show ?case using Cons.IH a b
    by (auto simp: sublist_Cons_right simp del: dropWhile.simps)
qed

text \<open>
  The fence pattern finds no match exactly when no \<^verbatim>\<open>```json\<close> of the text is
  followed by a \<^verbatim>\<open>```\<close>.
\<close>

lemma markdownMatch_None:
  "markdownMatch t = None \<longleftrightarrow>
     \<not> (\<exists>pre mid post. t = pre @ ''```json'' @ mid @ ''```'' @ post)"
proof
  assume none: "markdownMatch t = None"
  show "\<not> (\<exists>pre mid post. t = pre @ ''```json'' @ mid @ ''```'' @ post)"
  proof
    assume "\<exists>pre mid post. t = pre @ ''```json'' @ mid @ ''```'' @ post"
    then obtain pre mid post where t: "t = pre @ ''```json'' @ (mid @ ''```'' @ post)" by auto
    from after_first_suffix [of "''```json''" pre "mid @ ''```'' @ post"]
    obtain rest where r: "after_first ''```json'' t = Some rest" "suffix (mid @ ''```'' @ post) rest"
      unfolding t by blast
    from r(2) have "sublist ''```'' rest"
      by (metis sublist_appendI suffix_def append.assoc)
    then have "lazy_group (dropWhile is_space rest) \<noteq> None"
      by (simp only: lazy_group_None sublist_fence_dropWhile not_not)
    with none r(1) show False by (simp add: markdownMatch_def)
  qed
next
  assume no: "\<not> (\<exists>pre mid post. t = pre @ ''```json'' @ mid @ ''```'' @ post)"
  show "markdownMatch t = None"
  proof (cases "after_first ''```json'' t")
    case None
    then show ?thesis by (simp add: markdownMatch_def)
  next
    case (Some rest)
    from after_first_Some [OF Some] obtain pre where t: "t = pre @ ''```json'' @ rest" by blast
    have "\<not> sublist ''```'' rest"
    proof
      assume "sublist ''```'' rest"
      then obtain mid post where "rest = mid @ ''```'' @ post" by (auto simp: sublist_def)
      with t no show False by blast
    qed
    then have "lazy_group (dropWhile is_space rest) = None"
      by (simp add: lazy_group_None sublist_fence_dropWhile)
    then show ?thesis using Some by (simp add: markdownMatch_def)
  qed
qed

text \<open>
  What a match of the fence pattern means for the text: the group stands between
  an opening \<^verbatim>\<open>```json\<close> and a closing \<^verbatim>\<open>```\<close>, with only white space
  around it.
\<close>

lemma lazy_group_Some:
  "lazy_group r = Some g \<Longrightarrow>
   \<exists>w post. r = g @ w @ ''```'' @ post \<and> (\<forall>c\<in>set w. is_space c)"
proof (induction r arbitrary: g)
  case Nil
  then show ?case by simp
next
  case (Cons c cs)
  show ?case
  proof (cases "prefix ''```'' (dropWhile is_space (c # cs))")
    case True
    with Cons.prems have g: "g = []" by simp
    from True obtain post where p: "dropWhile is_space (c # cs) = ''```'' @ post"
      by (auto simp: prefix_def)
    have "c # cs = takeWhile is_space (c # cs) @ dropWhile is_space (c # cs)" by simp
    then have "c # cs = g @ takeWhile is_space (c # cs) @ ''```'' @ post"
      by (simp only: p g append_Nil)
    moreover have "\<forall>x\<in>set (takeWhile is_space (c # cs)). is_space x"
      by (auto dest: set_takeWhileD)
    ultimately show ?thesis by blast
  next
    case False
    with Cons.prems obtain g' where g': "lazy_group cs = Some g'" "g = c # g'" by auto
    from Cons.IH [OF g'(1)] obtain w post where
      "cs = g' @ w @ ''```'' @ post" "\<forall>x\<in>set w. is_space x" by blast
    then have "c # cs = g @ w @ ''```'' @ post \<and> (\<forall>x\<in>set w. is_space x)"
      by (simp add: g'(2))
    then show ?thesis by blast
  qed
qed

lemma markdownMatch_Some:
  assumes "markdownMatch t = Some g"
  shows "\<exists>pre w1 w2 post.
           t = pre @ ''```json'' @ w1 @ g @ w2 @ ''```'' @ post
         \<and> (\<forall>c\<in>set (w1 @ w2). is_space c)"
proof -
  from assms obtain rest where rest: "after_first ''```json'' t = Some rest"
      "lazy_group (dropWhile is_space rest) = Some g"
    by (auto simp: markdownMatch_def split: option.splits)
  from after_first_Some [OF rest(1)] obtain pre where t: "t = pre @ ''```json'' @ rest" by blast
  from lazy_group_Some [OF rest(2)] obtain w2 post where
    d: "dropWhile is_space rest = g @ w2 @ ''```'' @ post" "\<forall>c\<in>set w2. is_space c" by blast
  have "rest = takeWhile is_space rest @ dropWhile is_space rest" by simp
  then have "rest = takeWhile is_space rest @ g @ w2 @ ''```'' @ post" by (simp only: d(1))
  then have "t = pre @ ''```json'' @ takeWhile is_space rest @ g @ w2 @ ''```'' @ post"
    using t by (simp only:)
  moreover have "\<forall>c\<in>set (takeWhile is_space rest @ w2). is_space c"
    using d(2) by (auto dest: set_takeWhileD)
  ultimately show ?thesis by blast
qed

lemma markdownMatch_blank:
  assumes "\<not> sublist ''```json'' (pre @ ''```jso'')" and "\<forall>c\<in>set w. is_space c"
  shows "markdownMatch (pre @ ''```json'' @ w @ ''```'' @ post) = Some []"
proof -
  have af: "after_first ''```json'' (pre @ ''```json'' @ w @ ''```'' @ post)
      = Some (w @ ''```'' @ post)"
    using assms(1) by (intro after_first_leftmost) simp_all
  have dw: "dropWhile is_space (w @ ''```'' @ post) = ''```'' @ post"
    using assms(2) by (rule dropWhile_spaces_append)
  have "lazy_group ([] @ [] @ ''```'' @ post) = Some []"
    by (rule lazy_group_shortest) (simp_all add: sublist_code(3))
  then have lg: "lazy_group (''```'' @ post) = Some []" by (simp only: append_Nil)
  have "markdownMatch (pre @ ''```json'' @ w @ ''```'' @ post)
      = lazy_group (dropWhile is_space (w @ ''```'' @ post))"
    by (simp only: markdownMatch_def af option.case)
  then show ?thesis by (simp only: dw lg)
qed

section \<open>Properties of the generators\<close>

lemma first_error_Inr:
  "(\<exists>ys. first_error xs = Inr ys) \<longleftrightarrow> (\<forall>x\<in>set xs. \<exists>y. x = Inr y)"
proof (induction xs)
  case Nil
  then show ?case by simp
next
  case (Cons x xs)
  then show ?case by (cases x) (auto split: sum.splits)
qed

text \<open>ToString succeeds on the convertible values and on no other.\<close>

lemma to_string_convertible: "(\<exists>shown. to_string t = Inr shown) \<longleftrightarrow> convertible t"
proof (induction t)
  case (JArr xs)
  have "(\<exists>shown. to_string (JArr xs) = Inr shown)
      \<longleftrightarrow> (\<exists>ys. first_error
             (map (\<lambda>x. if x = JUndefined \<or> x = JNull then Inr [] else to_string x) xs) = Inr ys)"
    by (auto split: sum.splits)
  also have "\<dots> \<longleftrightarrow> (\<forall>x\<in>set xs. \<exists>y. (if x = JUndefined \<or> x = JNull then Inr [] else to_string x)
                                  = Inr y)"
    unfolding first_error_Inr by auto
  also have "\<dots> \<longleftrightarrow> (\<forall>x\<in>set xs. convertible x)"
    using JArr.IH by auto
  finally show ?case by (simp add: list_all_iff)
next
  case (JObj kvs)
  show ?case by (auto split: option.splits)
qed simp_all

lemma title_shown_iff:
  "title_shown v \<longleftrightarrow> v \<noteq> JNull \<and> v \<noteq> JUndefined
     \<and> (\<exists>t. js_get v ''title'' = Inr t \<and> convertible t)"
proof -
  have "title_shown v \<longleftrightarrow> (\<exists>t shown. js_get v ''title'' = Inr t \<and> to_string t = Inr shown)"
    by (auto simp: title_shown_def split: sum.splits)
  also have "\<dots> \<longleftrightarrow> (\<exists>t. js_get v ''title'' = Inr t \<and> convertible t)"
    using to_string_convertible by blast
  also have "\<dots> \<longleftrightarrow> v \<noteq> JNull \<and> v \<noteq> JUndefined
     \<and> (\<exists>t. js_get v ''title'' = Inr t \<and> convertible t)"
    by (cases v) auto
  finally show ?thesis .
qed

text \<open>A prompt that passes the validation of editImageInternal is a string.\<close>

lemma valid_prompt_text: "\<not> invalid_prompt p \<Longrightarrow> p = JStr (prompt_text p)"
  by (cases p) (auto simp: invalid_prompt_def prompt_text_def)

lemma title_shownE:
  "title_shown v \<Longrightarrow>
   \<exists>t shown d m. js_get v ''title'' = Inr t \<and> to_string t = Inr shown
     \<and> js_get v ''description'' = Inr d \<and> js_get v ''modifiedPrompt'' = Inr m"
  by (cases v) (auto simp: title_shown_def split: sum.splits)

lemma new_prompt_shown: "title_shown v \<Longrightarrow> \<exists>p. new_prompt userPrompt v = Inr p"
  by (auto dest!: title_shownE simp: new_prompt_def)

text \<open>One pass of the loop body of generateNewImages.\<close>

lemma new_variation_step:
  assumes shown: "title_shown v"
      and p: "new_prompt userPrompt v = Inr p"
      and r: "retryNewImageGeneration e p aspectRatio s = (r, s1)"
  shows "\<exists>iv. new_variation e userPrompt aspectRatio v s = (Inr iv, tick s1)
           \<and> js_get v ''title'' = Inr (title iv)
           \<and> js_get v ''description'' = Inr (description iv)
           \<and> (\<forall>err. r = Inl err \<longrightarrow>
                  isError iv = Some True \<and> errorMessage iv = Some (message_of err)
                  \<and> imageUrl iv = []
                  \<and> retryPayload iv = Some \<lparr>payload_images = None, payload_prompt = p,
                                             payload_aspectRatio = Some aspectRatio\<rparr>)
           \<and> (\<forall>b. r = Inr b \<longrightarrow>
                  isError iv = None \<and> errorMessage iv = None \<and> retryPayload iv = None
                  \<and> imageUrl iv = ''data:image/png;base64,'' @ opt_to_string b)"
proof -
  from title_shownE [OF shown] obtain t sh d where
    v: "js_get v ''title'' = Inr t" "to_string t = Inr sh" "js_get v ''description'' = Inr d"
    by blast
  show ?thesis
  proof (cases r)
    case (Inl err)
    then show ?thesis using p r v
      by (simp add: new_variation_def new_try_def new_catch_def diagnostic_def fresh_id_def
            new_Date_def tick_def)
  next
    case (Inr b)
    then show ?thesis using p r v
      by (simp add: new_variation_def new_try_def new_catch_def diagnostic_def fresh_id_def
            new_Date_def tick_def)
  qed
qed

lemma new_images_loop_append:
  "new_images_loop e userPrompt aspectRatio pre s = (evs1, None, s1) \<Longrightarrow>
   new_images_loop e userPrompt aspectRatio (pre @ post) s =
     (case new_images_loop e userPrompt aspectRatio post s1 of
        (evs2, r, s2) \<Rightarrow> (evs1 @ evs2, r, s2))"
proof (induction pre arbitrary: s evs1)
  case Nil
  then show ?case by (auto split: prod.splits)
next
  case (Cons v pre)
  then show ?case
    by (auto split: prod.splits sum.splits option.splits)
qed

lemma new_images_loop_shown:
  "\<forall>x\<in>set vs. title_shown x \<Longrightarrow>
   \<exists>evs s'. new_images_loop e userPrompt aspectRatio vs s = (evs, None, s')
            \<and> length evs = length vs \<and> (\<forall>ev\<in>set evs. is_variation ev)"
proof (induction vs arbitrary: s)
  case Nil
  then show ?case by simp
next
  case (Cons v vs)
  then have obj: "title_shown v" by simp
  from new_prompt_shown [OF obj] obtain p where p: "new_prompt userPrompt v = Inr p" by blast
  obtain r s1 where r: "retryNewImageGeneration e p aspectRatio s = (r, s1)" by (cases "retryNewImageGeneration e p aspectRatio s")
  from new_variation_step [OF obj p r] obtain iv where
    iv: "new_variation e userPrompt aspectRatio v s = (Inr iv, tick s1)" by blast
  from Cons.prems have "\<forall>x\<in>set vs. title_shown x" by simp
  from Cons.IH [OF this, of "tick s1"] obtain evs s' where
    rest: "new_images_loop e userPrompt aspectRatio vs (tick s1) = (evs, None, s')"
      "length evs = length vs" "\<forall>ev\<in>set evs. is_variation ev" by blast
  show ?case using iv rest by (simp add: is_variation_def)
qed

lemma fallback_not_blank: "trim (a @ '', in the style of: '' @ b) \<noteq> []"
proof -
  have "CHR '','' \<in> set (a @ '', in the style of: '' @ b)" by simp
  moreover have "\<not> is_space CHR '',''" by (simp add: is_space_def)
  ultimately show ?thesis unfolding trim_blank by blast
qed

lemma variation_specE:
  "variation_spec v \<Longrightarrow>
   \<exists>t shown d m. js_get v ''title'' = Inr t \<and> to_string t = Inr shown
     \<and> js_get v ''description'' = Inr d \<and> js_get v ''modifiedPrompt'' = Inr m
     \<and> text_or_falsy m"
  by (auto simp: variation_spec_def dest!: title_shownE split: sum.splits)

lemma edit_prompt_fallback:
  assumes "js_get v ''modifiedPrompt'' = Inr m" and "\<not> truthy m"
      and "js_get v ''title'' = Inr t" and "to_string t = Inr shown"
  shows "edit_prompt userPrompt v = Inr (JStr (userPrompt @ '', in the style of: '' @ shown))"
  using assms by (simp add: edit_prompt_def trim_Nil)

lemma edit_prompt_spec:
  assumes "variation_spec v"
  shows "\<exists>p. edit_prompt userPrompt v = Inr p \<and> \<not> invalid_prompt p"
proof -
  from variation_specE [OF assms] obtain t shown m where
    v: "js_get v ''title'' = Inr t" "to_string t = Inr shown"
       "js_get v ''modifiedPrompt'' = Inr m" "text_or_falsy m"
    by blast
  let ?fb = "JStr (userPrompt @ '', in the style of: '' @ shown)"
  have fb: "\<not> invalid_prompt ?fb"
    using fallback_not_blank by (simp add: invalid_prompt_def)
  show ?thesis
  proof (cases "truthy m")
    case False
    from edit_prompt_fallback [OF v(3) False v(1,2)] fb show ?thesis by simp
  next
    case True
    with v(4) obtain body where m: "m = JStr body" "body \<noteq> []"
      by (cases m) (auto simp: text_or_falsy_def)
    show ?thesis
    proof (cases "trim body = []")
      case True
      then show ?thesis using v m fb by (simp add: edit_prompt_def)
    next
      case False
      then show ?thesis using v m by (simp add: edit_prompt_def invalid_prompt_def)
    qed
  qed
qed

lemma editImageInternal_needs_images:
  "editImageInternal e images p s = (Inr b, s1) \<Longrightarrow> images \<noteq> []"
  by (auto simp: editImageInternal_def editImage_try_def split: if_splits prod.splits sum.splits thrown.splits)

lemma edit_variation_step:
  assumes spec: "variation_spec v"
      and p: "edit_prompt userPrompt v = Inr p"
      and r: "editImageInternal e images p s = (r, s1)"
  shows "\<exists>iv. edit_variation e images userPrompt v s = (Inr iv, tick s1)
           \<and> js_get v ''title'' = Inr (title iv)
           \<and> js_get v ''description'' = Inr (description iv)
           \<and> (\<forall>err. r = Inl err \<longrightarrow>
                  isError iv = Some True \<and> errorMessage iv = Some (message_of err)
                  \<and> imageUrl iv = []
                  \<and> retryPayload iv = Some \<lparr>payload_images = Some images, payload_prompt = p,
                                             payload_aspectRatio = None\<rparr>)
           \<and> (\<forall>b. r = Inr b \<longrightarrow>
                  isError iv = None \<and> errorMessage iv = None \<and> retryPayload iv = None
                  \<and> images \<noteq> []
                  \<and> imageUrl iv = ''data:'' @ mimeType (hd images) @ '';base64,'' @ b)"
proof -
  from variation_specE [OF spec] obtain t sh d where
    v: "js_get v ''title'' = Inr t" "to_string t = Inr sh" "js_get v ''description'' = Inr d"
    by blast
  show ?thesis
  proof (cases r)
    case (Inl err)
    then show ?thesis using p r v
      by (simp add: edit_variation_def edit_try_def edit_catch_def diagnostic_def fresh_id_def
            new_Date_def tick_def)
  next
    case (Inr b)
    with r have "images \<noteq> []" by (auto dest: editImageInternal_needs_images)
    then obtain img rest where "images = img # rest" by (cases images) auto
    then show ?thesis using Inr p r v
      by (simp add: edit_variation_def edit_try_def edit_catch_def diagnostic_def fresh_id_def
            new_Date_def tick_def)
  qed
qed

lemma image_edits_loop_append:
  "image_edits_loop e images userPrompt pre s = (evs1, None, s1) \<Longrightarrow>
   image_edits_loop e images userPrompt (pre @ post) s =
     (case image_edits_loop e images userPrompt post s1 of
        (evs2, r, s2) \<Rightarrow> (evs1 @ evs2, r, s2))"
proof (induction pre arbitrary: s evs1)
  case Nil
  then show ?case by (auto split: prod.splits)
next
  case (Cons v pre)
  then show ?case
    by (auto split: prod.splits sum.splits option.splits)
qed

lemma image_edits_loop_specs:
  "\<forall>x\<in>set vs. variation_spec x \<Longrightarrow>
   \<exists>evs s'. image_edits_loop e images userPrompt vs s = (evs, None, s')
            \<and> length evs = length vs \<and> (\<forall>ev\<in>set evs. is_variation ev)"
proof (induction vs arbitrary: s)
  case Nil
  then show ?case by simp
next
  case (Cons v vs)
  then have spec: "variation_spec v" by simp
  from edit_prompt_spec [OF spec] obtain p where p: "edit_prompt userPrompt v = Inr p" by blast
  obtain r s1 where r: "editImageInternal e images p s = (r, s1)"
    by (cases "editImageInternal e images p s")
  from edit_variation_step [OF spec p r] obtain iv where
    iv: "edit_variation e images userPrompt v s = (Inr iv, tick s1)" by blast
  from Cons.prems have "\<forall>x\<in>set vs. variation_spec x" by simp
  from Cons.IH [OF this, of "tick s1"] obtain evs s' where
    rest: "image_edits_loop e images userPrompt vs (tick s1) = (evs, None, s')"
      "length evs = length vs" "\<forall>ev\<in>set evs. is_variation ev" by blast
  show ?case using iv rest by (simp add: is_variation_def)
qed

text \<open>The loops around one variation: what comes before, the variation, what comes after.\<close>

lemma new_images_loop_split:
  assumes objs: "\<forall>x\<in>set (pre @ v # post). title_shown x"
  shows "\<exists>evs1 s1 p r s2 iv evs2 s3.
           new_images_loop e userPrompt aspectRatio pre s = (evs1, None, s1)
         \<and> length evs1 = length pre
         \<and> new_prompt userPrompt v = Inr p
         \<and> retryNewImageGeneration e p aspectRatio s1 = (r, s2)
         \<and> new_images_loop e userPrompt aspectRatio post (tick s2) = (evs2, None, s3)
         \<and> length evs2 = length post
         \<and> (\<forall>ev\<in>set (evs1 @ evs2). is_variation ev)
         \<and> new_images_loop e userPrompt aspectRatio (pre @ v # post) s
             = (evs1 @ Variation iv # evs2, None, s3)
         \<and> js_get v ''title'' = Inr (title iv)
         \<and> js_get v ''description'' = Inr (description iv)
         \<and> (\<forall>err. r = Inl err \<longrightarrow>
                isError iv = Some True \<and> errorMessage iv = Some (message_of err)
                \<and> retryPayload iv = Some \<lparr>payload_images = None, payload_prompt = p,
                                           payload_aspectRatio = Some aspectRatio\<rparr>)
         \<and> (\<forall>b. r = Inr b \<longrightarrow>
                isError iv = None
                \<and> imageUrl iv = ''data:image/png;base64,'' @ opt_to_string b)"
proof -
  from objs have o1: "\<forall>x\<in>set pre. title_shown x" and o2: "title_shown v"
    and o3: "\<forall>x\<in>set post. title_shown x" by auto
  from new_images_loop_shown [OF o1, of e userPrompt aspectRatio s] obtain evs1 s1 where
    l1: "new_images_loop e userPrompt aspectRatio pre s = (evs1, None, s1)"
      "length evs1 = length pre" "\<forall>ev\<in>set evs1. is_variation ev" by blast
  from new_prompt_shown [OF o2] obtain p where p: "new_prompt userPrompt v = Inr p" by blast
  obtain r s2 where r: "retryNewImageGeneration e p aspectRatio s1 = (r, s2)"
    by (cases "retryNewImageGeneration e p aspectRatio s1")
  from new_variation_step [OF o2 p r] obtain iv where
    iv: "new_variation e userPrompt aspectRatio v s1 = (Inr iv, tick s2)"
      "js_get v ''title'' = Inr (title iv)" "js_get v ''description'' = Inr (description iv)"
      "\<forall>err. r = Inl err \<longrightarrow>
         isError iv = Some True \<and> errorMessage iv = Some (message_of err)
         \<and> retryPayload iv = Some \<lparr>payload_images = None, payload_prompt = p,
                                    payload_aspectRatio = Some aspectRatio\<rparr>"
      "\<forall>b. r = Inr b \<longrightarrow>
         isError iv = None \<and> imageUrl iv = ''data:image/png;base64,'' @ opt_to_string b"
    by blast
  from new_images_loop_shown [OF o3, of e userPrompt aspectRatio "tick s2"] obtain evs2 s3 where
    l2: "new_images_loop e userPrompt aspectRatio post (tick s2) = (evs2, None, s3)"
      "length evs2 = length post" "\<forall>ev\<in>set evs2. is_variation ev" by blast
  have "new_images_loop e userPrompt aspectRatio (v # post) s1 = (Variation iv # evs2, None, s3)"
    using iv(1) l2(1) by simp
  with new_images_loop_append [OF l1(1), of "v # post"]
  have whole: "new_images_loop e userPrompt aspectRatio (pre @ v # post) s
      = (evs1 @ Variation iv # evs2, None, s3)" by simp
  have vars: "\<forall>ev\<in>set (evs1 @ evs2). is_variation ev" using l1(3) l2(3) by auto
  show ?thesis
    using l1(1,2) p r l2(1,2) vars whole iv(2-5) by blast
qed

lemma image_edits_loop_split:
  assumes specs: "\<forall>x\<in>set (pre @ v # post). variation_spec x"
  shows "\<exists>evs1 s1 p r s2 iv evs2 s3.
           image_edits_loop e images userPrompt pre s = (evs1, None, s1)
         \<and> length evs1 = length pre
         \<and> edit_prompt userPrompt v = Inr p
         \<and> editImageInternal e images p s1 = (r, s2)
         \<and> image_edits_loop e images userPrompt post (tick s2) = (evs2, None, s3)
         \<and> length evs2 = length post
         \<and> (\<forall>ev\<in>set (evs1 @ evs2). is_variation ev)
         \<and> image_edits_loop e images userPrompt (pre @ v # post) s
             = (evs1 @ Variation iv # evs2, None, s3)
         \<and> js_get v ''title'' = Inr (title iv)
         \<and> js_get v ''description'' = Inr (description iv)
         \<and> (\<forall>err. r = Inl err \<longrightarrow>
                isError iv = Some True \<and> errorMessage iv = Some (message_of err)
                \<and> retryPayload iv = Some \<lparr>payload_images = Some images, payload_prompt = p,
                                           payload_aspectRatio = None\<rparr>)
         \<and> (\<forall>b. r = Inr b \<longrightarrow>
                isError iv = None
                \<and> imageUrl iv = ''data:'' @ mimeType (hd images) @ '';base64,'' @ b)"
proof -
  from specs have o1: "\<forall>x\<in>set pre. variation_spec x" and o2: "variation_spec v"
    and o3: "\<forall>x\<in>set post. variation_spec x" by auto
  from image_edits_loop_specs [OF o1, of e images userPrompt s] obtain evs1 s1 where
    l1: "image_edits_loop e images userPrompt pre s = (evs1, None, s1)"
      "length evs1 = length pre" "\<forall>ev\<in>set evs1. is_variation ev" by blast
  from edit_prompt_spec [OF o2] obtain p where p: "edit_prompt userPrompt v = Inr p" by blast
  obtain r s2 where r: "editImageInternal e images p s1 = (r, s2)"
    by (cases "editImageInternal e images p s1")
  from edit_variation_step [OF o2 p r] obtain iv where
    iv: "edit_variation e images userPrompt v s1 = (Inr iv, tick s2)"
      "js_get v ''title'' = Inr (title iv)" "js_get v ''description'' = Inr (description iv)"
      "\<forall>err. r = Inl err \<longrightarrow>
         isError iv = Some True \<and> errorMessage iv = Some (message_of err)
         \<and> retryPayload iv = Some \<lparr>payload_images = Some images, payload_prompt = p,
                                    payload_aspectRatio = None\<rparr>"
      "\<forall>b. r = Inr b \<longrightarrow>
         isError iv = None \<and> imageUrl iv = ''data:'' @ mimeType (hd images) @ '';base64,'' @ b"
    by blast
  from image_edits_loop_specs [OF o3, of e images userPrompt "tick s2"] obtain evs2 s3 where
    l2: "image_edits_loop e images userPrompt post (tick s2) = (evs2, None, s3)"
      "length evs2 = length post" "\<forall>ev\<in>set evs2. is_variation ev" by blast
  have "image_edits_loop e images userPrompt (v # post) s1 = (Variation iv # evs2, None, s3)"
    using iv(1) l2(1) by simp
  with image_edits_loop_append [OF l1(1), of "v # post"]
  have whole: "image_edits_loop e images userPrompt (pre @ v # post) s
      = (evs1 @ Variation iv # evs2, None, s3)" by simp
  have vars: "\<forall>ev\<in>set (evs1 @ evs2). is_variation ev" using l1(3) l2(3) by auto
  show ?thesis
    using l1(1,2) p r l2(1,2) vars whole iv(2-5) by blast
qed

text \<open>The generators, once the plan has passed validation.\<close>

lemma generateNewImages_planned:
  assumes "getAiClient e s0 = (Inr (), s1)"
      and "generateContent e (new_plan_request userPrompt (getCurrentLanguage e) aspectRatio) s1
             = (Inr response, s2)"
      and "parsed_json e response = Inr plan"
      and "planned_variations plan = Inr vs"
      and "new_images_loop e userPrompt aspectRatio vs s2 = (evs, out, s3)"
  shows "generateNewImages e userPrompt useWebSearch aspectRatio s0
           = ([Plan plan JUndefined, Progress ''Generating your new images...''] @ evs, out, s3)"
  using assms by (simp add: generateNewImages_def)

lemma generateImageEdits_planned:
  assumes "getAiClient e s0 = (Inr (), s1)"
      and "generateContent e
             (edit_plan_request images userPrompt useWebSearch (getCurrentLanguage e) aspectRatio) s1
             = (Inr response, s2)"
      and "parsed_json e response = Inr plan"
      and "planned_variations plan = Inr vs"
      and "image_edits_loop e images userPrompt vs s2 = (evs, out, s3)"
  shows "generateImageEdits e images userPrompt useWebSearch aspectRatio s0
           = (search_notices useWebSearch
              @ [Plan plan (grounding response),
                 Progress ''Remixing your image with new ideas...'']
              @ evs, out, s3)"
  using assms by (simp add: generateImageEdits_def)




text \<open>The sample environment, step by step.\<close>

lemma sample_client:
  "getAiClient sample_env sample_state = (Inr (), sample_state\<lparr>ai := Some ''key''\<rparr>)"
  by (simp add: getAiClient_def sample_env_def sample_state_def present_def)

lemma sample_new_plan_call:
  "generateContent sample_env (new_plan_request userPrompt lang aspectRatio) s
     = (Inr (text_response sample_plan_json),
        s\<lparr>calls := calls s @ [GenerateContent (new_plan_request userPrompt lang aspectRatio)]\<rparr>)"
  by (simp add: generateContent_def sample_env_def sample_content_def new_plan_request_def)

lemma sample_edit_plan_call:
  "generateContent sample_env (edit_plan_request images userPrompt useWebSearch lang aspectRatio) s
     = (Inr (text_response sample_plan_json),
        s\<lparr>calls := calls s
              @ [GenerateContent (edit_plan_request images userPrompt useWebSearch lang aspectRatio)]\<rparr>)"
  by (simp add: generateContent_def sample_env_def sample_content_def edit_plan_request_def Let_def)

lemma sample_plan_extract: "extractJson sample_plan_json = Inr sample_plan_json"
  by code_simp

lemma sample_plan_parsed: "parsed_json sample_env (text_response sample_plan_json) = Inr sample_plan"
  by (simp add: parsed_json_def text_response_def sample_plan_extract sample_env_def sample_parse_def)

lemma sample_planned: "planned_variations sample_plan = Inr sample_variations"
  by (simp add: planned_variations_def sample_plan_def sample_variations_def)

lemma sample_render_new:
  "fst (retryNewImageGeneration sample_env (JStr ''bike at noon'') aspectRatio s)
     = Inl (JsError ''quota exceeded'')"
  by (simp add: retryNewImageGeneration_def getAiClient_def generateImages_def sample_env_def
        sample_images_endpoint_def images_request_for_def present_def)

lemma sample_render_edit:
  "fst (editImageInternal sample_env sample_images (JStr ''bike at noon'') s)
     = Inl (JsError ''quota exceeded'')"
  by (simp add: editImageInternal_def editImage_try_def getAiClient_def generateContent_def
        sample_env_def sample_content_def edit_request_def prompt_text_def sample_images_def
        present_def invalid_prompt_def trim_def is_space_def)







text \<open>
  An error variation comes out of the \<^verbatim>\<open>catch\<close> block only, and only after the
  render call threw: had the prompt failed in the \<^verbatim>\<open>try\<close> block, it would fail
  again in the \<^verbatim>\<open>catch\<close> block.
\<close>

lemma new_variation_error:
  assumes "new_variation e userPrompt aspectRatio v s = (Inr x, s1)"
      and "isError x = Some True"
  shows "\<exists>p err sr. new_prompt userPrompt v = Inr p
       \<and> retryNewImageGeneration e p aspectRatio s = (Inl err, sr)
       \<and> js_get v ''title'' = Inr (title x)
       \<and> errorMessage x = Some (message_of err)
       \<and> retryPayload x = Some \<lparr>payload_images = None, payload_prompt = p,
                                 payload_aspectRatio = Some aspectRatio\<rparr>"
  using assms
  by (auto simp: new_variation_def new_try_def new_catch_def diagnostic_def fresh_id_def
        new_Date_def split: sum.splits prod.splits)

lemma edit_variation_error:
  assumes "edit_variation e images userPrompt v s = (Inr x, s1)"
      and "isError x = Some True"
  shows "\<exists>p err sr. edit_prompt userPrompt v = Inr p
       \<and> editImageInternal e images p s = (Inl err, sr)
       \<and> js_get v ''title'' = Inr (title x)
       \<and> errorMessage x = Some (message_of err)
       \<and> retryPayload x = Some \<lparr>payload_images = Some images, payload_prompt = p,
                                 payload_aspectRatio = None\<rparr>"
  using assms
  by (auto simp: edit_variation_def edit_try_def edit_catch_def diagnostic_def fresh_id_def
        new_Date_def dest: editImageInternal_needs_images
        split: sum.splits prod.splits list.splits)

text \<open>
  The \<open>i\<close>-th event of a loop is the variation built for the \<open>i\<close>-th planned
  variation, in the state the loop over the first \<open>i\<close> of them ended in.
\<close>

lemma new_images_loop_nth:
  "new_images_loop e userPrompt aspectRatio vs s = (evs, out, s') \<Longrightarrow> i < length evs \<Longrightarrow>
   \<exists>iv sr sr'. i < length vs \<and> evs ! i = Variation iv
     \<and> new_images_loop e userPrompt aspectRatio (take i vs) s = (take i evs, None, sr)
     \<and> new_variation e userPrompt aspectRatio (vs ! i) sr = (Inr iv, sr')"
proof (induction vs arbitrary: s evs i)
  case Nil
  then show ?case by simp
next
  case (Cons v vs)
  obtain r s1 where step: "new_variation e userPrompt aspectRatio v s = (r, s1)"
    by (cases "new_variation e userPrompt aspectRatio v s")
  show ?case
  proof (cases r)
    case (Inl err)
    with step Cons.prems show ?thesis by simp
  next
    case (Inr x)
    obtain evs' out' s2 where "new_images_loop e userPrompt aspectRatio vs s1 = (evs', out', s2)"
      by (cases "new_images_loop e userPrompt aspectRatio vs s1")
    with step Inr Cons.prems(1) have evs: "evs = Variation x # evs'"
      and rest: "new_images_loop e userPrompt aspectRatio vs s1 = (evs', out, s')"
      by simp_all
    show ?thesis
    proof (cases i)
      case 0
      then show ?thesis using step Inr evs by simp
    next
      case (Suc j)
      with Cons.prems(2) evs have "j < length evs'" by simp
      from Cons.IH [OF rest this] obtain iv sr sr' where
        "j < length vs" "evs' ! j = Variation iv"
        "new_images_loop e userPrompt aspectRatio (take j vs) s1 = (take j evs', None, sr)"
        "new_variation e userPrompt aspectRatio (vs ! j) sr = (Inr iv, sr')"
        by blast
      then show ?thesis using step Inr evs Suc by simp
    qed
  qed
qed

lemma image_edits_loop_nth:
  "image_edits_loop e images userPrompt vs s = (evs, out, s') \<Longrightarrow> i < length evs \<Longrightarrow>
   \<exists>iv sr sr'. i < length vs \<and> evs ! i = Variation iv
     \<and> image_edits_loop e images userPrompt (take i vs) s = (take i evs, None, sr)
     \<and> edit_variation e images userPrompt (vs ! i) sr = (Inr iv, sr')"
proof (induction vs arbitrary: s evs i)
  case Nil
  then show ?case by simp
next
  case (Cons v vs)
  obtain r s1 where step: "edit_variation e images userPrompt v s = (r, s1)"
    by (cases "edit_variation e images userPrompt v s")
  show ?case
  proof (cases r)
    case (Inl err)
    with step Cons.prems show ?thesis by simp
  next
    case (Inr x)
    obtain evs' out' s2 where "image_edits_loop e images userPrompt vs s1 = (evs', out', s2)"
      by (cases "image_edits_loop e images userPrompt vs s1")
    with step Inr Cons.prems(1) have evs: "evs = Variation x # evs'"
      and rest: "image_edits_loop e images userPrompt vs s1 = (evs', out, s')"
      by simp_all
    show ?thesis
    proof (cases i)
      case 0
      then show ?thesis using step Inr evs by simp
    next
      case (Suc j)
      with Cons.prems(2) evs have "j < length evs'" by simp
      from Cons.IH [OF rest this] obtain iv sr sr' where
        "j < length vs" "evs' ! j = Variation iv"
        "image_edits_loop e images userPrompt (take j vs) s1 = (take j evs', None, sr)"
        "edit_variation e images userPrompt (vs ! j) sr = (Inr iv, sr')"
        by blast
      then show ?thesis using step Inr evs Suc by simp
    qed
  qed
qed

lemma variations_of_map: "variations_of (map Variation ivs) = ivs"
  by (induction ivs) simp_all

lemma variations_of_append: "variations_of (xs @ ys) = variations_of xs @ variations_of ys"
  by (induction xs rule: variations_of.induct) simp_all

lemma new_images_loop_variations:
  "new_images_loop e userPrompt aspectRatio vs s = (evs, out, s') \<Longrightarrow>
   evs = map Variation (variations_of evs)"
proof (induction vs arbitrary: s evs)
  case Nil
  then show ?case by simp
next
  case (Cons v vs)
  then show ?case
    by (auto split: prod.splits sum.splits)
qed

lemma image_edits_loop_variations:
  "image_edits_loop e images userPrompt vs s = (evs, out, s') \<Longrightarrow>
   evs = map Variation (variations_of evs)"
proof (induction vs arbitrary: s evs)
  case Nil
  then show ?case by simp
next
  case (Cons v vs)
  then show ?case
    by (auto split: prod.splits sum.splits)
qed

text \<open>A run that yielded a variation got there through a validated plan.\<close>

lemma generateNewImages_variation:
  assumes "generateNewImages e userPrompt useWebSearch aspectRatio s = (evs, out, s')"
      and "variations_of evs \<noteq> []"
  shows "\<exists>sc response sp plan vs.
           getAiClient e s = (Inr (), sc)
         \<and> generateContent e (new_plan_request userPrompt (getCurrentLanguage e) aspectRatio) sc
             = (Inr response, sp)
         \<and> parsed_json e response = Inr plan
         \<and> planned_variations plan = Inr vs
         \<and> new_images_loop e userPrompt aspectRatio vs sp
             = (map Variation (variations_of evs), out, s')
         \<and> evs = [Plan plan JUndefined, Progress ''Generating your new images...'']
                 @ map Variation (variations_of evs)"
proof -
  obtain r1 sc where c: "getAiClient e s = (r1, sc)" by (cases "getAiClient e s")
  obtain r2 sp where g: "generateContent e
      (new_plan_request userPrompt (getCurrentLanguage e) aspectRatio) sc = (r2, sp)"
    by (cases "generateContent e
      (new_plan_request userPrompt (getCurrentLanguage e) aspectRatio) sc")
  from assms c have r1: "r1 = Inr ()"
    by (cases r1) (auto simp: generateNewImages_def)
  from assms c g r1 obtain response where r2: "r2 = Inr response"
    by (cases r2) (auto simp: generateNewImages_def)
  from assms c g r1 r2 obtain plan where pl: "parsed_json e response = Inr plan"
    by (cases "parsed_json e response") (auto simp: generateNewImages_def)
  from assms c g r1 r2 pl obtain vs where vs: "planned_variations plan = Inr vs"
    by (cases "planned_variations plan") (auto simp: generateNewImages_def)
  obtain levs lout ls where loop:
    "new_images_loop e userPrompt aspectRatio vs sp = (levs, lout, ls)"
    by (cases "new_images_loop e userPrompt aspectRatio vs sp")
  from assms(1) c g r1 r2 pl vs loop
  have run: "evs = [Plan plan JUndefined, Progress ''Generating your new images...''] @ levs"
    and out: "lout = out" "ls = s'"
    by (simp_all add: generateNewImages_def)
  define ivs where "ivs = variations_of levs"
  have levs: "levs = map Variation ivs"
    unfolding ivs_def by (rule new_images_loop_variations [OF loop])
  have ivs: "variations_of evs = ivs"
    unfolding run levs by (simp add: variations_of_map)
  have a: "new_images_loop e userPrompt aspectRatio vs sp
      = (map Variation (variations_of evs), out, s')"
    using loop unfolding ivs levs out .
  have b: "evs = [Plan plan JUndefined, Progress ''Generating your new images...'']
      @ map Variation (variations_of evs)"
    unfolding ivs using run unfolding levs .
  from c [unfolded r1] g [unfolded r2] pl vs a b show ?thesis by blast
qed

lemma generateImageEdits_variation:
  assumes "generateImageEdits e images userPrompt useWebSearch aspectRatio s = (evs, out, s')"
      and "variations_of evs \<noteq> []"
  shows "\<exists>sc response sp plan vs.
           getAiClient e s = (Inr (), sc)
         \<and> generateContent e
             (edit_plan_request images userPrompt useWebSearch (getCurrentLanguage e) aspectRatio)
             sc = (Inr response, sp)
         \<and> parsed_json e response = Inr plan
         \<and> planned_variations plan = Inr vs
         \<and> image_edits_loop e images userPrompt vs sp
             = (map Variation (variations_of evs), out, s')
         \<and> evs = search_notices useWebSearch
                 @ [Plan plan (grounding response),
                    Progress ''Remixing your image with new ideas...'']
                 @ map Variation (variations_of evs)"
proof -
  have notices: "variations_of (search_notices useWebSearch) = []"
    by (simp add: search_notices_def)
  obtain r1 sc where c: "getAiClient e s = (r1, sc)" by (cases "getAiClient e s")
  obtain r2 sp where g: "generateContent e
      (edit_plan_request images userPrompt useWebSearch (getCurrentLanguage e) aspectRatio) sc
        = (r2, sp)"
    by (cases "generateContent e
      (edit_plan_request images userPrompt useWebSearch (getCurrentLanguage e) aspectRatio) sc")
  from assms c have r1: "r1 = Inr ()"
    by (cases r1) (auto simp: generateImageEdits_def)
  from assms c g r1 notices obtain response where r2: "r2 = Inr response"
    by (cases r2) (auto simp: generateImageEdits_def)
  from assms c g r1 r2 notices obtain plan where pl: "parsed_json e response = Inr plan"
    by (cases "parsed_json e response") (auto simp: generateImageEdits_def)
  from assms c g r1 r2 pl notices obtain vs where vs: "planned_variations plan = Inr vs"
    by (cases "planned_variations plan") (auto simp: generateImageEdits_def)
  obtain levs lout ls where loop:
    "image_edits_loop e images userPrompt vs sp = (levs, lout, ls)"
    by (cases "image_edits_loop e images userPrompt vs sp")
  from assms(1) c g r1 r2 pl vs loop
  have run: "evs = search_notices useWebSearch
                 @ [Plan plan (grounding response),
                    Progress ''Remixing your image with new ideas...'']
                 @ levs"
    and out: "lout = out" "ls = s'"
    by (simp_all add: generateImageEdits_def)
  define ivs where "ivs = variations_of levs"
  have levs: "levs = map Variation ivs"
    unfolding ivs_def by (rule image_edits_loop_variations [OF loop])
  have ivs: "variations_of evs = ivs"
    unfolding run levs by (simp add: variations_of_map variations_of_append notices)
  have a: "image_edits_loop e images userPrompt vs sp
      = (map Variation (variations_of evs), out, s')"
    using loop unfolding ivs levs out .
  have b: "evs = search_notices useWebSearch
      @ [Plan plan (grounding response), Progress ''Remixing your image with new ideas...'']
      @ map Variation (variations_of evs)"
    unfolding ivs using run unfolding levs .
  from c [unfolded r1] g [unfolded r2] pl vs a b show ?thesis by blast
qed

text \<open>The sample runs, written out.\<close>

lemma sample_digits:
  "digits 1700000000000 = ''1700000000000''"
  "digits 1700000000002 = ''1700000000002''"
  "digits 1700000000004 = ''1700000000004''"
  by (simp_all add: digits.simps)

lemma sample_new_run:
  "generateNewImages sample_env ''a red bicycle on a beach'' False ''16:9'' sample_state
     = ([Plan sample_plan JUndefined,
         Progress ''Generating your new images...'',
         Variation \<lparr>variation_id = ''17000000000000.5'', title = JStr ''Dawn'',
                     description = JStr ''Soft light'',
                     imageUrl = ''data:image/png;base64,QUJD'', createdAt = 1700000000001,
                     isError = None, errorMessage = None, retryPayload = None\<rparr>,
         Variation \<lparr>variation_id = ''17000000000020.5'', title = JStr ''Noon'',
                     description = JStr ''Hard light'', imageUrl = [],
                     createdAt = 1700000000003, isError = Some True,
                     errorMessage = Some ''quota exceeded'',
                     retryPayload = Some \<lparr>payload_images = None,
                                           payload_prompt = JStr ''bike at noon'',
                                           payload_aspectRatio = Some ''16:9''\<rparr>\<rparr>,
         Variation \<lparr>variation_id = ''17000000000040.5'', title = JStr ''Dusk'',
                     description = JStr ''Low light'',
                     imageUrl = ''data:image/png;base64,QUJD'', createdAt = 1700000000005,
                     isError = None, errorMessage = None, retryPayload = None\<rparr>],
        None,
        \<lparr>ai = Some ''key'',
         calls = [GenerateContent (new_plan_request ''a red bicycle on a beach'' ''en'' ''16:9''),
                  GenerateImages (images_request_for (JStr ''bike at dawn'') ''16:9''),
                  GenerateImages (images_request_for (JStr ''bike at noon'') ''16:9''),
                  GenerateImages (images_request_for (JStr ''a red bicycle on a beach'') ''16:9'')],
         clock_reads = 6, random_reads = 3\<rparr>)"
proof -
  let ?sc = "sample_state\<lparr>ai := Some ''key''\<rparr>"
  let ?sp = "?sc\<lparr>calls := calls ?sc
               @ [GenerateContent (new_plan_request ''a red bicycle on a beach''
                                     (getCurrentLanguage sample_env) ''16:9'')]\<rparr>"
  have loop: "new_images_loop sample_env ''a red bicycle on a beach'' ''16:9'' sample_variations ?sp
     = ([Variation \<lparr>variation_id = ''17000000000000.5'', title = JStr ''Dawn'',
                     description = JStr ''Soft light'',
                     imageUrl = ''data:image/png;base64,QUJD'', createdAt = 1700000000001,
                     isError = None, errorMessage = None, retryPayload = None\<rparr>,
         Variation \<lparr>variation_id = ''17000000000020.5'', title = JStr ''Noon'',
                     description = JStr ''Hard light'', imageUrl = [],
                     createdAt = 1700000000003, isError = Some True,
                     errorMessage = Some ''quota exceeded'',
                     retryPayload = Some \<lparr>payload_images = None,
                                           payload_prompt = JStr ''bike at noon'',
                                           payload_aspectRatio = Some ''16:9''\<rparr>\<rparr>,
         Variation \<lparr>variation_id = ''17000000000040.5'', title = JStr ''Dusk'',
                     description = JStr ''Low light'',
                     imageUrl = ''data:image/png;base64,QUJD'', createdAt = 1700000000005,
                     isError = None, errorMessage = None, retryPayload = None\<rparr>],
        None,
        \<lparr>ai = Some ''key'',
         calls = [GenerateContent (new_plan_request ''a red bicycle on a beach'' ''en'' ''16:9''),
                  GenerateImages (images_request_for (JStr ''bike at dawn'') ''16:9''),
                  GenerateImages (images_request_for (JStr ''bike at noon'') ''16:9''),
                  GenerateImages (images_request_for (JStr ''a red bicycle on a beach'') ''16:9'')],
         clock_reads = 6, random_reads = 3\<rparr>)"
    by (simp add: sample_variations_def new_variation_def new_try_def new_catch_def
          diagnostic_def new_prompt_def retryNewImageGeneration_def getAiClient_def generateImages_def
          generated_bytes_def fresh_id_def new_Date_def message_of_def opt_to_string_def
          sample_env_def sample_state_def sample_images_endpoint_def images_request_for_def
          sample_digits)
  from generateNewImages_planned
    [OF sample_client sample_new_plan_call sample_plan_parsed sample_planned loop]
  show ?thesis by simp
qed

lemma sample_edit_run:
  "generateImageEdits sample_env sample_images ''make it red'' True ''16:9'' sample_state
     = ([Progress ''Searching the web for inspiration...'',
         Progress ''Analyzing results to craft prompts...'',
         Plan sample_plan JUndefined,
         Progress ''Remixing your image with new ideas...'',
         Variation \<lparr>variation_id = ''17000000000000.5'', title = JStr ''Dawn'',
                     description = JStr ''Soft light'',
                     imageUrl = ''data:image/jpeg;base64,QUJD'', createdAt = 1700000000001,
                     isError = None, errorMessage = None, retryPayload = None\<rparr>,
         Variation \<lparr>variation_id = ''17000000000020.5'', title = JStr ''Noon'',
                     description = JStr ''Hard light'', imageUrl = [],
                     createdAt = 1700000000003, isError = Some True,
                     errorMessage = Some ''quota exceeded'',
                     retryPayload = Some \<lparr>payload_images = Some sample_images,
                                           payload_prompt = JStr ''bike at noon'',
                                           payload_aspectRatio = None\<rparr>\<rparr>,
         Variation \<lparr>variation_id = ''17000000000040.5'', title = JStr ''Dusk'',
                     description = JStr ''Low light'',
                     imageUrl = ''data:image/jpeg;base64,QUJD'', createdAt = 1700000000005,
                     isError = None, errorMessage = None, retryPayload = None\<rparr>],
        None,
        \<lparr>ai = Some ''key'',
         calls = [GenerateContent (edit_plan_request sample_images ''make it red'' True ''en'' ''16:9''),
                  GenerateContent (edit_request sample_images (JStr ''bike at dawn'')),
                  GenerateContent (edit_request sample_images (JStr ''bike at noon'')),
                  GenerateContent
                    (edit_request sample_images (JStr ''make it red, in the style of: Dusk''))],
         clock_reads = 6, random_reads = 3\<rparr>)"
proof -
  let ?sc = "sample_state\<lparr>ai := Some ''key''\<rparr>"
  let ?sp = "?sc\<lparr>calls := calls ?sc
               @ [GenerateContent (edit_plan_request sample_images ''make it red'' True
                                     (getCurrentLanguage sample_env) ''16:9'')]\<rparr>"
  have loop: "image_edits_loop sample_env sample_images ''make it red'' sample_variations ?sp
     = ([Variation \<lparr>variation_id = ''17000000000000.5'', title = JStr ''Dawn'',
                     description = JStr ''Soft light'',
                     imageUrl = ''data:image/jpeg;base64,QUJD'', createdAt = 1700000000001,
                     isError = None, errorMessage = None, retryPayload = None\<rparr>,
         Variation \<lparr>variation_id = ''17000000000020.5'', title = JStr ''Noon'',
                     description = JStr ''Hard light'', imageUrl = [],
                     createdAt = 1700000000003, isError = Some True,
                     errorMessage = Some ''quota exceeded'',
                     retryPayload = Some \<lparr>payload_images = Some sample_images,
                                           payload_prompt = JStr ''bike at noon'',
                                           payload_aspectRatio = None\<rparr>\<rparr>,
         Variation \<lparr>variation_id = ''17000000000040.5'', title = JStr ''Dusk'',
                     description = JStr ''Low light'',
                     imageUrl = ''data:image/jpeg;base64,QUJD'', createdAt = 1700000000005,
                     isError = None, errorMessage = None, retryPayload = None\<rparr>],
        None,
        \<lparr>ai = Some ''key'',
         calls = [GenerateContent (edit_plan_request sample_images ''make it red'' True ''en'' ''16:9''),
                  GenerateContent (edit_request sample_images (JStr ''bike at dawn'')),
                  GenerateContent (edit_request sample_images (JStr ''bike at noon'')),
                  GenerateContent
                    (edit_request sample_images (JStr ''make it red, in the style of: Dusk''))],
         clock_reads = 6, random_reads = 3\<rparr>)"
    by (simp add: sample_variations_def edit_variation_def edit_try_def edit_catch_def
          diagnostic_def prompt_text_def edit_prompt_def editImageInternal_def editImage_try_def invalid_prompt_def
          getAiClient_def generateContent_def edited_image_def returned_image_def
          fresh_id_def new_Date_def message_of_def opt_to_string_def present_def
          sample_env_def sample_state_def sample_content_def edit_request_def
          image_response_def sample_images_def trim_def is_space_def sample_digits)
  have gm: "grounding (text_response sample_plan_json) = JUndefined"
    by (simp add: grounding_def text_response_def)
  from generateImageEdits_planned
    [OF sample_client sample_edit_plan_call sample_plan_parsed sample_planned loop]
  show ?thesis by (simp add: gm search_notices_def)
qed



text \<open>
  Claim C6, as amended. When the regular expression finds no fenced block, or an
  empty one, extractJson throws exactly when the text has no opening bracket or
  brace or its last closing bracket or brace lies before the first opening one;
  the error message then contains the text. In every other such case it returns
  the text from the first opening to the last closing bracket or brace.
\<close>

theorem extractJson_bracket_failure:
  assumes "markdownMatch t = None \<or> markdownMatch t = Some []"
  shows "((CHR ''['' \<notin> set t \<and> CHR ''{'' \<notin> set t) \<or> bracket_end t < bracket_start t
            \<longrightarrow> extractJson t = Inl (JsError (not_found_message t))
                \<and> sublist t (not_found_message t))
       \<and> (\<not> ((CHR ''['' \<notin> set t \<and> CHR ''{'' \<notin> set t) \<or> bracket_end t < bracket_start t)
            \<longrightarrow> extractJson t = Inr (substring t (bracket_start t) (bracket_end t + 1)))"
  using extractJson_unfenced [OF assms] bracket_search_eq [of t] sublist_not_found [of t]
  by simp

theorem extractJson_bracket_failure_witness:
  "(markdownMatch ''I cannot help with that.'' = None
      \<or> markdownMatch ''I cannot help with that.'' = Some [])
   \<and> extractJson ''I cannot help with that.''
       = Inl (JsError (not_found_message ''I cannot help with that.''))
   \<and> sublist ''I cannot help with that.'' (not_found_message ''I cannot help with that.'')"
proof -
  have h: "markdownMatch ''I cannot help with that.'' = None
      \<or> markdownMatch ''I cannot help with that.'' = Some []"
    by (simp add: markdownMatch_def)
  show ?thesis using h extractJson_bracket_failure [OF h] by simp
qed

text \<open>
  Claim C6 as stated fails: a text without any bracket or brace that carries a
  fenced block is returned from, not thrown on.
\<close>

theorem extractJson_fence_counterexample:
  "CHR ''['' \<notin> set ''```json 42 ```'' \<and> CHR ''{'' \<notin> set ''```json 42 ```''
   \<and> extractJson ''```json 42 ```'' = Inr ''42''"
  by (simp add: extractJson_def markdownMatch_def is_space_def trim_def)

text \<open>
  Claim C7, as amended. When the text after the leftmost \<^verbatim>\<open>```json\<close> is not
  blank up to the next \<^verbatim>\<open>```\<close>, extractJson returns that text, trimmed. When
  the regular expression finds no fenced block, or an empty one, and the first
  opening bracket or brace (at \<open>i\<close>) is not behind the last closing bracket or
  brace (at \<open>k\<close>), it returns the text from \<open>i\<close> to \<open>k\<close>, both included.
\<close>

theorem extractJson_result:
  "(t = pre @ ''```json'' @ body @ ''```'' @ post
      \<and> \<not> sublist ''```json'' (pre @ ''```jso'') \<and> \<not> sublist ''```'' (body @ ''``'')
      \<and> trim body \<noteq> []
      \<longrightarrow> extractJson t = Inr (trim body))
   \<and> ((markdownMatch t = None \<or> markdownMatch t = Some [])
      \<and> i < length t \<and> (t ! i = CHR ''['' \<or> t ! i = CHR ''{'')
      \<and> (\<forall>j<i. t ! j \<noteq> CHR ''['' \<and> t ! j \<noteq> CHR ''{'')
      \<and> k < length t \<and> (t ! k = CHR '']'' \<or> t ! k = CHR ''}'')
      \<and> (\<forall>j. k < j \<and> j < length t \<longrightarrow> t ! j \<noteq> CHR '']'' \<and> t ! j \<noteq> CHR ''}'')
      \<and> i \<le> k
      \<longrightarrow> extractJson t = Inr (take (Suc k - i) (drop i t)))"
proof (intro conjI impI)
  assume "t = pre @ ''```json'' @ body @ ''```'' @ post
      \<and> \<not> sublist ''```json'' (pre @ ''```jso'') \<and> \<not> sublist ''```'' (body @ ''``'')
      \<and> trim body \<noteq> []"
  then show "extractJson t = Inr (trim body)" using fenced_contents by blast
next
  assume h: "(markdownMatch t = None \<or> markdownMatch t = Some [])
      \<and> i < length t \<and> (t ! i = CHR ''['' \<or> t ! i = CHR ''{'')
      \<and> (\<forall>j<i. t ! j \<noteq> CHR ''['' \<and> t ! j \<noteq> CHR ''{'')
      \<and> k < length t \<and> (t ! k = CHR '']'' \<or> t ! k = CHR ''}'')
      \<and> (\<forall>j. k < j \<and> j < length t \<longrightarrow> t ! j \<noteq> CHR '']'' \<and> t ! j \<noteq> CHR ''}'')
      \<and> i \<le> k"
  then have s: "bracket_start t = int i" by (intro bracket_start_eq) blast+
  from h have e: "bracket_end t = int k" by (intro bracket_end_eq) blast+
  from h have "extractJson t = bracket_search t" by (intro extractJson_unfenced) blast
  moreover have "bracket_search t = Inr (substring t (int i) (int k + 1))"
    using h by (simp add: bracket_search_def s e Let_def)
  moreover have "substring t (int i) (int k + 1) = take (Suc k - i) (drop i t)"
    using h by (intro substring_inside) blast+
  ultimately show "extractJson t = Inr (take (Suc k - i) (drop i t))" by simp
qed

theorem extractJson_result_witness:
  "extractJson ''Sure: ```json {} ``` ok'' = Inr ''{}''
   \<and> extractJson ''ok [1] }.'' = Inr ''[1] }''"
proof -
  have a: "''Sure: ```json {} ``` ok'' = ''Sure: '' @ ''```json'' @ '' {} '' @ ''```'' @ '' ok''
      \<and> \<not> sublist ''```json'' (''Sure: '' @ ''```jso'') \<and> \<not> sublist ''```'' ('' {} '' @ ''``'')
      \<and> trim '' {} '' \<noteq> []"
    by (simp add: sublist_code(3) trim_def is_space_def)
  have ta: "trim '' {} '' = ''{}''" by (simp add: trim_def is_space_def)
  have b: "(markdownMatch ''ok [1] }.'' = None \<or> markdownMatch ''ok [1] }.'' = Some [])
      \<and> 3 < length ''ok [1] }.''
      \<and> (''ok [1] }.'' ! 3 = CHR ''['' \<or> ''ok [1] }.'' ! 3 = CHR ''{'')
      \<and> (\<forall>j<3. ''ok [1] }.'' ! j \<noteq> CHR ''['' \<and> ''ok [1] }.'' ! j \<noteq> CHR ''{'')
      \<and> 7 < length ''ok [1] }.''
      \<and> (''ok [1] }.'' ! 7 = CHR '']'' \<or> ''ok [1] }.'' ! 7 = CHR ''}'')
      \<and> (\<forall>j. 7 < j \<and> j < length ''ok [1] }.''
            \<longrightarrow> ''ok [1] }.'' ! j \<noteq> CHR '']'' \<and> ''ok [1] }.'' ! j \<noteq> CHR ''}'')
      \<and> (3::nat) \<le> 7"
  proof -
    have lt3: "\<And>j::nat. j < 3 \<longleftrightarrow> j = 0 \<or> j = 1 \<or> j = 2" by auto
    have gt7: "\<And>j::nat. 7 < j \<and> j < 9 \<longleftrightarrow> j = 8" by auto
    show ?thesis by (simp add: markdownMatch_def lt3 gt7 nth_Cons' )
  qed
  from extractJson_result [of "''Sure: ```json {} ``` ok''" "''Sure: ''" "'' {} ''" "'' ok''" 0 0] a
  have r1: "extractJson ''Sure: ```json {} ``` ok'' = Inr (trim '' {} '')" by blast
  from extractJson_result [of "''ok [1] }.''" "[]" "[]" "[]" 3 7] b
  have r2: "extractJson ''ok [1] }.'' = Inr (take (Suc 7 - 3) (drop 3 ''ok [1] }.''))" by blast
  show ?thesis using r1 r2 ta by simp
qed

text \<open>
  Claim C7 as stated fails: valid JSON whose text holds three backticks is cut
  at them, so what is returned is not the fenced contents.
\<close>

theorem extractJson_fenced_counterexample:
  "extractJson (''```json'' @ [CHR 0x0A] @ ''['' @ [CHR 0x22] @ ''```'' @ [CHR 0x22] @ '']''
                @ [CHR 0x0A] @ ''```'')
     = Inr (''['' @ [CHR 0x22])
   \<and> trim ([CHR 0x0A] @ ''['' @ [CHR 0x22] @ ''```'' @ [CHR 0x22] @ '']'' @ [CHR 0x0A])
     = ''['' @ [CHR 0x22] @ ''```'' @ [CHR 0x22] @ '']''"
  by (simp add: extractJson_def markdownMatch_def is_space_def trim_def)


text \<open>
  Claim C1, as amended. Take a plan that passed validation, and any one of its
  variations \<open>v\<close>, with the variations \<open>pre\<close> before it and \<open>post\<close> after it;
  every entry is not \<^verbatim>\<open>null\<close> and has a title that ToString accepts (for the
  edit path, moreover a \<^verbatim>\<open>modifiedPrompt\<close> that is a string or falsy). Then the
  loop over \<open>pre\<close> ends without throwing, with one
  variation event each; the render call for \<open>v\<close> is made in the state reached
  there; whatever it returns or throws (\<open>r\<close>), one variation event for \<open>v\<close>
  follows, the state moves on by the same clock and random reads, the loop over
  \<open>post\<close> runs from there to its end with one variation event each, and the
  generator ends without throwing. If the render call threw, the event for \<open>v\<close>
  is an error variation with the thrown error's message and a retry payload.
\<close>

theorem variation_failure_isolated:
  "(getAiClient e s = (Inr (), sc)
      \<and> generateContent e (new_plan_request userPrompt (getCurrentLanguage e) aspectRatio) sc
          = (Inr response, sp)
      \<and> parsed_json e response = Inr plan
      \<and> planned_variations plan = Inr (pre @ v # post)
      \<and> (\<forall>x\<in>set (pre @ v # post). title_shown x)
    \<longrightarrow> (\<exists>evs1 s3 p r s4 iv evs2 s5.
           new_images_loop e userPrompt aspectRatio pre sp = (evs1, None, s3)
         \<and> length evs1 = length pre
         \<and> new_prompt userPrompt v = Inr p
         \<and> retryNewImageGeneration e p aspectRatio s3 = (r, s4)
         \<and> new_images_loop e userPrompt aspectRatio post (tick s4) = (evs2, None, s5)
         \<and> length evs2 = length post
         \<and> (\<forall>ev\<in>set (evs1 @ evs2). is_variation ev)
         \<and> generateNewImages e userPrompt useWebSearch aspectRatio s
             = ([Plan plan JUndefined, Progress ''Generating your new images...'']
                @ evs1 @ Variation iv # evs2, None, s5)
         \<and> js_get v ''title'' = Inr (title iv)
         \<and> js_get v ''description'' = Inr (description iv)
         \<and> (\<forall>err. r = Inl err \<longrightarrow>
                isError iv = Some True \<and> errorMessage iv = Some (message_of err)
                \<and> retryPayload iv = Some \<lparr>payload_images = None, payload_prompt = p,
                                           payload_aspectRatio = Some aspectRatio\<rparr>)
         \<and> (\<forall>b. r = Inr b \<longrightarrow>
                isError iv = None
                \<and> imageUrl iv = ''data:image/png;base64,'' @ opt_to_string b)))
   \<and> (getAiClient e s = (Inr (), sc)
      \<and> generateContent e
           (edit_plan_request images userPrompt useWebSearch (getCurrentLanguage e) aspectRatio) sc
          = (Inr response, sp)
      \<and> parsed_json e response = Inr plan
      \<and> planned_variations plan = Inr (pre @ v # post)
      \<and> (\<forall>x\<in>set (pre @ v # post). variation_spec x)
    \<longrightarrow> (\<exists>evs1 s3 p r s4 iv evs2 s5.
           image_edits_loop e images userPrompt pre sp = (evs1, None, s3)
         \<and> length evs1 = length pre
         \<and> edit_prompt userPrompt v = Inr p
         \<and> editImageInternal e images p s3 = (r, s4)
         \<and> image_edits_loop e images userPrompt post (tick s4) = (evs2, None, s5)
         \<and> length evs2 = length post
         \<and> (\<forall>ev\<in>set (evs1 @ evs2). is_variation ev)
         \<and> generateImageEdits e images userPrompt useWebSearch aspectRatio s
             = (search_notices useWebSearch
                @ [Plan plan (grounding response),
                   Progress ''Remixing your image with new ideas...'']
                @ evs1 @ Variation iv # evs2, None, s5)
         \<and> js_get v ''title'' = Inr (title iv)
         \<and> js_get v ''description'' = Inr (description iv)
         \<and> (\<forall>err. r = Inl err \<longrightarrow>
                isError iv = Some True \<and> errorMessage iv = Some (message_of err)
                \<and> retryPayload iv = Some \<lparr>payload_images = Some images, payload_prompt = p,
                                           payload_aspectRatio = None\<rparr>)
         \<and> (\<forall>b. r = Inr b \<longrightarrow>
                isError iv = None
                \<and> imageUrl iv = ''data:'' @ mimeType (hd images) @ '';base64,'' @ b)))"
proof (intro conjI impI)
  assume h: "getAiClient e s = (Inr (), sc)
      \<and> generateContent e (new_plan_request userPrompt (getCurrentLanguage e) aspectRatio) sc
          = (Inr response, sp)
      \<and> parsed_json e response = Inr plan
      \<and> planned_variations plan = Inr (pre @ v # post)
      \<and> (\<forall>x\<in>set (pre @ v # post). title_shown x)"
  then have objs: "\<forall>x\<in>set (pre @ v # post). title_shown x" by blast
  from new_images_loop_split [OF objs, of e userPrompt aspectRatio sp]
  obtain evs1 s3 p r s4 iv evs2 s5 where
    sp: "new_images_loop e userPrompt aspectRatio pre sp = (evs1, None, s3)
         \<and> length evs1 = length pre
         \<and> new_prompt userPrompt v = Inr p
         \<and> retryNewImageGeneration e p aspectRatio s3 = (r, s4)
         \<and> new_images_loop e userPrompt aspectRatio post (tick s4) = (evs2, None, s5)
         \<and> length evs2 = length post
         \<and> (\<forall>ev\<in>set (evs1 @ evs2). is_variation ev)
         \<and> new_images_loop e userPrompt aspectRatio (pre @ v # post) sp
             = (evs1 @ Variation iv # evs2, None, s5)
         \<and> js_get v ''title'' = Inr (title iv)
         \<and> js_get v ''description'' = Inr (description iv)
         \<and> (\<forall>err. r = Inl err \<longrightarrow>
                isError iv = Some True \<and> errorMessage iv = Some (message_of err)
                \<and> retryPayload iv = Some \<lparr>payload_images = None, payload_prompt = p,
                                           payload_aspectRatio = Some aspectRatio\<rparr>)
         \<and> (\<forall>b. r = Inr b \<longrightarrow>
                isError iv = None
                \<and> imageUrl iv = ''data:image/png;base64,'' @ opt_to_string b)"
    by blast
  from h sp have "generateNewImages e userPrompt useWebSearch aspectRatio s
      = ([Plan plan JUndefined, Progress ''Generating your new images...'']
         @ evs1 @ Variation iv # evs2, None, s5)"
    by (intro generateNewImages_planned) blast+
  with sp show "\<exists>evs1 s3 p r s4 iv evs2 s5.
           new_images_loop e userPrompt aspectRatio pre sp = (evs1, None, s3)
         \<and> length evs1 = length pre
         \<and> new_prompt userPrompt v = Inr p
         \<and> retryNewImageGeneration e p aspectRatio s3 = (r, s4)
         \<and> new_images_loop e userPrompt aspectRatio post (tick s4) = (evs2, None, s5)
         \<and> length evs2 = length post
         \<and> (\<forall>ev\<in>set (evs1 @ evs2). is_variation ev)
         \<and> generateNewImages e userPrompt useWebSearch aspectRatio s
             = ([Plan plan JUndefined, Progress ''Generating your new images...'']
                @ evs1 @ Variation iv # evs2, None, s5)
         \<and> js_get v ''title'' = Inr (title iv)
         \<and> js_get v ''description'' = Inr (description iv)
         \<and> (\<forall>err. r = Inl err \<longrightarrow>
                isError iv = Some True \<and> errorMessage iv = Some (message_of err)
                \<and> retryPayload iv = Some \<lparr>payload_images = None, payload_prompt = p,
                                           payload_aspectRatio = Some aspectRatio\<rparr>)
         \<and> (\<forall>b. r = Inr b \<longrightarrow>
                isError iv = None
                \<and> imageUrl iv = ''data:image/png;base64,'' @ opt_to_string b)"
    by blast
next
  assume h: "getAiClient e s = (Inr (), sc)
      \<and> generateContent e
           (edit_plan_request images userPrompt useWebSearch (getCurrentLanguage e) aspectRatio) sc
          = (Inr response, sp)
      \<and> parsed_json e response = Inr plan
      \<and> planned_variations plan = Inr (pre @ v # post)
      \<and> (\<forall>x\<in>set (pre @ v # post). variation_spec x)"
  then have specs: "\<forall>x\<in>set (pre @ v # post). variation_spec x" by blast
  from image_edits_loop_split [OF specs, of e images userPrompt sp]
  obtain evs1 s3 p r s4 iv evs2 s5 where
    sp: "image_edits_loop e images userPrompt pre sp = (evs1, None, s3)
         \<and> length evs1 = length pre
         \<and> edit_prompt userPrompt v = Inr p
         \<and> editImageInternal e images p s3 = (r, s4)
         \<and> image_edits_loop e images userPrompt post (tick s4) = (evs2, None, s5)
         \<and> length evs2 = length post
         \<and> (\<forall>ev\<in>set (evs1 @ evs2). is_variation ev)
         \<and> image_edits_loop e images userPrompt (pre @ v # post) sp
             = (evs1 @ Variation iv # evs2, None, s5)
         \<and> js_get v ''title'' = Inr (title iv)
         \<and> js_get v ''description'' = Inr (description iv)
         \<and> (\<forall>err. r = Inl err \<longrightarrow>
                isError iv = Some True \<and> errorMessage iv = Some (message_of err)
                \<and> retryPayload iv = Some \<lparr>payload_images = Some images, payload_prompt = p,
                                           payload_aspectRatio = None\<rparr>)
         \<and> (\<forall>b. r = Inr b \<longrightarrow>
                isError iv = None
                \<and> imageUrl iv = ''data:'' @ mimeType (hd images) @ '';base64,'' @ b)"
    by blast
  from h sp have "generateImageEdits e images userPrompt useWebSearch aspectRatio s
      = (search_notices useWebSearch
         @ [Plan plan (grounding response),
            Progress ''Remixing your image with new ideas...'']
         @ evs1 @ Variation iv # evs2, None, s5)"
    by (intro generateImageEdits_planned) blast+
  with sp show "\<exists>evs1 s3 p r s4 iv evs2 s5.
           image_edits_loop e images userPrompt pre sp = (evs1, None, s3)
         \<and> length evs1 = length pre
         \<and> edit_prompt userPrompt v = Inr p
         \<and> editImageInternal e images p s3 = (r, s4)
         \<and> image_edits_loop e images userPrompt post (tick s4) = (evs2, None, s5)
         \<and> length evs2 = length post
         \<and> (\<forall>ev\<in>set (evs1 @ evs2). is_variation ev)
         \<and> generateImageEdits e images userPrompt useWebSearch aspectRatio s
             = (search_notices useWebSearch
                @ [Plan plan (grounding response),
                   Progress ''Remixing your image with new ideas...'']
                @ evs1 @ Variation iv # evs2, None, s5)
         \<and> js_get v ''title'' = Inr (title iv)
         \<and> js_get v ''description'' = Inr (description iv)
         \<and> (\<forall>err. r = Inl err \<longrightarrow>
                isError iv = Some True \<and> errorMessage iv = Some (message_of err)
                \<and> retryPayload iv = Some \<lparr>payload_images = Some images, payload_prompt = p,
                                           payload_aspectRatio = None\<rparr>)
         \<and> (\<forall>b. r = Inr b \<longrightarrow>
                isError iv = None
                \<and> imageUrl iv = ''data:'' @ mimeType (hd images) @ '';base64,'' @ b)"
    by blast
qed

theorem variation_failure_isolated_witness:
  "planned_variations sample_plan = Inr sample_variations
   \<and> (\<exists>evs1 iv evs2 s5.
         generateNewImages sample_env ''a red bicycle on a beach'' False ''16:9'' sample_state
           = ([Plan sample_plan JUndefined, Progress ''Generating your new images...'']
              @ evs1 @ Variation iv # evs2, None, s5)
       \<and> length evs1 = 1 \<and> length evs2 = 1
       \<and> title iv = JStr ''Noon''
       \<and> isError iv = Some True \<and> errorMessage iv = Some ''quota exceeded''
       \<and> retryPayload iv = Some \<lparr>payload_images = None, payload_prompt = JStr ''bike at noon'',
                                  payload_aspectRatio = Some ''16:9''\<rparr>)
   \<and> (\<exists>evs1 iv evs2 s5.
         generateImageEdits sample_env sample_images ''make it red'' True ''16:9'' sample_state
           = (search_notices True
              @ [Plan sample_plan JUndefined, Progress ''Remixing your image with new ideas...'']
              @ evs1 @ Variation iv # evs2, None, s5)
       \<and> length evs1 = 1 \<and> length evs2 = 1
       \<and> title iv = JStr ''Noon''
       \<and> isError iv = Some True \<and> errorMessage iv = Some ''quota exceeded''
       \<and> retryPayload iv = Some \<lparr>payload_images = Some sample_images,
                                  payload_prompt = JStr ''bike at noon'',
                                  payload_aspectRatio = None\<rparr>)"
proof -
  let ?a = "JObj [(''title'', JStr ''Dawn''), (''description'', JStr ''Soft light''),
                  (''modifiedPrompt'', JStr ''bike at dawn'')]"
  let ?b = "JObj [(''title'', JStr ''Noon''), (''description'', JStr ''Hard light''),
                  (''modifiedPrompt'', JStr ''bike at noon'')]"
  let ?c = "JObj [(''title'', JStr ''Dusk''), (''description'', JStr ''Low light''),
                  (''modifiedPrompt'', JStr [])]"
  let ?sc = "sample_state\<lparr>ai := Some ''key''\<rparr>"
  have vs: "sample_variations = [?a] @ ?b # [?c]" by (simp add: sample_variations_def)
  have planned: "planned_variations sample_plan = Inr ([?a] @ ?b # [?c])"
    using sample_planned vs by simp
  have objs: "\<forall>x\<in>set ([?a] @ ?b # [?c]). title_shown x" by (simp add: title_shown_def)
  have specs: "\<forall>x\<in>set ([?a] @ ?b # [?c]). variation_spec x"
    by (simp add: variation_spec_def title_shown_def text_or_falsy_def)
  have gm: "grounding (text_response sample_plan_json) = JUndefined"
    by (simp add: grounding_def text_response_def)
  have pn: "new_prompt ''a red bicycle on a beach'' ?b = Inr (JStr ''bike at noon'')"
    by (simp add: new_prompt_def)
  have pe: "edit_prompt ''make it red'' ?b = Inr (JStr ''bike at noon'')"
    by (simp add: edit_prompt_def trim_def is_space_def)
  have tb: "js_get ?b ''title'' = Inr (JStr ''Noon'')" by simp
  have new: "\<exists>evs1 iv evs2 s5.
         generateNewImages sample_env ''a red bicycle on a beach'' False ''16:9'' sample_state
           = ([Plan sample_plan JUndefined, Progress ''Generating your new images...'']
              @ evs1 @ Variation iv # evs2, None, s5)
       \<and> length evs1 = 1 \<and> length evs2 = 1
       \<and> title iv = JStr ''Noon''
       \<and> isError iv = Some True \<and> errorMessage iv = Some ''quota exceeded''
       \<and> retryPayload iv = Some \<lparr>payload_images = None, payload_prompt = JStr ''bike at noon'',
                                  payload_aspectRatio = Some ''16:9''\<rparr>"
  proof -
    from variation_failure_isolated
      [where e = sample_env and s = sample_state and sc = ?sc
         and userPrompt = "''a red bicycle on a beach''" and aspectRatio = "''16:9''"
         and response = "text_response sample_plan_json" and plan = sample_plan
         and pre = "[?a]" and v = ?b and post = "[?c]" and useWebSearch = False,
       THEN conjunct1, THEN mp,
       OF conjI [OF sample_client conjI [OF sample_new_plan_call
            conjI [OF sample_plan_parsed conjI [OF planned objs]]]]]
    obtain evs1 s3 p r s4 iv evs2 s5 where
      f: "length evs1 = length [?a]"
         "new_prompt ''a red bicycle on a beach'' ?b = Inr p"
         "retryNewImageGeneration sample_env p ''16:9'' s3 = (r, s4)"
         "length evs2 = length [?c]"
         "generateNewImages sample_env ''a red bicycle on a beach'' False ''16:9'' sample_state
           = ([Plan sample_plan JUndefined, Progress ''Generating your new images...'']
              @ evs1 @ Variation iv # evs2, None, s5)"
         "js_get ?b ''title'' = Inr (title iv)"
         "\<forall>err. r = Inl err \<longrightarrow>
                isError iv = Some True \<and> errorMessage iv = Some (message_of err)
                \<and> retryPayload iv = Some \<lparr>payload_images = None, payload_prompt = p,
                                           payload_aspectRatio = Some ''16:9''\<rparr>"
      by blast
    from f(2) pn have p: "p = JStr ''bike at noon''" by simp
    from f(3) sample_render_new [of "''16:9''" s3] have r: "r = Inl (JsError ''quota exceeded'')"
      by (simp add: p)
    from f(7) r p have "isError iv = Some True \<and> errorMessage iv = Some ''quota exceeded''
        \<and> retryPayload iv = Some \<lparr>payload_images = None, payload_prompt = JStr ''bike at noon'',
                                   payload_aspectRatio = Some ''16:9''\<rparr>"
      by (simp add: message_of_def)
    moreover from f(6) tb have "title iv = JStr ''Noon''" by simp
    ultimately show ?thesis using f(1,4,5) by auto
  qed
  have edit: "\<exists>evs1 iv evs2 s5.
         generateImageEdits sample_env sample_images ''make it red'' True ''16:9'' sample_state
           = (search_notices True
              @ [Plan sample_plan JUndefined, Progress ''Remixing your image with new ideas...'']
              @ evs1 @ Variation iv # evs2, None, s5)
       \<and> length evs1 = 1 \<and> length evs2 = 1
       \<and> title iv = JStr ''Noon''
       \<and> isError iv = Some True \<and> errorMessage iv = Some ''quota exceeded''
       \<and> retryPayload iv = Some \<lparr>payload_images = Some sample_images,
                                  payload_prompt = JStr ''bike at noon'',
                                  payload_aspectRatio = None\<rparr>"
  proof -
    from variation_failure_isolated
      [where e = sample_env and s = sample_state and sc = ?sc
         and userPrompt = "''make it red''" and aspectRatio = "''16:9''"
         and response = "text_response sample_plan_json" and plan = sample_plan
         and pre = "[?a]" and v = ?b and post = "[?c]" and useWebSearch = True
         and images = sample_images,
       THEN conjunct2, THEN mp,
       OF conjI [OF sample_client conjI [OF sample_edit_plan_call
            conjI [OF sample_plan_parsed conjI [OF planned specs]]]]]
    obtain evs1 s3 p r s4 iv evs2 s5 where
      f: "length evs1 = length [?a]"
         "edit_prompt ''make it red'' ?b = Inr p"
         "editImageInternal sample_env sample_images p s3 = (r, s4)"
         "length evs2 = length [?c]"
         "generateImageEdits sample_env sample_images ''make it red'' True ''16:9'' sample_state
           = (search_notices True
              @ [Plan sample_plan (grounding (text_response sample_plan_json)),
                 Progress ''Remixing your image with new ideas...'']
              @ evs1 @ Variation iv # evs2, None, s5)"
         "js_get ?b ''title'' = Inr (title iv)"
         "\<forall>err. r = Inl err \<longrightarrow>
                isError iv = Some True \<and> errorMessage iv = Some (message_of err)
                \<and> retryPayload iv = Some \<lparr>payload_images = Some sample_images,
                                           payload_prompt = p, payload_aspectRatio = None\<rparr>"
      by blast
    from f(2) pe have p: "p = JStr ''bike at noon''" by simp
    from f(3) sample_render_edit [of s3] have r: "r = Inl (JsError ''quota exceeded'')"
      by (simp add: p)
    from f(7) r p have "isError iv = Some True \<and> errorMessage iv = Some ''quota exceeded''
        \<and> retryPayload iv = Some \<lparr>payload_images = Some sample_images,
                                   payload_prompt = JStr ''bike at noon'',
                                   payload_aspectRatio = None\<rparr>"
      by (simp add: message_of_def)
    moreover from f(6) tb have "title iv = JStr ''Noon''" by simp
    ultimately show ?thesis using f(1,4,5) gm by auto
  qed
  show ?thesis using sample_planned new edit by blast
qed

text \<open>
  Claim C1 as stated fails on a plan that passes the validation with an entry
  whose title is an object with an own property \<^verbatim>\<open>toString\<close>. The render call
  for that entry throws; in the \<^verbatim>\<open>catch\<close> block the diagnostic cannot convert
  the title and throws a TypeError, which ends the generator: no error variation
  is yielded for the entry, and the third planned variation is never rendered.
\<close>

theorem title_object_counterexample:
  "planned_variations title_object_plan = Inr title_object_variations
   \<and> length title_object_variations = 3
   \<and> new_prompt ''a red bicycle on a beach'' (title_object_variations ! 1)
       = Inr (JStr ''bike at noon'')
   \<and> fst (retryNewImageGeneration title_object_env (JStr ''bike at noon'') ''16:9''
             sample_state)
       = Inl (JsError ''quota exceeded'')
   \<and> generateNewImages title_object_env ''a red bicycle on a beach'' False ''16:9'' sample_state
       = ([Plan title_object_plan JUndefined,
           Progress ''Generating your new images...'',
           Variation \<lparr>variation_id = ''17000000000000.5'', title = JStr ''Dawn'',
                       description = JStr ''Soft light'',
                       imageUrl = ''data:image/png;base64,QUJD'', createdAt = 1700000000001,
                       isError = None, errorMessage = None, retryPayload = None\<rparr>],
          Some (JsError ''Cannot convert object to primitive value''),
          \<lparr>ai = Some ''key'',
           calls = [GenerateContent (new_plan_request ''a red bicycle on a beach'' ''en'' ''16:9''),
                    GenerateImages (images_request_for (JStr ''bike at dawn'') ''16:9''),
                    GenerateImages (images_request_for (JStr ''bike at noon'') ''16:9'')],
           clock_reads = 2, random_reads = 1\<rparr>)"
proof -
  let ?sc = "sample_state\<lparr>ai := Some ''key''\<rparr>"
  let ?sp = "?sc\<lparr>calls := calls ?sc
               @ [GenerateContent (new_plan_request ''a red bicycle on a beach''
                                     (getCurrentLanguage title_object_env) ''16:9'')]\<rparr>"
  have client: "getAiClient title_object_env sample_state = (Inr (), ?sc)"
    by (simp add: getAiClient_def title_object_env_def sample_env_def sample_state_def
          present_def)
  have call: "generateContent title_object_env
        (new_plan_request ''a red bicycle on a beach'' (getCurrentLanguage title_object_env)
           ''16:9'') ?sc
      = (Inr (text_response title_object_json), ?sp)"
    by (simp add: generateContent_def title_object_env_def sample_env_def sample_state_def)
  have ex: "extractJson title_object_json = Inr title_object_json" by code_simp
  have parsed: "parsed_json title_object_env (text_response title_object_json)
      = Inr title_object_plan"
    by (simp add: parsed_json_def text_response_def ex title_object_env_def sample_env_def
          odd_parse_def)
  have planned: "planned_variations title_object_plan = Inr title_object_variations"
    by (simp add: planned_variations_def title_object_plan_def title_object_variations_def)
  have loop: "new_images_loop title_object_env ''a red bicycle on a beach'' ''16:9''
        title_object_variations ?sp
     = ([Variation \<lparr>variation_id = ''17000000000000.5'', title = JStr ''Dawn'',
                     description = JStr ''Soft light'',
                     imageUrl = ''data:image/png;base64,QUJD'', createdAt = 1700000000001,
                     isError = None, errorMessage = None, retryPayload = None\<rparr>],
        Some (JsError ''Cannot convert object to primitive value''),
        \<lparr>ai = Some ''key'',
         calls = [GenerateContent (new_plan_request ''a red bicycle on a beach'' ''en'' ''16:9''),
                  GenerateImages (images_request_for (JStr ''bike at dawn'') ''16:9''),
                  GenerateImages (images_request_for (JStr ''bike at noon'') ''16:9'')],
         clock_reads = 2, random_reads = 1\<rparr>)"
    by (simp add: title_object_variations_def new_variation_def new_try_def new_catch_def
          diagnostic_def cannot_convert_def
          new_prompt_def retryNewImageGeneration_def getAiClient_def generateImages_def
          generated_bytes_def fresh_id_def new_Date_def message_of_def opt_to_string_def
          title_object_env_def sample_env_def sample_state_def sample_images_endpoint_def
          images_request_for_def sample_digits)
  have run: "generateNewImages title_object_env ''a red bicycle on a beach'' False ''16:9''
        sample_state
       = ([Plan title_object_plan JUndefined,
           Progress ''Generating your new images...'',
           Variation \<lparr>variation_id = ''17000000000000.5'', title = JStr ''Dawn'',
                       description = JStr ''Soft light'',
                       imageUrl = ''data:image/png;base64,QUJD'', createdAt = 1700000000001,
                       isError = None, errorMessage = None, retryPayload = None\<rparr>],
          Some (JsError ''Cannot convert object to primitive value''),
          \<lparr>ai = Some ''key'',
           calls = [GenerateContent (new_plan_request ''a red bicycle on a beach'' ''en'' ''16:9''),
                    GenerateImages (images_request_for (JStr ''bike at dawn'') ''16:9''),
                    GenerateImages (images_request_for (JStr ''bike at noon'') ''16:9'')],
           clock_reads = 2, random_reads = 1\<rparr>)"
    using generateNewImages_planned [OF client call parsed planned loop] by simp
  have render: "fst (retryNewImageGeneration title_object_env (JStr ''bike at noon'') ''16:9''
             sample_state)
       = Inl (JsError ''quota exceeded'')"
    by (simp add: retryNewImageGeneration_def getAiClient_def generateImages_def
          title_object_env_def sample_env_def sample_state_def sample_images_endpoint_def
          images_request_for_def present_def)
  have prompt: "new_prompt ''a red bicycle on a beach'' (title_object_variations ! 1)
       = Inr (JStr ''bike at noon'')"
    by (simp add: title_object_variations_def new_prompt_def)
  have len: "length title_object_variations = 3" by (simp add: title_object_variations_def)
  from planned len prompt render run show ?thesis by blast
qed

text \<open>
  Claim C3, as amended. A new-image turn whose plan passes validation with three
  variations, none of them \<^verbatim>\<open>null\<close> and each with a title that ToString
  accepts, yields, in this order, the plan event, one progress event and three
  variation events, one for each planned variation in plan order, and then ends
  without throwing.
\<close>

theorem new_images_event_stream:
  assumes "getAiClient e s = (Inr (), sc)"
      and "generateContent e (new_plan_request userPrompt (getCurrentLanguage e) aspectRatio) sc
             = (Inr response, sp)"
      and "parsed_json e response = Inr plan"
      and "planned_variations plan = Inr [a, b, c]"
      and "title_shown a" and "title_shown b" and "title_shown c"
  shows "\<exists>x y z s'.
           generateNewImages e userPrompt useWebSearch aspectRatio s
             = ([Plan plan JUndefined, Progress ''Generating your new images...'',
                 Variation x, Variation y, Variation z], None, s')
         \<and> js_get a ''title'' = Inr (title x) \<and> js_get a ''description'' = Inr (description x)
         \<and> js_get b ''title'' = Inr (title y) \<and> js_get b ''description'' = Inr (description y)
         \<and> js_get c ''title'' = Inr (title z) \<and> js_get c ''description'' = Inr (description z)"
proof -
  from new_prompt_shown [OF assms(5)] obtain pa where pa: "new_prompt userPrompt a = Inr pa"
    by blast
  obtain ra sa where ra: "retryNewImageGeneration e pa aspectRatio sp = (ra, sa)"
    by (cases "retryNewImageGeneration e pa aspectRatio sp")
  from new_variation_step [OF assms(5) pa ra] obtain x where
    x: "new_variation e userPrompt aspectRatio a sp = (Inr x, tick sa)"
       "js_get a ''title'' = Inr (title x)" "js_get a ''description'' = Inr (description x)"
    by blast
  from new_prompt_shown [OF assms(6)] obtain pb where pb: "new_prompt userPrompt b = Inr pb"
    by blast
  obtain rb sb where rb: "retryNewImageGeneration e pb aspectRatio (tick sa) = (rb, sb)"
    by (cases "retryNewImageGeneration e pb aspectRatio (tick sa)")
  from new_variation_step [OF assms(6) pb rb] obtain y where
    y: "new_variation e userPrompt aspectRatio b (tick sa) = (Inr y, tick sb)"
       "js_get b ''title'' = Inr (title y)" "js_get b ''description'' = Inr (description y)"
    by blast
  from new_prompt_shown [OF assms(7)] obtain pc where pc: "new_prompt userPrompt c = Inr pc"
    by blast
  obtain rc sd where rc: "retryNewImageGeneration e pc aspectRatio (tick sb) = (rc, sd)"
    by (cases "retryNewImageGeneration e pc aspectRatio (tick sb)")
  from new_variation_step [OF assms(7) pc rc] obtain z where
    z: "new_variation e userPrompt aspectRatio c (tick sb) = (Inr z, tick sd)"
       "js_get c ''title'' = Inr (title z)" "js_get c ''description'' = Inr (description z)"
    by blast
  have "new_images_loop e userPrompt aspectRatio [a, b, c] sp
          = ([Variation x, Variation y, Variation z], None, tick sd)"
    using x(1) y(1) z(1) by simp
  from generateNewImages_planned [OF assms(1-4) this]
  have "generateNewImages e userPrompt useWebSearch aspectRatio s
          = ([Plan plan JUndefined, Progress ''Generating your new images...'',
              Variation x, Variation y, Variation z], None, tick sd)"
    by simp
  then show ?thesis using x(2,3) y(2,3) z(2,3) by blast
qed

theorem new_images_event_stream_witness:
  "\<exists>x y z s'.
     generateNewImages sample_env ''a red bicycle on a beach'' False ''16:9'' sample_state
       = ([Plan sample_plan JUndefined, Progress ''Generating your new images...'',
           Variation x, Variation y, Variation z], None, s')
     \<and> title x = JStr ''Dawn'' \<and> title y = JStr ''Noon'' \<and> title z = JStr ''Dusk''"
proof -
  let ?a = "JObj [(''title'', JStr ''Dawn''), (''description'', JStr ''Soft light''),
                  (''modifiedPrompt'', JStr ''bike at dawn'')]"
  let ?b = "JObj [(''title'', JStr ''Noon''), (''description'', JStr ''Hard light''),
                  (''modifiedPrompt'', JStr ''bike at noon'')]"
  let ?c = "JObj [(''title'', JStr ''Dusk''), (''description'', JStr ''Low light''),
                  (''modifiedPrompt'', JStr [])]"
  have planned: "planned_variations sample_plan = Inr [?a, ?b, ?c]"
    using sample_planned by (simp add: sample_variations_def)
  have oa: "title_shown ?a" and ob: "title_shown ?b" and oc: "title_shown ?c"
    by (simp_all add: title_shown_def)
  from new_images_event_stream
    [where userPrompt = "''a red bicycle on a beach''" and aspectRatio = "''16:9''"
       and useWebSearch = False,
     OF sample_client sample_new_plan_call sample_plan_parsed planned oa ob oc]
  obtain x y z s' where
    f: "generateNewImages sample_env ''a red bicycle on a beach'' False ''16:9'' sample_state
          = ([Plan sample_plan JUndefined, Progress ''Generating your new images...'',
              Variation x, Variation y, Variation z], None, s')"
       "js_get ?a ''title'' = Inr (title x)"
       "js_get ?b ''title'' = Inr (title y)"
       "js_get ?c ''title'' = Inr (title z)"
    by blast
  from f(2,3,4) have "title x = JStr ''Dawn'' \<and> title y = JStr ''Noon'' \<and> title z = JStr ''Dusk''"
    by simp
  with f(1) show ?thesis by blast
qed

text \<open>
  Claim C3 as stated fails on a plan that passes the validation with three
  entries of which the second is \<^verbatim>\<open>null\<close>: reading its \<^verbatim>\<open>modifiedPrompt\<close>
  throws, reading its title in the \<^verbatim>\<open>catch\<close> block throws again, and the
  generator ends after one variation event.
\<close>

theorem null_entry_counterexample:
  "planned_variations null_entry_plan = Inr null_entry_variations
   \<and> length null_entry_variations = 3
   \<and> generateNewImages null_entry_env ''a red bicycle on a beach'' False ''16:9'' sample_state
       = ([Plan null_entry_plan JUndefined,
           Progress ''Generating your new images...'',
           Variation \<lparr>variation_id = ''17000000000000.5'', title = JStr ''Dawn'',
                       description = JStr ''Soft light'',
                       imageUrl = ''data:image/png;base64,QUJD'', createdAt = 1700000000001,
                       isError = None, errorMessage = None, retryPayload = None\<rparr>],
          Some (cannot_read ''null'' ''title''),
          \<lparr>ai = Some ''key'',
           calls = [GenerateContent (new_plan_request ''a red bicycle on a beach'' ''en'' ''16:9''),
                    GenerateImages (images_request_for (JStr ''bike at dawn'') ''16:9'')],
           clock_reads = 2, random_reads = 1\<rparr>)"
proof -
  let ?sc = "sample_state\<lparr>ai := Some ''key''\<rparr>"
  let ?sp = "?sc\<lparr>calls := calls ?sc
               @ [GenerateContent (new_plan_request ''a red bicycle on a beach''
                                     (getCurrentLanguage null_entry_env) ''16:9'')]\<rparr>"
  have client: "getAiClient null_entry_env sample_state = (Inr (), ?sc)"
    by (simp add: getAiClient_def null_entry_env_def sample_env_def sample_state_def
          present_def)
  have call: "generateContent null_entry_env
        (new_plan_request ''a red bicycle on a beach'' (getCurrentLanguage null_entry_env)
           ''16:9'') ?sc
      = (Inr (text_response null_entry_json), ?sp)"
    by (simp add: generateContent_def null_entry_env_def sample_env_def sample_state_def)
  have ex: "extractJson null_entry_json = Inr null_entry_json" by code_simp
  have ne: "null_entry_json \<noteq> title_object_json" by code_simp
  have parsed: "parsed_json null_entry_env (text_response null_entry_json)
      = Inr null_entry_plan"
    using ne by (simp add: parsed_json_def text_response_def ex null_entry_env_def sample_env_def
          odd_parse_def)
  have planned: "planned_variations null_entry_plan = Inr null_entry_variations"
    by (simp add: planned_variations_def null_entry_plan_def null_entry_variations_def)
  have loop: "new_images_loop null_entry_env ''a red bicycle on a beach'' ''16:9''
        null_entry_variations ?sp
     = ([Variation \<lparr>variation_id = ''17000000000000.5'', title = JStr ''Dawn'',
                     description = JStr ''Soft light'',
                     imageUrl = ''data:image/png;base64,QUJD'', createdAt = 1700000000001,
                     isError = None, errorMessage = None, retryPayload = None\<rparr>],
        Some (cannot_read ''null'' ''title''),
        \<lparr>ai = Some ''key'',
         calls = [GenerateContent (new_plan_request ''a red bicycle on a beach'' ''en'' ''16:9''),
                  GenerateImages (images_request_for (JStr ''bike at dawn'') ''16:9'')],
         clock_reads = 2, random_reads = 1\<rparr>)"
    by (simp add: null_entry_variations_def new_variation_def new_try_def new_catch_def
          diagnostic_def
          new_prompt_def retryNewImageGeneration_def getAiClient_def generateImages_def
          generated_bytes_def fresh_id_def new_Date_def message_of_def opt_to_string_def
          null_entry_env_def sample_env_def sample_state_def sample_images_endpoint_def
          images_request_for_def sample_digits)
  have run: "generateNewImages null_entry_env ''a red bicycle on a beach'' False ''16:9''
        sample_state
       = ([Plan null_entry_plan JUndefined,
           Progress ''Generating your new images...'',
           Variation \<lparr>variation_id = ''17000000000000.5'', title = JStr ''Dawn'',
                       description = JStr ''Soft light'',
                       imageUrl = ''data:image/png;base64,QUJD'', createdAt = 1700000000001,
                       isError = None, errorMessage = None, retryPayload = None\<rparr>],
          Some (cannot_read ''null'' ''title''),
          \<lparr>ai = Some ''key'',
           calls = [GenerateContent (new_plan_request ''a red bicycle on a beach'' ''en'' ''16:9''),
                    GenerateImages (images_request_for (JStr ''bike at dawn'') ''16:9'')],
           clock_reads = 2, random_reads = 1\<rparr>)"
    using generateNewImages_planned [OF client call parsed planned loop] by simp
  have len: "length null_entry_variations = 3" by (simp add: null_entry_variations_def)
  from planned len run show ?thesis by blast
qed



text \<open>
  Claim C8. The run of generateNewImages, its events and every call it sends
  included, is the same whatever the useWebSearch argument is.
\<close>

theorem new_images_ignore_web_search:
  "generateNewImages e userPrompt True aspectRatio s
     = generateNewImages e userPrompt False aspectRatio s"
  by (simp add: generateNewImages_def)

text \<open>
  Claim C10. With a prompt that is not a string, or is empty or all white space,
  or with no image, the edit render path (editImageInternal, and
  retryImageGeneration with it) throws one of its two precondition errors and
  leaves the state as it was: no client is constructed and no call is sent.
\<close>

theorem edit_preconditions:
  assumes "(\<forall>p. prompt = JStr p \<longrightarrow> (\<forall>c\<in>set p. is_space c)) \<or> images = []"
  shows "\<exists>m. editImageInternal e images prompt s = (Inl (JsError m), s)
           \<and> retryImageGeneration e images prompt s = (Inl (JsError m), s)
           \<and> (m = ''A valid, non-empty prompt is required for image editing.''
                \<or> m = ''At least one image is required for editing.'')"
proof (cases "invalid_prompt prompt")
  case True
  then show ?thesis
    by (simp add: retryImageGeneration_def editImageInternal_def editImage_try_def)
next
  case False
  then obtain p where p: "prompt = JStr p" "trim p \<noteq> []"
    by (cases prompt) (auto simp: invalid_prompt_def)
  from p(2) have "\<not> (\<forall>c\<in>set p. is_space c)" by (simp add: trim_blank)
  with assms p(1) have "images = []" by blast
  with False show ?thesis
    by (simp add: retryImageGeneration_def editImageInternal_def editImage_try_def)
qed

theorem edit_preconditions_witness:
  "editImageInternal sample_env sample_images (JStr ''  '') sample_state
     = (Inl (JsError ''A valid, non-empty prompt is required for image editing.''), sample_state)
   \<and> retryImageGeneration sample_env [] (JStr ''make it red'') sample_state
     = (Inl (JsError ''At least one image is required for editing.''), sample_state)"
proof -
  have a: "(\<forall>p. JStr ''  '' = JStr p \<longrightarrow> (\<forall>c\<in>set p. is_space c)) \<or> sample_images = []"
    by (simp add: is_space_def)
  have b: "(\<forall>p. JStr ''make it red'' = JStr p \<longrightarrow> (\<forall>c\<in>set p. is_space c))
      \<or> ([] :: image_input list) = []"
    by simp
  from edit_preconditions [OF a, of sample_env sample_state]
  obtain m where m: "editImageInternal sample_env sample_images (JStr ''  '') sample_state
      = (Inl (JsError m), sample_state)" by blast
  have m': "editImageInternal sample_env sample_images (JStr ''  '') sample_state
      = (Inl (JsError ''A valid, non-empty prompt is required for image editing.''), sample_state)"
    using m by (simp add: editImageInternal_def editImage_try_def invalid_prompt_def trim_def
          is_space_def)
  from edit_preconditions [OF b, of sample_env sample_state]
  obtain n where n: "retryImageGeneration sample_env [] (JStr ''make it red'') sample_state
      = (Inl (JsError n), sample_state)" by blast
  have n': "retryImageGeneration sample_env [] (JStr ''make it red'') sample_state
      = (Inl (JsError ''At least one image is required for editing.''), sample_state)"
    using n by (simp add: retryImageGeneration_def editImageInternal_def editImage_try_def
          invalid_prompt_def trim_def is_space_def)
  show ?thesis using m' n' by simp
qed




text \<open>
  Claim C4, as amended. Take a planned variation whose \<^verbatim>\<open>modifiedPrompt\<close> is
  empty (or any other falsy value) and whose title ToString accepts, giving
  \<open>shown\<close>. The edit path renders with the user prompt followed by
  \<^verbatim>\<open>, in the style of: \<close> and \<open>shown\<close>, and stores that prompt in the retry
  payload when the render call throws; the new-image path renders with the user
  prompt alone and stores that.
\<close>

theorem empty_prompt_fallback:
  assumes "js_get v ''modifiedPrompt'' = Inr m" and "\<not> truthy m"
      and "js_get v ''title'' = Inr t" and "to_string t = Inr shown"
  shows "(\<exists>r s1 iv.
            edit_prompt userPrompt v = Inr (JStr (userPrompt @ '', in the style of: '' @ shown))
          \<and> editImageInternal e images
              (JStr (userPrompt @ '', in the style of: '' @ shown)) s = (r, s1)
          \<and> edit_variation e images userPrompt v s = (Inr iv, tick s1)
          \<and> (\<forall>err. r = Inl err \<longrightarrow>
                 isError iv = Some True
                 \<and> retryPayload iv
                   = Some \<lparr>payload_images = Some images,
                           payload_prompt = JStr (userPrompt @ '', in the style of: ''
                                                  @ shown),
                           payload_aspectRatio = None\<rparr>))
       \<and> (\<exists>r s1 iv.
            new_prompt userPrompt v = Inr (JStr userPrompt)
          \<and> retryNewImageGeneration e (JStr userPrompt) aspectRatio s = (r, s1)
          \<and> new_variation e userPrompt aspectRatio v s = (Inr iv, tick s1)
          \<and> (\<forall>err. r = Inl err \<longrightarrow>
                 isError iv = Some True
                 \<and> retryPayload iv
                   = Some \<lparr>payload_images = None, payload_prompt = JStr userPrompt,
                           payload_aspectRatio = Some aspectRatio\<rparr>))"
proof -
  have shown: "title_shown v" using assms(3,4) by (simp add: title_shown_def)
  have falsy: "text_or_falsy m" using assms(2) by (cases m) (simp_all add: text_or_falsy_def)
  have spec: "variation_spec v" using shown falsy assms(1) by (simp add: variation_spec_def)
  have pe: "edit_prompt userPrompt v
      = Inr (JStr (userPrompt @ '', in the style of: '' @ shown))"
    by (rule edit_prompt_fallback [OF assms])
  have pn: "new_prompt userPrompt v = Inr (JStr userPrompt)"
    using assms(1,2) by (simp add: new_prompt_def)
  obtain r s1 where r: "editImageInternal e images
      (JStr (userPrompt @ '', in the style of: '' @ shown)) s = (r, s1)"
    by (cases "editImageInternal e images
      (JStr (userPrompt @ '', in the style of: '' @ shown)) s")
  from edit_variation_step [OF spec pe r] pe have a: "\<exists>r s1 iv.
            edit_prompt userPrompt v = Inr (JStr (userPrompt @ '', in the style of: '' @ shown))
          \<and> editImageInternal e images
              (JStr (userPrompt @ '', in the style of: '' @ shown)) s = (r, s1)
          \<and> edit_variation e images userPrompt v s = (Inr iv, tick s1)
          \<and> (\<forall>err. r = Inl err \<longrightarrow>
                 isError iv = Some True
                 \<and> retryPayload iv
                   = Some \<lparr>payload_images = Some images,
                           payload_prompt = JStr (userPrompt @ '', in the style of: ''
                                                  @ shown),
                           payload_aspectRatio = None\<rparr>)"
    using r by blast
  obtain r' s1' where r': "retryNewImageGeneration e (JStr userPrompt) aspectRatio s = (r', s1')"
    by (cases "retryNewImageGeneration e (JStr userPrompt) aspectRatio s")
  from new_variation_step [OF shown pn r'] pn have b: "\<exists>r s1 iv.
            new_prompt userPrompt v = Inr (JStr userPrompt)
          \<and> retryNewImageGeneration e (JStr userPrompt) aspectRatio s = (r, s1)
          \<and> new_variation e userPrompt aspectRatio v s = (Inr iv, tick s1)
          \<and> (\<forall>err. r = Inl err \<longrightarrow>
                 isError iv = Some True
                 \<and> retryPayload iv
                   = Some \<lparr>payload_images = None, payload_prompt = JStr userPrompt,
                           payload_aspectRatio = Some aspectRatio\<rparr>)"
    using r' by blast
  from a b show ?thesis by blast
qed

theorem empty_prompt_fallback_witness:
  "(\<exists>r s1 iv.
      editImageInternal sample_env sample_images
        (JStr ''make it red, in the style of: Dusk'') sample_state = (r, s1)
    \<and> edit_variation sample_env sample_images ''make it red''
        (JObj [(''title'', JStr ''Dusk''), (''description'', JStr ''Low light''),
               (''modifiedPrompt'', JStr [])]) sample_state = (Inr iv, tick s1))
   \<and> (\<exists>r s1 iv.
      retryNewImageGeneration sample_env (JStr ''a red bicycle on a beach'') ''16:9'' sample_state
        = (r, s1)
    \<and> new_variation sample_env ''a red bicycle on a beach'' ''16:9''
        (JObj [(''title'', JStr ''Dusk''), (''description'', JStr ''Low light''),
               (''modifiedPrompt'', JStr [])]) sample_state = (Inr iv, tick s1))"
proof -
  let ?c = "JObj [(''title'', JStr ''Dusk''), (''description'', JStr ''Low light''),
                  (''modifiedPrompt'', JStr [])]"
  have m: "js_get ?c ''modifiedPrompt'' = Inr (JStr [])"
    and f: "\<not> truthy (JStr [])"
    and t: "js_get ?c ''title'' = Inr (JStr ''Dusk'')"
    and sh: "to_string (JStr ''Dusk'') = Inr ''Dusk''" by simp_all
  from empty_prompt_fallback
    [OF m f t sh, where userPrompt = "''make it red''" and e = sample_env
       and images = sample_images and s = sample_state, THEN conjunct1]
  have a: "\<exists>r s1 iv.
      editImageInternal sample_env sample_images
        (JStr ''make it red, in the style of: Dusk'') sample_state = (r, s1)
    \<and> edit_variation sample_env sample_images ''make it red'' ?c sample_state = (Inr iv, tick s1)"
    by auto
  from empty_prompt_fallback
    [OF m f t sh, where userPrompt = "''a red bicycle on a beach''" and e = sample_env
       and aspectRatio = "''16:9''" and s = sample_state, THEN conjunct2]
  have b: "\<exists>r s1 iv.
      retryNewImageGeneration sample_env (JStr ''a red bicycle on a beach'') ''16:9'' sample_state
        = (r, s1)
    \<and> new_variation sample_env ''a red bicycle on a beach'' ''16:9'' ?c sample_state
        = (Inr iv, tick s1)"
    by auto
  from a b show ?thesis by blast
qed

text \<open>
  Claim C4 as stated fails on the new-image path: the third planned variation
  of the sample plan has the title Dusk and an empty \<^verbatim>\<open>modifiedPrompt\<close>, and the
  render call made for it carries the user prompt alone.
\<close>

theorem new_image_fallback_counterexample:
  "sample_variations ! 2
     = JObj [(''title'', JStr ''Dusk''), (''description'', JStr ''Low light''),
             (''modifiedPrompt'', JStr [])]
   \<and> calls (snd (snd (generateNewImages sample_env ''a red bicycle on a beach'' False ''16:9''
                        sample_state))) ! 3
     = GenerateImages \<lparr>images_model = ''imagen-4.0-generate-001'',
                       images_prompt = JStr ''a red bicycle on a beach'',
                       numberOfImages = 1, images_aspectRatio = ''16:9''\<rparr>"
  by (simp add: sample_new_run sample_variations_def images_request_for_def)

text \<open>
  Claim C5, as amended. Take a run of either generator and the \<open>i\<close>-th variation
  it yielded, \<open>iv\<close>, an error variation. Then the plan passed validation and
  \<open>iv\<close> was built for the \<open>i\<close>-th planned variation: its title is the title of
  that one; the loop over the \<open>i\<close> variations before it ended without throwing
  with the variations yielded before \<open>iv\<close>; in the state reached there the
  render call was made with the prompt \<open>p\<close> computed for the \<open>i\<close>-th planned
  variation and threw; the message of \<open>iv\<close> is that of the thrown value; and
  the retry payload holds the inputs of this render call: on the new-image path
  the prompt and the aspect ratio (and no images), on the edit path the source
  images and the prompt (and no aspect ratio).
\<close>

theorem error_variation_payload:
  "(generateNewImages e userPrompt useWebSearch aspectRatio s = (evs, out, s')
      \<and> i < length (variations_of evs) \<and> variations_of evs ! i = iv
      \<and> isError iv = Some True
    \<longrightarrow> (\<exists>sc response sp plan vs p sr err sr'.
           getAiClient e s = (Inr (), sc)
         \<and> generateContent e (new_plan_request userPrompt (getCurrentLanguage e) aspectRatio) sc
             = (Inr response, sp)
         \<and> parsed_json e response = Inr plan
         \<and> planned_variations plan = Inr vs
         \<and> i < length vs
         \<and> js_get (vs ! i) ''title'' = Inr (title iv)
         \<and> new_images_loop e userPrompt aspectRatio (take i vs) sp
             = (map Variation (take i (variations_of evs)), None, sr)
         \<and> new_prompt userPrompt (vs ! i) = Inr p
         \<and> retryNewImageGeneration e p aspectRatio sr = (Inl err, sr')
         \<and> errorMessage iv = Some (message_of err)
         \<and> retryPayload iv = Some \<lparr>payload_images = None, payload_prompt = p,
                                    payload_aspectRatio = Some aspectRatio\<rparr>))
   \<and> (generateImageEdits e images userPrompt useWebSearch aspectRatio s = (evs, out, s')
      \<and> i < length (variations_of evs) \<and> variations_of evs ! i = iv
      \<and> isError iv = Some True
    \<longrightarrow> (\<exists>sc response sp plan vs p sr err sr'.
           getAiClient e s = (Inr (), sc)
         \<and> generateContent e
             (edit_plan_request images userPrompt useWebSearch (getCurrentLanguage e) aspectRatio)
             sc = (Inr response, sp)
         \<and> parsed_json e response = Inr plan
         \<and> planned_variations plan = Inr vs
         \<and> i < length vs
         \<and> js_get (vs ! i) ''title'' = Inr (title iv)
         \<and> image_edits_loop e images userPrompt (take i vs) sp
             = (map Variation (take i (variations_of evs)), None, sr)
         \<and> edit_prompt userPrompt (vs ! i) = Inr p
         \<and> editImageInternal e images p sr = (Inl err, sr')
         \<and> errorMessage iv = Some (message_of err)
         \<and> retryPayload iv = Some \<lparr>payload_images = Some images, payload_prompt = p,
                                    payload_aspectRatio = None\<rparr>))"
proof (intro conjI impI)
  assume h: "generateNewImages e userPrompt useWebSearch aspectRatio s = (evs, out, s')
      \<and> i < length (variations_of evs) \<and> variations_of evs ! i = iv
      \<and> isError iv = Some True"
  then have run: "generateNewImages e userPrompt useWebSearch aspectRatio s = (evs, out, s')"
    and i: "i < length (variations_of evs)" and iv: "variations_of evs ! i = iv"
    and err: "isError iv = Some True" by blast+
  from i have "variations_of evs \<noteq> []" by auto
  from generateNewImages_variation [OF run this] obtain sc response sp plan vs where
    f: "getAiClient e s = (Inr (), sc)"
       "generateContent e (new_plan_request userPrompt (getCurrentLanguage e) aspectRatio) sc
          = (Inr response, sp)"
       "parsed_json e response = Inr plan"
       "planned_variations plan = Inr vs"
       "new_images_loop e userPrompt aspectRatio vs sp
          = (map Variation (variations_of evs), out, s')"
    by blast
  from i have "i < length (map Variation (variations_of evs))" by simp
  from new_images_loop_nth [OF f(5) this] obtain x sr st where
    g: "i < length vs" "map Variation (variations_of evs) ! i = Variation x"
       "new_images_loop e userPrompt aspectRatio (take i vs) sp
          = (take i (map Variation (variations_of evs)), None, sr)"
       "new_variation e userPrompt aspectRatio (vs ! i) sr = (Inr x, st)"
    by blast
  from g(2) i iv have x: "x = iv" by simp
  from new_variation_error [OF g(4) [unfolded x] err] obtain p er sr' where
    k: "new_prompt userPrompt (vs ! i) = Inr p"
       "retryNewImageGeneration e p aspectRatio sr = (Inl er, sr')"
       "js_get (vs ! i) ''title'' = Inr (title iv)"
       "errorMessage iv = Some (message_of er)"
       "retryPayload iv = Some \<lparr>payload_images = None, payload_prompt = p,
                                 payload_aspectRatio = Some aspectRatio\<rparr>"
    by blast
  from g(3) have pre: "new_images_loop e userPrompt aspectRatio (take i vs) sp
      = (map Variation (take i (variations_of evs)), None, sr)"
    by (simp add: take_map)
  from f(1-4) g(1) k(3) pre k(1,2,4,5)
  show "\<exists>sc response sp plan vs p sr err sr'.
           getAiClient e s = (Inr (), sc)
         \<and> generateContent e (new_plan_request userPrompt (getCurrentLanguage e) aspectRatio) sc
             = (Inr response, sp)
         \<and> parsed_json e response = Inr plan
         \<and> planned_variations plan = Inr vs
         \<and> i < length vs
         \<and> js_get (vs ! i) ''title'' = Inr (title iv)
         \<and> new_images_loop e userPrompt aspectRatio (take i vs) sp
             = (map Variation (take i (variations_of evs)), None, sr)
         \<and> new_prompt userPrompt (vs ! i) = Inr p
         \<and> retryNewImageGeneration e p aspectRatio sr = (Inl err, sr')
         \<and> errorMessage iv = Some (message_of err)
         \<and> retryPayload iv = Some \<lparr>payload_images = None, payload_prompt = p,
                                    payload_aspectRatio = Some aspectRatio\<rparr>"
    by blast
next
  assume h: "generateImageEdits e images userPrompt useWebSearch aspectRatio s = (evs, out, s')
      \<and> i < length (variations_of evs) \<and> variations_of evs ! i = iv
      \<and> isError iv = Some True"
  then have run: "generateImageEdits e images userPrompt useWebSearch aspectRatio s
      = (evs, out, s')"
    and i: "i < length (variations_of evs)" and iv: "variations_of evs ! i = iv"
    and err: "isError iv = Some True" by blast+
  from i have "variations_of evs \<noteq> []" by auto
  from generateImageEdits_variation [OF run this] obtain sc response sp plan vs where
    f: "getAiClient e s = (Inr (), sc)"
       "generateContent e
          (edit_plan_request images userPrompt useWebSearch (getCurrentLanguage e) aspectRatio)
          sc = (Inr response, sp)"
       "parsed_json e response = Inr plan"
       "planned_variations plan = Inr vs"
       "image_edits_loop e images userPrompt vs sp
          = (map Variation (variations_of evs), out, s')"
    by blast
  from i have "i < length (map Variation (variations_of evs))" by simp
  from image_edits_loop_nth [OF f(5) this] obtain x sr st where
    g: "i < length vs" "map Variation (variations_of evs) ! i = Variation x"
       "image_edits_loop e images userPrompt (take i vs) sp
          = (take i (map Variation (variations_of evs)), None, sr)"
       "edit_variation e images userPrompt (vs ! i) sr = (Inr x, st)"
    by blast
  from g(2) i iv have x: "x = iv" by simp
  from edit_variation_error [OF g(4) [unfolded x] err] obtain p er sr' where
    k: "edit_prompt userPrompt (vs ! i) = Inr p"
       "editImageInternal e images p sr = (Inl er, sr')"
       "js_get (vs ! i) ''title'' = Inr (title iv)"
       "errorMessage iv = Some (message_of er)"
       "retryPayload iv = Some \<lparr>payload_images = Some images, payload_prompt = p,
                                 payload_aspectRatio = None\<rparr>"
    by blast
  from g(3) have pre: "image_edits_loop e images userPrompt (take i vs) sp
      = (map Variation (take i (variations_of evs)), None, sr)"
    by (simp add: take_map)
  from f(1-4) g(1) k(3) pre k(1,2,4,5)
  show "\<exists>sc response sp plan vs p sr err sr'.
           getAiClient e s = (Inr (), sc)
         \<and> generateContent e
             (edit_plan_request images userPrompt useWebSearch (getCurrentLanguage e) aspectRatio)
             sc = (Inr response, sp)
         \<and> parsed_json e response = Inr plan
         \<and> planned_variations plan = Inr vs
         \<and> i < length vs
         \<and> js_get (vs ! i) ''title'' = Inr (title iv)
         \<and> image_edits_loop e images userPrompt (take i vs) sp
             = (map Variation (take i (variations_of evs)), None, sr)
         \<and> edit_prompt userPrompt (vs ! i) = Inr p
         \<and> editImageInternal e images p sr = (Inl err, sr')
         \<and> errorMessage iv = Some (message_of err)
         \<and> retryPayload iv = Some \<lparr>payload_images = Some images, payload_prompt = p,
                                    payload_aspectRatio = None\<rparr>"
    by blast
qed

theorem error_variation_payload_witness:
  "(\<exists>evs out s' p sr err sr'.
      generateNewImages sample_env ''a red bicycle on a beach'' False ''16:9'' sample_state
        = (evs, out, s')
    \<and> 1 < length (variations_of evs)
    \<and> isError (variations_of evs ! 1) = Some True
    \<and> title (variations_of evs ! 1) = JStr ''Noon''
    \<and> new_prompt ''a red bicycle on a beach'' (sample_variations ! 1) = Inr p
    \<and> p = JStr ''bike at noon''
    \<and> retryNewImageGeneration sample_env p ''16:9'' sr = (Inl err, sr')
    \<and> errorMessage (variations_of evs ! 1) = Some (message_of err)
    \<and> retryPayload (variations_of evs ! 1)
        = Some \<lparr>payload_images = None, payload_prompt = p,
                 payload_aspectRatio = Some ''16:9''\<rparr>)
   \<and> (\<exists>evs out s' p sr err sr'.
      generateImageEdits sample_env sample_images ''make it red'' True ''16:9'' sample_state
        = (evs, out, s')
    \<and> 1 < length (variations_of evs)
    \<and> isError (variations_of evs ! 1) = Some True
    \<and> title (variations_of evs ! 1) = JStr ''Noon''
    \<and> edit_prompt ''make it red'' (sample_variations ! 1) = Inr p
    \<and> p = JStr ''bike at noon''
    \<and> editImageInternal sample_env sample_images p sr = (Inl err, sr')
    \<and> errorMessage (variations_of evs ! 1) = Some (message_of err)
    \<and> retryPayload (variations_of evs ! 1)
        = Some \<lparr>payload_images = Some sample_images, payload_prompt = p,
                 payload_aspectRatio = None\<rparr>)"
proof -
  let ?n = "\<lparr>variation_id = ''17000000000020.5'', title = JStr ''Noon'',
             description = JStr ''Hard light'', imageUrl = [],
             createdAt = 1700000000003, isError = Some True,
             errorMessage = Some ''quota exceeded'',
             retryPayload = Some \<lparr>payload_images = None,
                                   payload_prompt = JStr ''bike at noon'',
                                   payload_aspectRatio = Some ''16:9''\<rparr>\<rparr>"
  let ?m = "\<lparr>variation_id = ''17000000000020.5'', title = JStr ''Noon'',
             description = JStr ''Hard light'', imageUrl = [],
             createdAt = 1700000000003, isError = Some True,
             errorMessage = Some ''quota exceeded'',
             retryPayload = Some \<lparr>payload_images = Some sample_images,
                                   payload_prompt = JStr ''bike at noon'',
                                   payload_aspectRatio = None\<rparr>\<rparr>"
  let ?sc = "sample_state\<lparr>ai := Some ''key''\<rparr>"
  obtain evs out s' where run:
    "generateNewImages sample_env ''a red bicycle on a beach'' False ''16:9'' sample_state
       = (evs, out, s')"
    by (cases "generateNewImages sample_env ''a red bicycle on a beach'' False ''16:9''
                 sample_state")
  with sample_new_run have vn: "1 < length (variations_of evs)" "variations_of evs ! 1 = ?n"
    by auto
  have en: "isError ?n = Some True" by simp
  from error_variation_payload
    [where e = sample_env and userPrompt = "''a red bicycle on a beach''"
       and useWebSearch = False and aspectRatio = "''16:9''" and s = sample_state
       and evs = evs and out = out and s' = s' and i = 1 and iv = ?n,
     THEN conjunct1, THEN mp, OF conjI [OF run conjI [OF vn(1) conjI [OF vn(2) en]]]]
  obtain sc response sp plan vs p sr err sr' where
    f: "getAiClient sample_env sample_state = (Inr (), sc)"
       "generateContent sample_env
          (new_plan_request ''a red bicycle on a beach'' (getCurrentLanguage sample_env) ''16:9'')
          sc = (Inr response, sp)"
       "parsed_json sample_env response = Inr plan"
       "planned_variations plan = Inr vs"
       "new_prompt ''a red bicycle on a beach'' (vs ! 1) = Inr p"
       "retryNewImageGeneration sample_env p ''16:9'' sr = (Inl err, sr')"
       "errorMessage ?n = Some (message_of err)"
       "retryPayload ?n = Some \<lparr>payload_images = None, payload_prompt = p,
                                 payload_aspectRatio = Some ''16:9''\<rparr>"
    by blast
  from f(1) sample_client have sc: "sc = ?sc" by simp
  from f(2) sample_new_plan_call [of "''a red bicycle on a beach''" "getCurrentLanguage sample_env"
      "''16:9''" ?sc]
  have "response = text_response sample_plan_json" by (simp add: sc)
  with f(3) sample_plan_parsed have "plan = sample_plan" by simp
  with f(4) sample_planned have vs: "vs = sample_variations" by simp
  from f(8) have p: "p = JStr ''bike at noon''" by simp
  have a: "\<exists>evs out s' p sr err sr'.
      generateNewImages sample_env ''a red bicycle on a beach'' False ''16:9'' sample_state
        = (evs, out, s')
    \<and> 1 < length (variations_of evs)
    \<and> isError (variations_of evs ! 1) = Some True
    \<and> title (variations_of evs ! 1) = JStr ''Noon''
    \<and> new_prompt ''a red bicycle on a beach'' (sample_variations ! 1) = Inr p
    \<and> p = JStr ''bike at noon''
    \<and> retryNewImageGeneration sample_env p ''16:9'' sr = (Inl err, sr')
    \<and> errorMessage (variations_of evs ! 1) = Some (message_of err)
    \<and> retryPayload (variations_of evs ! 1)
        = Some \<lparr>payload_images = None, payload_prompt = p,
                 payload_aspectRatio = Some ''16:9''\<rparr>"
    using run vn f(5-8) [unfolded vs] p
    by (intro exI [of _ evs] exI [of _ out] exI [of _ s'] exI [of _ p] exI [of _ sr]
          exI [of _ err] exI [of _ sr']) simp
  obtain evs2 out2 s2 where run2:
    "generateImageEdits sample_env sample_images ''make it red'' True ''16:9'' sample_state
       = (evs2, out2, s2)"
    by (cases "generateImageEdits sample_env sample_images ''make it red'' True ''16:9''
                 sample_state")
  with sample_edit_run have vm: "1 < length (variations_of evs2)" "variations_of evs2 ! 1 = ?m"
    by auto
  have em: "isError ?m = Some True" by simp
  from error_variation_payload
    [where e = sample_env and userPrompt = "''make it red''" and images = sample_images
       and useWebSearch = True and aspectRatio = "''16:9''" and s = sample_state
       and evs = evs2 and out = out2 and s' = s2 and i = 1 and iv = ?m,
     THEN conjunct2, THEN mp, OF conjI [OF run2 conjI [OF vm(1) conjI [OF vm(2) em]]]]
  obtain sc response sp plan vs p sr err sr' where
    f: "getAiClient sample_env sample_state = (Inr (), sc)"
       "generateContent sample_env
          (edit_plan_request sample_images ''make it red'' True (getCurrentLanguage sample_env)
             ''16:9'')
          sc = (Inr response, sp)"
       "parsed_json sample_env response = Inr plan"
       "planned_variations plan = Inr vs"
       "edit_prompt ''make it red'' (vs ! 1) = Inr p"
       "editImageInternal sample_env sample_images p sr = (Inl err, sr')"
       "errorMessage ?m = Some (message_of err)"
       "retryPayload ?m = Some \<lparr>payload_images = Some sample_images, payload_prompt = p,
                                 payload_aspectRatio = None\<rparr>"
    by blast
  from f(1) sample_client have sc: "sc = ?sc" by simp
  from f(2) sample_edit_plan_call [of sample_images "''make it red''" True
      "getCurrentLanguage sample_env" "''16:9''" ?sc]
  have "response = text_response sample_plan_json" by (simp add: sc)
  with f(3) sample_plan_parsed have "plan = sample_plan" by simp
  with f(4) sample_planned have vs: "vs = sample_variations" by simp
  from f(8) have p: "p = JStr ''bike at noon''" by simp
  have b: "\<exists>evs out s' p sr err sr'.
      generateImageEdits sample_env sample_images ''make it red'' True ''16:9'' sample_state
        = (evs, out, s')
    \<and> 1 < length (variations_of evs)
    \<and> isError (variations_of evs ! 1) = Some True
    \<and> title (variations_of evs ! 1) = JStr ''Noon''
    \<and> edit_prompt ''make it red'' (sample_variations ! 1) = Inr p
    \<and> p = JStr ''bike at noon''
    \<and> editImageInternal sample_env sample_images p sr = (Inl err, sr')
    \<and> errorMessage (variations_of evs ! 1) = Some (message_of err)
    \<and> retryPayload (variations_of evs ! 1)
        = Some \<lparr>payload_images = Some sample_images, payload_prompt = p,
                 payload_aspectRatio = None\<rparr>"
    using run2 vm f(5-8) [unfolded vs] p
    by (intro exI [of _ evs2] exI [of _ out2] exI [of _ s2] exI [of _ p] exI [of _ sr]
          exI [of _ err] exI [of _ sr']) simp
  from a b show ?thesis by blast
qed

text \<open>
  Claim C5 as stated fails on the edit path: the error variation of the sample
  edit run has a retry payload without an aspect ratio.
\<close>

theorem edit_payload_counterexample:
  "fst (generateImageEdits sample_env sample_images ''make it red'' True ''16:9'' sample_state) ! 5
     = Variation \<lparr>variation_id = ''17000000000020.5'', title = JStr ''Noon'',
                   description = JStr ''Hard light'', imageUrl = [],
                   createdAt = 1700000000003, isError = Some True,
                   errorMessage = Some ''quota exceeded'',
                   retryPayload = Some \<lparr>payload_images = Some sample_images,
                                         payload_prompt = JStr ''bike at noon'',
                                         payload_aspectRatio = None\<rparr>\<rparr>"
  by (simp add: sample_edit_run)

end
